(* ===== verification/Prelude.thy ===== *)
theory Prelude
  imports Main "HOL-Library.Word" "HOL-Library.Monad_Syntax" "HOL-Library.Multiset"
begin

text \<open>
  What the components share: Go's machine integers, its error values (sentinels, errors
  of external code, \<open>fmt.Errorf\<close> with and without the wrapping verb), the
  outcome of a call that may panic, the collections of facts the
  component theories feed, and list operations with their lemmas (insertion and removal
  at an index, moving an element to the front, the first index of an element).
\<close>

section \<open>Machine integers and time\<close>

text \<open>
  Go's \<open>int\<close> is 64 bits wide on the platforms the service is built for, as
  \<open>int64\<close> is. A point in time is the number of nanoseconds since Go's zero time
  (January 1, year 1, UTC), so that \<open>IsZero\<close> is \<open>t = 0\<close> and
  \<open>After\<close> is \<open>>\<close>.
\<close>

type_synonym go_int = "64 word"
type_synonym go_int64 = "64 word"
type_synonym go_time = int

section \<open>Errors\<close>

text \<open>The error values that the code compares with \<open>errors.Is\<close>.\<close>

datatype sentinel =
    ErrInvalidIndex
  | ErrEmptyList
  | ErrUnexpectedLinkedListBehaviour
  | ErrOrderNotFound
  | ErrNoRows
  | ErrNotImplemented
  | ErrInternalServerErrorResponse
  | ErrFieldRequired
  | ErrNilPointer

text \<open>
  An error value. \<open>Ext\<close> is an error made by code outside the repository, known by
  its text; \<open>Errorf\<close> is one with no wrapped error (a literal text, or
  \<open>%v\<close>, which keeps the text only); \<open>Wrap p e s\<close> is
  \<open>fmt.Errorf("p%w s", e)\<close> (also \<open>errors.Wrap\<close>, whose prefix ends in a
  colon); \<open>Wrap2\<close> has two wrapped errors.
\<close>

datatype go_error =
    Sentinel sentinel
  | Ext string
  | Errorf string
  | Wrap string go_error string
  | Wrap2 string go_error string go_error

primrec sentinel_text :: "sentinel \<Rightarrow> string" where
  "sentinel_text ErrInvalidIndex = ''invalid index''"
| "sentinel_text ErrEmptyList = ''zero length''"
| "sentinel_text ErrUnexpectedLinkedListBehaviour = ''unexpected linked list behaviour''"
| "sentinel_text ErrOrderNotFound = ''order not found''"
| "sentinel_text ErrNoRows = ''no rows in result set''"
| "sentinel_text ErrNotImplemented = ''not implemented''"
| "sentinel_text ErrInternalServerErrorResponse = ''internal server error response''"
| "sentinel_text ErrFieldRequired = ''field required''"
| "sentinel_text ErrNilPointer = ''nil pointer''"

primrec err_text :: "go_error \<Rightarrow> string" where
  "err_text (Sentinel s) = sentinel_text s"
| "err_text (Ext t) = t"
| "err_text (Errorf t) = t"
| "err_text (Wrap p e s) = p @ err_text e @ s"
| "err_text (Wrap2 p e m f) = p @ err_text e @ m @ err_text f"

primrec errors_is :: "go_error \<Rightarrow> sentinel \<Rightarrow> bool" where
  "errors_is (Sentinel s) t = (s = t)"
| "errors_is (Ext u) t = False"
| "errors_is (Errorf u) t = False"
| "errors_is (Wrap p e s) t = errors_is e t"
| "errors_is (Wrap2 p e m f) t = (errors_is e t \<or> errors_is f t)"

section \<open>Outcomes\<close>

text \<open>A call returns its values or panics.\<close>

datatype 'a outcome = Returns 'a | Panics

primrec bind_outcome :: "'a outcome \<Rightarrow> ('a \<Rightarrow> 'b outcome) \<Rightarrow> 'b outcome" where
  "bind_outcome (Returns a) f = f a"
| "bind_outcome Panics f = Panics"

lemma bind_outcome_Returns_iff:
  "bind_outcome m f = Returns b \<longleftrightarrow> (\<exists>a. m = Returns a \<and> f a = Returns b)"
  by (cases m) auto

lemma bind_outcome_Panics_iff:
  "bind_outcome m f = Panics \<longleftrightarrow> m = Panics \<or> (\<exists>a. m = Returns a \<and> f a = Panics)"
  by (cases m) auto

text \<open>
  A computation over a state \<open>'w\<close>: the state in which it leaves the world and its
  outcome. A panic keeps the state reached, since a recovered panic does not undo anything.
\<close>

type_synonym ('w, 'a) run = "'w \<Rightarrow> 'w \<times> 'a outcome"

definition ret :: "'a \<Rightarrow> ('w, 'a) run" where
  "ret a w = (w, Returns a)"

definition bind_run :: "('w, 'a) run \<Rightarrow> ('a \<Rightarrow> ('w, 'b) run) \<Rightarrow> ('w, 'b) run" where
  "bind_run m f w = (case m w of (w', Panics) \<Rightarrow> (w', Panics) | (w', Returns a) \<Rightarrow> f a w')"

lemma bind_run_Returns [simp]: "m w = (w', Returns a) \<Longrightarrow> bind_run m f w = f a w'"
  by (simp add: bind_run_def)

lemma bind_run_Panics [simp]: "m w = (w', Panics) \<Longrightarrow> bind_run m f w = (w', Panics)"
  by (simp add: bind_run_def)

lemma bind_run_ret [simp]: "bind_run (ret a) f = f a"
  by (simp add: bind_run_def ret_def fun_eq_iff)

section \<open>Collections of facts\<close>

named_theorems heap_simps \<open>facts on chains of nodes in the store\<close>
named_theorems seq_simps \<open>facts on the list operations at an index\<close>
named_theorems lru_simps \<open>facts on the abstract recency list\<close>

section \<open>Lists at an index\<close>

definition insert_nth :: "nat \<Rightarrow> 'a \<Rightarrow> 'a list \<Rightarrow> 'a list" where
  "insert_nth i x xs = take i xs @ x # drop i xs"

definition remove_nth :: "nat \<Rightarrow> 'a list \<Rightarrow> 'a list" where
  "remove_nth i xs = take i xs @ drop (Suc i) xs"

definition move_front :: "nat \<Rightarrow> 'a list \<Rightarrow> 'a list" where
  "move_front i xs = xs ! i # remove_nth i xs"

fun index_of :: "('a \<Rightarrow> bool) \<Rightarrow> 'a list \<Rightarrow> nat option" where
  "index_of p [] = None"
| "index_of p (x # xs) = (if p x then Some 0 else map_option Suc (index_of p xs))"

lemma split_at_nth: "i < length xs \<Longrightarrow> xs = take i xs @ xs ! i # drop (Suc i) xs"
  by (simp add: Cons_nth_drop_Suc)

lemma insert_nth_0 [seq_simps]: "insert_nth 0 x xs = x # xs"
  by (simp add: insert_nth_def)

lemma insert_nth_length [seq_simps]: "insert_nth (length xs) x xs = xs @ [x]"
  by (simp add: insert_nth_def)

lemma remove_nth_0 [seq_simps]: "remove_nth 0 xs = tl xs"
  by (simp add: remove_nth_def drop_Suc)

lemma remove_nth_append [seq_simps]:
  "remove_nth (length xs) (xs @ y # ys) = xs @ ys"
  by (simp add: remove_nth_def)

lemma remove_nth_last: "xs \<noteq> [] \<Longrightarrow> remove_nth (length xs - 1) xs = butlast xs"
  by (simp add: remove_nth_def butlast_conv_take)

lemma length_remove_nth: "i < length xs \<Longrightarrow> length (remove_nth i xs) = length xs - 1"
  by (auto simp: remove_nth_def)

lemma length_insert_nth [simp]: "length (insert_nth i x xs) = Suc (length xs)"
  by (simp add: insert_nth_def)

lemma move_front_append [seq_simps]:
  "move_front (length xs) (xs @ y # ys) = y # xs @ ys"
  by (simp add: move_front_def seq_simps)

lemma move_front_0 [seq_simps]: "xs \<noteq> [] \<Longrightarrow> move_front 0 xs = xs"
  by (cases xs) (simp_all add: move_front_def remove_nth_def)

lemma length_move_front: "i < length xs \<Longrightarrow> length (move_front i xs) = length xs"
  by (auto simp: move_front_def length_remove_nth)

lemma mset_move_front: "i < length xs \<Longrightarrow> mset (move_front i xs) = mset xs"
proof -
  assume "i < length xs"
  then have "mset xs = mset (take i xs @ xs ! i # drop (Suc i) xs)"
    using split_at_nth by metis
  also have "\<dots> = mset (move_front i xs)"
    by (simp add: move_front_def remove_nth_def)
  finally show ?thesis by simp
qed

lemma set_move_front: "i < length xs \<Longrightarrow> set (move_front i xs) = set xs"
  by (metis mset_move_front set_mset_mset)

lemma distinct_move_front: "i < length xs \<Longrightarrow> distinct (move_front i xs) = distinct xs"
  by (metis mset_eq_imp_distinct_iff mset_move_front)

lemma index_of_None_iff: "index_of p xs = None \<longleftrightarrow> (\<forall>x\<in>set xs. \<not> p x)"
  by (induction xs) auto

lemma index_of_SomeD: "index_of p xs = Some i \<Longrightarrow> i < length xs \<and> p (xs ! i)"
  by (induction xs arbitrary: i) (auto split: if_splits)

lemma index_of_Some_first: "index_of p xs = Some i \<Longrightarrow> j < i \<Longrightarrow> \<not> p (xs ! j)"
proof (induction xs arbitrary: i j)
  case (Cons x xs)
  then show ?case by (cases j) (auto split: if_splits)
qed simp

lemma index_of_eq_split:
  assumes "index_of (\<lambda>y. y = k) xs = Some i"
  shows "xs = take i xs @ k # drop (Suc i) xs" "k \<notin> set (take i xs)"
proof -
  from assms have i: "i < length xs" "xs ! i = k"
    by (auto dest: index_of_SomeD)
  then show "xs = take i xs @ k # drop (Suc i) xs"
    using split_at_nth by metis
  show "k \<notin> set (take i xs)"
    using index_of_Some_first [OF assms] i by (auto simp: in_set_conv_nth)
qed

lemma remove_nth_index:
  assumes "index_of (\<lambda>y. y = k) xs = Some i" "distinct xs"
  shows "remove_nth i xs = filter (\<lambda>y. y \<noteq> k) xs"
proof -
  note s = index_of_eq_split [OF assms(1)]
  have d: "distinct (take i xs @ k # drop (Suc i) xs)"
    using s(1) assms(2) by simp
  then have "filter (\<lambda>y. y \<noteq> k) (take i xs) = take i xs"
    "filter (\<lambda>y. y \<noteq> k) (drop (Suc i) xs) = drop (Suc i) xs"
    by (auto intro!: filter_True)
  then have "filter (\<lambda>y. y \<noteq> k) (take i xs @ k # drop (Suc i) xs) = take i xs @ drop (Suc i) xs"
    by simp
  then show ?thesis using s(1) by (simp add: remove_nth_def)
qed

lemma move_front_index:
  assumes "index_of (\<lambda>y. y = k) xs = Some i" "distinct xs"
  shows "move_front i xs = k # filter (\<lambda>y. y \<noteq> k) xs"
  using remove_nth_index [OF assms] index_of_SomeD [OF assms(1)]
  by (simp add: move_front_def)

section \<open>Decimal text\<close>

text \<open>\<open>%d\<close> and \<open>strconv.Itoa\<close>.\<close>

definition digit_char :: "nat \<Rightarrow> char" where
  "digit_char d = char_of (48 + d)"

fun nat_digits :: "nat \<Rightarrow> string" where
  "nat_digits n =
     (if n < 10 then [digit_char n] else nat_digits (n div 10) @ [digit_char (n mod 10)])"

declare nat_digits.simps [simp del]

definition itoa :: "int \<Rightarrow> string" where
  "itoa i = (if i < 0 then CHR ''-'' # nat_digits (nat (- i)) else nat_digits (nat i))"

section \<open>Machine integers\<close>

text \<open>A 64-bit integer holds the values of its range.\<close>

lemma sint_small: "- (2 ^ 63) \<le> x \<Longrightarrow> x < 2 ^ 63 \<Longrightarrow> sint (word_of_int x :: 64 word) = x"
  by (simp add: signed_of_int signed_take_bit_int_eq_self)

end
