(* ===== verification/LinkedList.thy ===== *)
theory LinkedList
  imports Prelude
begin

text \<open>
  The generic singly linked list of \<open>pkg/linkedlist/list.go\<close>, on an explicit
  store: a pointer is \<open>None\<close> (Go's nil) or the address of a node, and following a nil
  pointer is the value \<open>None\<close> of the operation (a panic). The fields \<open>head\<close>,
  \<open>tail\<close> and \<open>length\<close> are those of the struct; \<open>ll_fresh\<close> is the
  next address that \<open>&Node{...}\<close> allocates. The mutex serialises the operations, so
  each of them is one state transformer; \<open>ll_rep l xs\<close> says that the list holds
  \<open>xs\<close>, and every operation is shown to refine its counterpart on HOL lists, with no
  panic. Indices and lengths are \<open>int\<close>: a list has fewer than \<open>2^63\<close>
  nodes, so no index computation of the code wraps.
\<close>

section \<open>Data\<close>

type_synonym addr = nat
type_synonym ptr = "addr option"

record 'v node =
  node_value :: 'v
  node_next :: ptr

type_synonym 'v store = "addr \<Rightarrow> 'v node option"

record 'v llist =
  ll_store :: "'v store"
  ll_fresh :: addr
  ll_head :: ptr
  ll_tail :: ptr
  ll_length :: int

text \<open>
  An operation with result \<open>'a\<close>: \<open>None\<close> is a nil dereference, otherwise the
  new list and what the method returns.
\<close>

type_synonym ('v, 'a) ll_result = "('v llist \<times> 'a) option"

definition NewLinkedList :: "'v llist" where
  "NewLinkedList = \<lparr>ll_store = (\<lambda>_. None), ll_fresh = 0, ll_head = None,
     ll_tail = None, ll_length = 0\<rparr>"

section \<open>Pointers\<close>

definition deref :: "'v store \<Rightarrow> ptr \<Rightarrow> 'v node option" where
  "deref h p = (case p of None \<Rightarrow> None | Some a \<Rightarrow> h a)"

text \<open>\<open>p.next = q\<close>\<close>

definition set_next :: "'v store \<Rightarrow> ptr \<Rightarrow> ptr \<Rightarrow> 'v store option" where
  "set_next h p q =
     (case p of None \<Rightarrow> None
      | Some a \<Rightarrow> (case h a of None \<Rightarrow> None
                   | Some nd \<Rightarrow> Some (h(a \<mapsto> nd\<lparr>node_next := q\<rparr>))))"

text \<open>\<open>for i := 0; i < n; i++ { p = p.next }\<close>\<close>

primrec walk :: "'v store \<Rightarrow> ptr \<Rightarrow> nat \<Rightarrow> ptr option" where
  "walk h p 0 = Some p"
| "walk h p (Suc n) = do { nd \<leftarrow> deref h p; walk h (node_next nd) n }"

section \<open>Unexported methods\<close>

definition Len :: "'v llist \<Rightarrow> int" where
  "Len l = ll_length l"

definition setTail :: "'v llist \<Rightarrow> ptr \<Rightarrow> 'v llist" where
  "setTail l newTail = l\<lparr>ll_tail := newTail\<rparr>"

definition recalculateTail :: "'v llist \<Rightarrow> 'v llist option" where
  "recalculateTail l =
     do { currentElem \<leftarrow> walk (ll_store l) (ll_head l) (nat (Len l - 1));
          Some (setTail l currentElem) }"

definition getFirstNode :: "'v llist \<Rightarrow> ptr \<times> go_error option" where
  "getFirstNode l =
     (if Len l = 0 then (None, Some (Sentinel ErrEmptyList)) else (ll_head l, None))"

definition getLastNode :: "'v llist \<Rightarrow> ptr \<times> go_error option" where
  "getLastNode l =
     (if Len l = 0 then (None, Some (Sentinel ErrEmptyList)) else (ll_tail l, None))"

definition getNodeAt :: "'v llist \<Rightarrow> int \<Rightarrow> (ptr \<times> go_error option) option" where
  "getNodeAt l index =
     (let length = Len l in
      if length = 0 then Some (None, Some (Sentinel ErrEmptyList))
      else if index = 0 then Some (getFirstNode l)
      else if index < 0 \<or> index \<ge> length then Some (None, Some (Sentinel ErrInvalidIndex))
      else if index = length - 1 then Some (getLastNode l)
      else do { currentNode \<leftarrow> walk (ll_store l) (ll_head l) (nat index);
                Some (currentNode, None) })"

definition removeFirstNode :: "'v llist \<Rightarrow> ('v, go_error option) ll_result" where
  "removeFirstNode l =
     (if Len l = 0 then Some (l, Some (Sentinel ErrEmptyList))
      else do {
        nd \<leftarrow> deref (ll_store l) (ll_head l);
        l' \<leftarrow> recalculateTail (l\<lparr>ll_head := node_next nd, ll_length := ll_length l - 1\<rparr>);
        Some (l', None) })"

definition removeNodeAt :: "'v llist \<Rightarrow> int \<Rightarrow> ('v, go_error option) ll_result" where
  "removeNodeAt l index =
     (let length = Len l in
      if length = 0 then Some (l, Some (Sentinel ErrEmptyList))
      else if index = 0 then removeFirstNode l
      else if index < 0 \<or> index \<ge> length then Some (l, Some (Sentinel ErrInvalidIndex))
      else do {
        prevElem \<leftarrow> walk (ll_store l) (ll_head l) (nat (index - 1));
        prev \<leftarrow> deref (ll_store l) prevElem;
        newNext \<leftarrow> (case node_next prev of
                      None \<Rightarrow> Some None
                    | Some d \<Rightarrow> map_option node_next (deref (ll_store l) (Some d)));
        h \<leftarrow> set_next (ll_store l) prevElem newNext;
        let l1 = l\<lparr>ll_store := h\<rparr>;
        let l2 = (if index = Len l1 - 1 then setTail l1 prevElem else l1);
        Some (l2\<lparr>ll_length := ll_length l2 - 1\<rparr>, None) })"

section \<open>Exported methods\<close>

definition Insert :: "'v llist \<Rightarrow> 'v \<Rightarrow> int \<Rightarrow> ('v, go_error option) ll_result" where
  "Insert l v index =
     (let n = ll_fresh l;
          h0 = (ll_store l)(n \<mapsto> \<lparr>node_value = v, node_next = None\<rparr>);
          l0 = l\<lparr>ll_store := h0, ll_fresh := Suc n\<rparr>;
          currentLen = Len l
      in
      if index > currentLen then Some (l0, Some (Sentinel ErrInvalidIndex))
      else if index < 0 then Some (l0, Some (Sentinel ErrInvalidIndex))
      else do {
        l1 \<leftarrow> (if index = 0
               then do { h \<leftarrow> set_next h0 (Some n) (ll_head l);
                         Some (l0\<lparr>ll_store := h, ll_head := Some n\<rparr>) }
               else if index < currentLen
               then do { prev \<leftarrow> walk h0 (ll_head l) (nat (index - 1));
                         p \<leftarrow> deref h0 prev;
                         h1 \<leftarrow> (if node_next p \<noteq> None
                               then set_next h0 (Some n) (node_next p) else Some h0);
                         h2 \<leftarrow> set_next h1 prev (Some n);
                         Some (l0\<lparr>ll_store := h2\<rparr>) }
               else do { h \<leftarrow> set_next h0 (ll_tail l) (Some n);
                         Some (l0\<lparr>ll_store := h\<rparr>) });
        let l2 = l1\<lparr>ll_length := ll_length l1 + 1\<rparr>;
        Some (if index = currentLen then setTail l2 (Some n) else l2, None) })"

definition InsertLast :: "'v llist \<Rightarrow> 'v \<Rightarrow> ('v, go_error option) ll_result" where
  "InsertLast l v = Insert l v (Len l)"

definition RemoveAt :: "'v llist \<Rightarrow> int \<Rightarrow> ('v, go_error option) ll_result" where
  "RemoveAt l index = removeNodeAt l index"

definition RemoveFirst :: "'v llist \<Rightarrow> ('v, go_error option) ll_result" where
  "RemoveFirst l = removeFirstNode l"

definition RemoveLast :: "'v llist \<Rightarrow> ('v, go_error option) ll_result" where
  "RemoveLast l = removeNodeAt l (Len l - 1)"

text \<open>
  The readers return a value and an error; \<open>Inl\<close> stands for the pair of Go's zero
  value and the error.
\<close>

definition GetAt :: "'v llist \<Rightarrow> int \<Rightarrow> (go_error + 'v) option" where
  "GetAt l index =
     do { r \<leftarrow> getNodeAt l index;
          (case r of
             (node, Some err) \<Rightarrow> Some (Inl err)
           | (None, None) \<Rightarrow> Some (Inl (Sentinel ErrEmptyList))
           | (Some a, None) \<Rightarrow> map_option (\<lambda>nd. Inr (node_value nd)) (deref (ll_store l) (Some a))) }"

definition GetFirst :: "'v llist \<Rightarrow> (go_error + 'v) option" where
  "GetFirst l =
     (case getFirstNode l of
        (node, Some err) \<Rightarrow> Some (Inl err)
      | (None, None) \<Rightarrow> Some (Inl (Sentinel ErrEmptyList))
      | (Some a, None) \<Rightarrow> map_option (\<lambda>nd. Inr (node_value nd)) (deref (ll_store l) (Some a)))"

definition GetLast :: "'v llist \<Rightarrow> (go_error + 'v) option" where
  "GetLast l =
     (case getLastNode l of
        (node, Some err) \<Rightarrow> Some (Inl err)
      | (node, None) \<Rightarrow> map_option (\<lambda>nd. Inr (node_value nd)) (deref (ll_store l) node))"

definition MoveToFirst :: "'v llist \<Rightarrow> int \<Rightarrow> ('v, go_error option) ll_result" where
  "MoveToFirst l fromIdx =
     (let length = Len l in
      if fromIdx < 0 \<or> fromIdx \<ge> length then Some (l, Some (Sentinel ErrInvalidIndex))
      else if fromIdx > 0 \<and> length > 1 then do {
        r \<leftarrow> getNodeAt l (fromIdx - 1);
        (case r of
           (prevNode, Some err) \<Rightarrow> Some (l, Some err)
         | (prevNode, None) \<Rightarrow> do {
             prev \<leftarrow> deref (ll_store l) prevNode;
             let nodeToMove = node_next prev;
             moved \<leftarrow> deref (ll_store l) nodeToMove;
             let nextNode = node_next moved;
             let currentHead = ll_head l;
             h1 \<leftarrow> set_next (ll_store l) nodeToMove currentHead;
             h2 \<leftarrow> set_next h1 prevNode nextNode;
             l' \<leftarrow> recalculateTail (l\<lparr>ll_store := h2, ll_head := nodeToMove\<rparr>);
             Some (l', None) }) }
      else Some (l, None))"

text \<open>
  The loop of \<open>GetIndex\<close>: \<open>n\<close> iterations are left, \<open>i\<close> is the loop
  counter and \<open>elem\<close> the current node.
\<close>

primrec getIndexLoop ::
  "'v store \<Rightarrow> ('v \<Rightarrow> 'v \<Rightarrow> bool) \<Rightarrow> 'v \<Rightarrow> ptr \<Rightarrow> int \<Rightarrow> nat \<Rightarrow> int option" where
  "getIndexLoop h compareFunc item elem i 0 = Some (-1)"
| "getIndexLoop h compareFunc item elem i (Suc n) =
     do { nd \<leftarrow> deref h elem;
          if compareFunc (node_value nd) item then Some i
          else getIndexLoop h compareFunc item (node_next nd) (i + 1) n }"

definition GetIndex ::
  "'v llist \<Rightarrow> 'v \<Rightarrow> ('v \<Rightarrow> 'v \<Rightarrow> bool) \<Rightarrow> (int \<times> go_error option) option" where
  "GetIndex l item compareFunc =
     (if Len l = 0 then Some (-1, Some (Sentinel ErrEmptyList))
      else map_option (\<lambda>i. (i, None))
        (getIndexLoop (ll_store l) compareFunc item (ll_head l) 0 (nat (Len l))))"

primrec getAllLoop :: "'v store \<Rightarrow> ptr \<Rightarrow> nat \<Rightarrow> 'v list option" where
  "getAllLoop h p 0 = Some []"
| "getAllLoop h p (Suc n) =
     do { nd \<leftarrow> deref h p;
          rest \<leftarrow> getAllLoop h (node_next nd) n;
          Some (node_value nd # rest) }"

definition GetAll :: "'v llist \<Rightarrow> 'v list option" where
  "GetAll l = getAllLoop (ll_store l) (ll_head l) (nat (Len l))"

section \<open>Representation\<close>

text \<open>
  \<open>chain h p cs q\<close>: from pointer \<open>p\<close> the store holds the cells
  \<open>cs\<close> (addresses with their values) and the last of them points to \<open>q\<close>.
\<close>

fun chain :: "'v store \<Rightarrow> ptr \<Rightarrow> (addr \<times> 'v) list \<Rightarrow> ptr \<Rightarrow> bool" where
  "chain h p [] q = (p = q)"
| "chain h p ((a, v) # cs) q =
     (p = Some a \<and> (\<exists>nx. h a = Some \<lparr>node_value = v, node_next = nx\<rparr> \<and> chain h nx cs q))"

definition last_ptr :: "(addr \<times> 'v) list \<Rightarrow> ptr" where
  "last_ptr cs = (if cs = [] then None else Some (fst (last cs)))"

definition ll_cells :: "'v llist \<Rightarrow> (addr \<times> 'v) list \<Rightarrow> bool" where
  "ll_cells l cs \<longleftrightarrow>
     chain (ll_store l) (ll_head l) cs None \<and> distinct (map fst cs) \<and>
     (\<forall>a \<in> set (map fst cs). a < ll_fresh l) \<and>
     ll_length l = int (length cs) \<and> ll_tail l = last_ptr cs"

definition ll_rep :: "'v llist \<Rightarrow> 'v list \<Rightarrow> bool" where
  "ll_rep l xs \<longleftrightarrow> (\<exists>cs. ll_cells l cs \<and> map snd cs = xs)"

lemma chain_append [heap_simps]:
  "chain h p (xs @ ys) q \<longleftrightarrow> (\<exists>m. chain h p xs m \<and> chain h m ys q)"
proof (induction xs arbitrary: p)
  case (Cons c xs)
  then show ?case by (cases c) (auto; blast)
qed simp

lemma chain_upd [heap_simps]:
  "a \<notin> fst ` set cs \<Longrightarrow> chain (h(a := x)) p cs q = chain h p cs q"
  by (induction cs arbitrary: p) auto

lemma chain_walk: "chain h p xs m \<Longrightarrow> walk h p (length xs) = Some m"
  by (induction xs arbitrary: p) (auto simp: deref_def)

lemma chain_walk_take:
  "chain h p (xs @ ys) q \<Longrightarrow> \<exists>m. walk h p (length xs) = Some m \<and> chain h m ys q"
  by (auto simp: heap_simps dest: chain_walk)

lemma last_ptr_snoc [heap_simps]: "last_ptr (cs @ [(a, v)]) = Some a"
  by (simp add: last_ptr_def)

lemma last_ptr_append [heap_simps]: "ys \<noteq> [] \<Longrightarrow> last_ptr (xs @ ys) = last_ptr ys"
  by (simp add: last_ptr_def)

lemma last_ptr_Cons [heap_simps]: "cs \<noteq> [] \<Longrightarrow> last_ptr (c # cs) = last_ptr cs"
  by (simp add: last_ptr_def)

lemma last_ptr_simps [simp]: "last_ptr [] = None" "last_ptr [(a, v)] = Some a"
  by (simp_all add: last_ptr_def)

lemma recalculateTail_chain:
  assumes "chain (ll_store l) (ll_head l) cs None" "ll_length l = int (length cs)"
  shows "recalculateTail l = Some (l\<lparr>ll_tail := last_ptr cs\<rparr>)"
proof (cases cs rule: rev_cases)
  case Nil
  with assms show ?thesis by (simp add: recalculateTail_def Len_def setTail_def)
next
  case (snoc ys c)
  obtain a v where c: "c = (a, v)" by force
  from assms(1) snoc c have "walk (ll_store l) (ll_head l) (length ys) = Some (Some a)"
    by (auto simp: heap_simps dest: chain_walk)
  with assms(2) snoc c show ?thesis
    by (simp add: recalculateTail_def Len_def setTail_def heap_simps)
qed

lemma split_cell:
  assumes "i < length cs"
  obtains xs a v ys where "cs = xs @ (a, v) # ys" "length xs = i"
proof -
  have "cs = take i cs @ cs ! i # drop (Suc i) cs" "length (take i cs) = i"
    using split_at_nth [OF assms] assms by simp_all
  then show ?thesis using that by (metis surj_pair)
qed

lemma ll_repE:
  assumes "ll_rep l xs"
  obtains cs where "ll_cells l cs" "xs = map snd cs"
  using assms by (auto simp: ll_rep_def)

lemma ll_rep_length: "ll_rep l xs \<Longrightarrow> Len l = int (length xs)"
  by (auto simp: ll_rep_def ll_cells_def Len_def)

lemma NewLinkedList_rep: "ll_rep NewLinkedList []"
  by (simp add: ll_rep_def ll_cells_def NewLinkedList_def)

section \<open>The readers\<close>

lemma getNodeAt_cells:
  assumes "ll_cells l (xs @ (a, v) # ys)"
  shows "getNodeAt l (int (length xs)) = Some (Some a, None)"
proof -
  have ch: "chain (ll_store l) (ll_head l) (xs @ (a, v) # ys) None"
    and len: "ll_length l = int (length xs + Suc (length ys))"
    and tl: "ll_tail l = last_ptr (xs @ (a, v) # ys)"
    using assms by (auto simp: ll_cells_def)
  have w: "walk (ll_store l) (ll_head l) (length xs) = Some (Some a)"
    using ch by (auto simp: heap_simps dest: chain_walk)
  have "xs = [] \<Longrightarrow> ll_head l = Some a" using ch by simp
  moreover have "ys = [] \<Longrightarrow> ll_tail l = Some a" using tl by (simp add: heap_simps)
  ultimately show ?thesis
    using w len by (auto simp: getNodeAt_def Len_def getFirstNode_def getLastNode_def Let_def)
qed

lemma deref_cells:
  assumes "ll_cells l (xs @ (a, v) # ys)"
  shows "\<exists>nx. deref (ll_store l) (Some a) = Some \<lparr>node_value = v, node_next = nx\<rparr> \<and>
     chain (ll_store l) nx ys None"
  using assms by (auto simp: ll_cells_def heap_simps deref_def)

lemma GetAt_rep:
  assumes "ll_rep l xs"
  shows "GetAt l i =
    (if xs = [] then Some (Inl (Sentinel ErrEmptyList))
     else if i < 0 \<or> i \<ge> int (length xs) then Some (Inl (Sentinel ErrInvalidIndex))
     else Some (Inr (xs ! nat i)))"
proof -
  obtain cs where cs: "ll_cells l cs" "xs = map snd cs"
    using assms by (rule ll_repE)
  show ?thesis
  proof (cases "0 \<le> i \<and> i < int (length cs)")
    case True
    then have "nat i < length cs" by (simp add: nat_less_iff)
    then obtain us a v vs where s: "cs = us @ (a, v) # vs" "length us = nat i"
      by (rule split_cell)
    have "getNodeAt l i = Some (Some a, None)"
      using getNodeAt_cells [of l us a v vs] cs(1) s True by simp
    moreover obtain nx where "deref (ll_store l) (Some a) = Some \<lparr>node_value = v, node_next = nx\<rparr>"
      using deref_cells [of l us a v vs] cs(1) s by auto
    moreover have "xs ! nat i = v" using cs(2) s by (simp add: nth_append)
    ultimately show ?thesis using True cs by (auto simp: GetAt_def)
  next
    case False
    then show ?thesis using ll_rep_length [OF assms] cs(2)
      by (auto simp: GetAt_def getNodeAt_def Let_def)
  qed
qed

lemma GetFirst_rep:
  assumes "ll_rep l xs"
  shows "GetFirst l =
    Some (if xs = [] then Inl (Sentinel ErrEmptyList) else Inr (hd xs))"
proof -
  obtain cs where cs: "ll_cells l cs" "xs = map snd cs"
    using assms by (rule ll_repE)
  then show ?thesis
    by (cases cs) (auto simp: GetFirst_def getFirstNode_def Len_def ll_cells_def deref_def)
qed

lemma GetLast_rep:
  assumes "ll_rep l xs"
  shows "GetLast l =
    Some (if xs = [] then Inl (Sentinel ErrEmptyList) else Inr (last xs))"
proof -
  obtain cs where cs: "ll_cells l cs" "xs = map snd cs"
    using assms by (rule ll_repE)
  then show ?thesis
    by (cases cs rule: rev_cases)
      (auto simp: GetLast_def getLastNode_def Len_def ll_cells_def deref_def heap_simps)
qed

lemma getIndexLoop_chain:
  assumes "chain h p cs q"
  shows "getIndexLoop h f item p i (length cs) =
    Some (case index_of (\<lambda>y. f y item) (map snd cs) of None \<Rightarrow> -1 | Some j \<Rightarrow> i + int j)"
  using assms
proof (induction cs arbitrary: p i)
  case (Cons c cs)
  then show ?case
    by (cases c) (auto simp: deref_def algebra_simps split: option.splits)
qed simp

lemma GetIndex_rep:
  assumes "ll_rep l xs"
  shows "GetIndex l item f =
    Some (if xs = [] then (-1, Some (Sentinel ErrEmptyList))
          else (case index_of (\<lambda>y. f y item) xs of None \<Rightarrow> -1 | Some j \<Rightarrow> int j, None))"
proof -
  obtain cs where cs: "ll_cells l cs" "xs = map snd cs"
    using assms by (rule ll_repE)
  then show ?thesis
    using getIndexLoop_chain [of "ll_store l" "ll_head l" cs None f item 0]
    by (auto simp: GetIndex_def Len_def ll_cells_def split: option.splits)
qed

lemma getAllLoop_chain: "chain h p cs q \<Longrightarrow> getAllLoop h p (length cs) = Some (map snd cs)"
  by (induction cs arbitrary: p) (auto simp: deref_def)

lemma GetAll_rep: "ll_rep l xs \<Longrightarrow> GetAll l = Some xs"
  by (auto simp: ll_rep_def ll_cells_def GetAll_def Len_def getAllLoop_chain)

lemma ll_rep_unique: "ll_rep l xs \<Longrightarrow> ll_rep l ys \<Longrightarrow> xs = ys"
  by (metis GetAll_rep option.inject)

section \<open>The mutators\<close>

text \<open>Writing the \<open>next\<close> field of a cell that the store holds.\<close>

lemma set_next_cell:
  "h a = Some nd \<Longrightarrow> set_next h (Some a) q = Some (h(a \<mapsto> nd\<lparr>node_next := q\<rparr>))"
  by (simp add: set_next_def)

lemma removeFirstNode_rep:
  assumes "ll_rep l xs" "xs \<noteq> []"
  shows "\<exists>l'. removeFirstNode l = Some (l', None) \<and> ll_rep l' (tl xs)"
proof -
  obtain cs where cs: "ll_cells l cs" "xs = map snd cs"
    using assms(1) by (rule ll_repE)
  then obtain a v ys where c: "cs = (a, v) # ys"
    using assms(2) by (cases cs) auto
  obtain nx where nx: "ll_store l a = Some \<lparr>node_value = v, node_next = nx\<rparr>"
    "chain (ll_store l) nx ys None" "ll_head l = Some a"
    using cs(1) c by (auto simp: ll_cells_def)
  let ?l1 = "l\<lparr>ll_head := nx, ll_length := ll_length l - 1\<rparr>"
  have len: "ll_length l - 1 = int (length ys)"
    using cs(1) c by (simp add: ll_cells_def)
  have "recalculateTail ?l1 = Some (?l1\<lparr>ll_tail := last_ptr ys\<rparr>)"
    using nx(2) len by (intro recalculateTail_chain) simp_all
  then have "removeFirstNode l = Some (?l1\<lparr>ll_tail := last_ptr ys\<rparr>, None)"
    using nx len cs(1) c by (simp add: removeFirstNode_def deref_def ll_cells_def Len_def)
  moreover have "ll_cells (?l1\<lparr>ll_tail := last_ptr ys\<rparr>) ys"
    using nx len cs(1) c by (auto simp: ll_cells_def)
  ultimately show ?thesis using cs(2) c by (auto simp: ll_rep_def)
qed

lemma unlink_cells:
  assumes "ll_cells l (us @ (a, v) # (b, w) # vs)"
    and "ll_store l b = Some \<lparr>node_value = w, node_next = nx\<rparr>"
  shows "ll_cells (l\<lparr>ll_store := (ll_store l)(a \<mapsto> \<lparr>node_value = v, node_next = nx\<rparr>),
      ll_tail := (if vs = [] then Some a else ll_tail l), ll_length := ll_length l - 1\<rparr>)
    (us @ (a, v) # vs)"
proof -
  have ch: "chain (ll_store l) (ll_head l) us (Some a)"
    "chain (ll_store l) nx vs None"
    using assms by (auto simp: ll_cells_def heap_simps)
  have d: "a \<notin> fst ` set us" "a \<notin> fst ` set vs" "distinct (map fst (us @ (a, v) # vs))"
    using assms(1) by (auto simp: ll_cells_def)
  show ?thesis
    using ch d assms(1)
    by (auto simp: ll_cells_def heap_simps chain_upd)
qed

lemma removeNodeAt_inner_rep:
  assumes "ll_rep l xs" "0 < i" "i < length xs"
  shows "\<exists>l'. removeNodeAt l (int i) = Some (l', None) \<and> ll_rep l' (remove_nth i xs)"
proof -
  obtain cs where cs: "ll_cells l cs" "xs = map snd cs"
    using assms(1) by (rule ll_repE)
  have "i - 1 < length cs" using assms cs(2) by simp
  then obtain us a v ws where s: "cs = us @ (a, v) # ws" "length us = i - 1"
    by (rule split_cell)
  then obtain b w vs where ws: "ws = (b, w) # vs"
    using assms cs(2) by (cases ws) auto
  have us: "i = Suc (length us)" using s(2) assms(2) by simp
  have c: "ll_cells l (us @ (a, v) # (b, w) # vs)" using cs(1) s ws by simp
  obtain nx where b: "ll_store l b = Some \<lparr>node_value = w, node_next = nx\<rparr>"
    and a: "ll_store l a = Some \<lparr>node_value = v, node_next = Some b\<rparr>"
    and wk: "walk (ll_store l) (ll_head l) (length us) = Some (Some a)"
    using c by (auto simp: ll_cells_def heap_simps dest: chain_walk)
  have len: "ll_length l = int (Suc (Suc (length us + length vs)))"
    using c by (simp add: ll_cells_def)
  let ?l' = "l\<lparr>ll_store := (ll_store l)(a \<mapsto> \<lparr>node_value = v, node_next = nx\<rparr>),
      ll_tail := (if vs = [] then Some a else ll_tail l), ll_length := ll_length l - 1\<rparr>"
  have "removeNodeAt l (int i) = Some (?l', None)"
    using a b wk len us
    by (auto simp: removeNodeAt_def Let_def Len_def deref_def set_next_def setTail_def)
  moreover have "ll_cells ?l' (us @ (a, v) # vs)" by (rule unlink_cells [OF c b])
  moreover have "remove_nth i xs = map snd (us @ (a, v) # vs)"
    using cs(2) s ws us by (simp add: remove_nth_def)
  ultimately show ?thesis by (auto simp: ll_rep_def)
qed

lemma removeNodeAt_rep:
  assumes "ll_rep l xs"
  shows "\<exists>l' r. removeNodeAt l i = Some (l', r) \<and>
    (if xs = [] then r = Some (Sentinel ErrEmptyList) \<and> l' = l
     else if i < 0 \<or> i \<ge> int (length xs) then r = Some (Sentinel ErrInvalidIndex) \<and> l' = l
     else r = None \<and> ll_rep l' (remove_nth (nat i) xs))"
proof (cases "xs \<noteq> [] \<and> 0 \<le> i \<and> i < int (length xs)")
  case True
  show ?thesis
  proof (cases "i = 0")
    case i0: True
    then show ?thesis
      using True removeFirstNode_rep [OF assms] ll_rep_length [OF assms]
      by (auto simp: removeNodeAt_def seq_simps)
  next
    case False
    then have "0 < nat i" "nat i < length xs" "int (nat i) = i" using True by auto
    then show ?thesis using removeNodeAt_inner_rep [OF assms, of "nat i"] True by auto
  qed
next
  case False
  then show ?thesis
    using ll_rep_length [OF assms] by (auto simp: removeNodeAt_def Let_def)
qed

text \<open>
  A fresh node changes no cell: the chain of the list survives the allocation, and so it
  survives \<open>Insert\<close> with an index that is out of range.
\<close>

lemma alloc_cells:
  assumes "ll_cells l cs"
  shows "ll_cells (l\<lparr>ll_store := (ll_store l)(ll_fresh l \<mapsto> nd), ll_fresh := Suc (ll_fresh l)\<rparr>) cs"
proof -
  have "ll_fresh l \<notin> fst ` set cs" using assms by (force simp: ll_cells_def)
  then show ?thesis using assms by (auto simp: ll_cells_def heap_simps less_Suc_eq)
qed

lemma Insert_first_rep:
  assumes "ll_rep l xs"
  shows "\<exists>l'. Insert l v 0 = Some (l', None) \<and> ll_rep l' (v # xs)"
proof -
  obtain cs where cs: "ll_cells l cs" "xs = map snd cs"
    using assms by (rule ll_repE)
  let ?n = "ll_fresh l"
  have f: "?n \<notin> fst ` set cs" using cs(1) by (force simp: ll_cells_def)
  let ?l' = "l\<lparr>ll_store := (ll_store l)(?n \<mapsto> \<lparr>node_value = v, node_next = ll_head l\<rparr>),
     ll_fresh := Suc ?n, ll_head := Some ?n, ll_length := ll_length l + 1,
     ll_tail := (if cs = [] then Some ?n else ll_tail l)\<rparr>"
  have "Insert l v 0 = Some (?l', None)"
    using cs(1) by (auto simp: Insert_def Let_def Len_def set_next_def setTail_def ll_cells_def)
  moreover have "ll_cells ?l' ((?n, v) # cs)"
    using cs(1) f by (auto simp: ll_cells_def heap_simps less_Suc_eq)
  ultimately show ?thesis using cs(2) by (auto simp: ll_rep_def)
qed

lemma Insert_last_rep:
  assumes "ll_rep l xs" "xs \<noteq> []"
  shows "\<exists>l'. Insert l v (int (length xs)) = Some (l', None) \<and> ll_rep l' (xs @ [v])"
proof -
  obtain cs where cs: "ll_cells l cs" "xs = map snd cs"
    using assms(1) by (rule ll_repE)
  obtain us a w where c: "cs = us @ [(a, w)]"
    using assms(2) cs(2) by (cases cs rule: rev_cases) auto
  let ?n = "ll_fresh l"
  have f: "?n \<notin> fst ` set cs" using cs(1) by (force simp: ll_cells_def)
  have t: "ll_tail l = Some a" and a: "ll_store l a = Some \<lparr>node_value = w, node_next = None\<rparr>"
    and an: "a \<noteq> ?n" "a \<notin> fst ` set us"
    using cs(1) c f by (auto simp: ll_cells_def heap_simps)
  let ?l' = "l\<lparr>ll_store := (ll_store l)(?n \<mapsto> \<lparr>node_value = v, node_next = None\<rparr>,
       a \<mapsto> \<lparr>node_value = w, node_next = Some ?n\<rparr>),
     ll_fresh := Suc ?n, ll_length := ll_length l + 1, ll_tail := Some ?n\<rparr>"
  have len: "ll_length l = int (length xs)" "0 < length xs"
    using cs assms(2) by (auto simp: ll_cells_def)
  have "Insert l v (int (length xs)) = Some (?l', None)"
    using len t a an by (auto simp: Insert_def Let_def Len_def set_next_def setTail_def)
  moreover have "ll_cells ?l' (cs @ [(?n, v)])"
    using cs(1) f an c by (auto simp: ll_cells_def heap_simps less_Suc_eq)
  ultimately show ?thesis using cs(2) unfolding ll_rep_def
    by (intro exI [of _ ?l'] conjI exI [of _ "cs @ [(?n, v)]"]) simp_all
qed

lemma Insert_inner_rep:
  assumes "ll_rep l xs" "0 < i" "i < length xs"
  shows "\<exists>l'. Insert l v (int i) = Some (l', None) \<and> ll_rep l' (insert_nth i v xs)"
proof -
  obtain cs where cs: "ll_cells l cs" "xs = map snd cs"
    using assms(1) by (rule ll_repE)
  have "i - 1 < length cs" using assms cs(2) by simp
  then obtain us a w vs where s: "cs = us @ (a, w) # vs" "length us = i - 1"
    by (rule split_cell)
  have i: "i = Suc (length us)" "vs \<noteq> []" using s assms cs(2) by auto
  then obtain b z zs where vs: "vs = (b, z) # zs" by (cases vs) auto
  let ?n = "ll_fresh l" and ?nv = "\<lparr>node_value = v, node_next = None\<rparr>"
  have f: "?n \<notin> fst ` set cs" using cs(1) by (force simp: ll_cells_def)
  have c0: "ll_cells (l\<lparr>ll_store := (ll_store l)(?n \<mapsto> ?nv), ll_fresh := Suc ?n\<rparr>) cs"
    by (rule alloc_cells [OF cs(1)])
  have wk: "walk ((ll_store l)(?n \<mapsto> ?nv)) (ll_head l) (length us) = Some (Some a)"
    using c0 s by (auto simp: ll_cells_def heap_simps dest: chain_walk)
  have a: "ll_store l a = Some \<lparr>node_value = w, node_next = Some b\<rparr>" "a \<noteq> ?n"
    "a \<notin> fst ` set us" "a \<notin> fst ` set vs" "?n \<notin> fst ` set us" "?n \<notin> fst ` set vs"
    using cs(1) s vs f by (auto simp: ll_cells_def heap_simps)
  let ?l' = "l\<lparr>ll_store := (ll_store l)(?n \<mapsto> \<lparr>node_value = v, node_next = Some b\<rparr>,
       a \<mapsto> \<lparr>node_value = w, node_next = Some ?n\<rparr>),
     ll_fresh := Suc ?n, ll_length := ll_length l + 1\<rparr>"
  have len: "ll_length l = int (length xs)" using cs by (auto simp: ll_cells_def)
  have "Insert l v (int i) = Some (?l', None)"
    using len a wk i assms(3)
    by (auto simp: Insert_def Let_def Len_def set_next_def deref_def)
  moreover have "ll_cells ?l' (us @ (a, w) # (?n, v) # vs)"
    using cs(1) s f a vs by (auto simp: ll_cells_def heap_simps less_Suc_eq)
  moreover have "insert_nth i v xs = map snd (us @ (a, w) # (?n, v) # vs)"
    using cs(2) s i by (simp add: insert_nth_def)
  ultimately show ?thesis unfolding ll_rep_def
    by (intro exI [of _ ?l'] conjI exI [of _ "us @ (a, w) # (?n, v) # vs"]) simp_all
qed

lemma Insert_rep:
  assumes "ll_rep l xs"
  shows "\<exists>l' r. Insert l v i = Some (l', r) \<and>
    (if i < 0 \<or> i > int (length xs) then r = Some (Sentinel ErrInvalidIndex) \<and> ll_rep l' xs
     else r = None \<and> ll_rep l' (insert_nth (nat i) v xs))"
proof (cases "i < 0 \<or> i > int (length xs)")
  case True
  obtain cs where "ll_cells l cs" "xs = map snd cs"
    using assms by (rule ll_repE)
  then have "ll_rep (l\<lparr>ll_store := (ll_store l)(ll_fresh l \<mapsto> \<lparr>node_value = v, node_next = None\<rparr>),
      ll_fresh := Suc (ll_fresh l)\<rparr>) xs"
    unfolding ll_rep_def using alloc_cells by blast
  then show ?thesis using True ll_rep_length [OF assms]
    by (auto simp: Insert_def Let_def)
next
  case False
  then have i: "int (nat i) = i" "nat i \<le> length xs" by auto
  consider "nat i = 0" | "nat i = length xs" "xs \<noteq> []" | "0 < nat i" "nat i < length xs"
    using i(2) by fastforce
  then have "\<exists>l'. Insert l v (int (nat i)) = Some (l', None) \<and> ll_rep l' (insert_nth (nat i) v xs)"
  proof cases
    case 1
    then show ?thesis using Insert_first_rep [OF assms] by (simp add: seq_simps)
  next
    case 2
    then show ?thesis using Insert_last_rep [OF assms] by (simp add: seq_simps)
  next
    case 3
    then show ?thesis by (rule Insert_inner_rep [OF assms])
  qed
  then obtain l' where "Insert l v i = Some (l', None)" "ll_rep l' (insert_nth (nat i) v xs)"
    using i(1) by auto
  then show ?thesis using False by (intro exI [of _ l'] exI [of _ None]) simp
qed

lemma InsertLast_rep:
  assumes "ll_rep l xs"
  shows "\<exists>l'. InsertLast l v = Some (l', None) \<and> ll_rep l' (xs @ [v])"
  using Insert_rep [OF assms, of v "Len l"] ll_rep_length [OF assms]
  by (auto simp: InsertLast_def seq_simps)

lemma RemoveFirst_rep:
  assumes "ll_rep l xs" "xs \<noteq> []"
  shows "\<exists>l'. RemoveFirst l = Some (l', None) \<and> ll_rep l' (tl xs)"
  using removeFirstNode_rep [OF assms] by (simp add: RemoveFirst_def)

lemma RemoveLast_rep:
  assumes "ll_rep l xs" "xs \<noteq> []"
  shows "\<exists>l'. RemoveLast l = Some (l', None) \<and> ll_rep l' (butlast xs)"
proof -
  let ?i = "Len l - 1"
  have "0 < length xs" using assms(2) by simp
  then have i: "0 \<le> ?i" "?i < int (length xs)" "nat ?i = length xs - 1"
    using ll_rep_length [OF assms(1)] by auto
  obtain l' r where "removeNodeAt l ?i = Some (l', r)"
    "r = None \<and> ll_rep l' (remove_nth (nat ?i) xs)"
    using removeNodeAt_rep [OF assms(1), of ?i] assms(2) i(1,2) by auto
  then show ?thesis
    using i(3) remove_nth_last [OF assms(2)] by (simp add: RemoveLast_def)
qed

lemma move_cells:
  assumes "ll_cells l (us @ (a, v) # (b, w) # vs)"
    and "ll_store l b = Some \<lparr>node_value = w, node_next = nx\<rparr>"
  shows "ll_cells (l\<lparr>ll_store := (ll_store l)(b \<mapsto> \<lparr>node_value = w, node_next = ll_head l\<rparr>,
        a \<mapsto> \<lparr>node_value = v, node_next = nx\<rparr>), ll_head := Some b,
      ll_tail := last_ptr ((b, w) # us @ (a, v) # vs)\<rparr>)
    ((b, w) # us @ (a, v) # vs)"
proof -
  have ch: "chain (ll_store l) (ll_head l) us (Some a)"
    "chain (ll_store l) nx vs None"
    using assms by (auto simp: ll_cells_def heap_simps)
  have d: "a \<notin> fst ` set us" "a \<notin> fst ` set vs" "b \<notin> fst ` set us" "b \<notin> fst ` set vs" "a \<noteq> b"
    using assms(1) by (auto simp: ll_cells_def)
  show ?thesis
    using ch d assms(1) by (auto simp: ll_cells_def heap_simps)
qed

lemma MoveToFirst_inner_rep:
  assumes "ll_rep l xs" "0 < i" "i < length xs"
  shows "\<exists>l'. MoveToFirst l (int i) = Some (l', None) \<and> ll_rep l' (move_front i xs)"
proof -
  obtain cs where cs: "ll_cells l cs" "xs = map snd cs"
    using assms(1) by (rule ll_repE)
  have "i - 1 < length cs" using assms cs(2) by simp
  then obtain us a v ws where s: "cs = us @ (a, v) # ws" "length us = i - 1"
    by (rule split_cell)
  then obtain b w vs where ws: "ws = (b, w) # vs"
    using assms cs(2) by (cases ws) auto
  have us: "i = Suc (length us)" "int i - 1 = int (length us)" using s(2) assms(2) by simp_all
  have c: "ll_cells l (us @ (a, v) # (b, w) # vs)" using cs(1) s ws by simp
  obtain nx where b: "ll_store l b = Some \<lparr>node_value = w, node_next = nx\<rparr>"
    and a: "ll_store l a = Some \<lparr>node_value = v, node_next = Some b\<rparr>" and ab: "a \<noteq> b"
    using c by (auto simp: ll_cells_def heap_simps)
  have g: "getNodeAt l (int i - 1) = Some (Some a, None)"
    using getNodeAt_cells [OF c] us(2) by simp
  let ?l1 = "l\<lparr>ll_store := (ll_store l)(b \<mapsto> \<lparr>node_value = w, node_next = ll_head l\<rparr>,
        a \<mapsto> \<lparr>node_value = v, node_next = nx\<rparr>), ll_head := Some b\<rparr>"
  let ?cs = "(b, w) # us @ (a, v) # vs"
  have c': "ll_cells (?l1\<lparr>ll_tail := last_ptr ?cs\<rparr>) ?cs" by (rule move_cells [OF c b])
  then have "recalculateTail ?l1 = Some (?l1\<lparr>ll_tail := last_ptr ?cs\<rparr>)"
    by (intro recalculateTail_chain) (auto simp: ll_cells_def)
  then have "MoveToFirst l (int i) = Some (?l1\<lparr>ll_tail := last_ptr ?cs\<rparr>, None)"
    using a b ab g us assms(3) ll_rep_length [OF assms(1)]
    by (auto simp: MoveToFirst_def Let_def deref_def set_next_def)
  moreover have "move_front i xs = map snd ?cs"
  proof -
    have "i = length (map snd us @ [v])" "xs = (map snd us @ [v]) @ w # map snd vs"
      using us(1) cs(2) s(1) ws by simp_all
    then have "move_front i xs = w # (map snd us @ [v]) @ map snd vs"
      by (simp only: move_front_append)
    then show ?thesis by simp
  qed
  ultimately show ?thesis using c' unfolding ll_rep_def
    by (intro exI [of _ "?l1\<lparr>ll_tail := last_ptr ?cs\<rparr>"] conjI exI [of _ ?cs]) simp_all
qed

lemma MoveToFirst_rep:
  assumes "ll_rep l xs"
  shows "\<exists>l' r. MoveToFirst l i = Some (l', r) \<and>
    (if i < 0 \<or> i \<ge> int (length xs) then r = Some (Sentinel ErrInvalidIndex) \<and> l' = l
     else r = None \<and> ll_rep l' (move_front (nat i) xs))"
proof (cases "0 < i \<and> i < int (length xs)")
  case True
  then have "0 < nat i" "nat i < length xs" "int (nat i) = i" by auto
  then show ?thesis using MoveToFirst_inner_rep [OF assms, of "nat i"] True by auto
next
  case False
  then show ?thesis
    using assms ll_rep_length [OF assms]
    by (cases "xs = []") (auto simp: MoveToFirst_def Let_def seq_simps)
qed

section \<open>The interface the cache uses\<close>

text \<open>
  The cache keeps its keys in a list and uses seven of its operations. The locale states
  their contract over the sequence that a list represents, and proves the combinations
  that the cache makes of them: looking a key up and moving it to the front, looking it up
  and removing it, reading the last key and dropping it.
\<close>

locale key_sequence =
  fixes rep :: "'s \<Rightarrow> 'k list \<Rightarrow> bool"
    and len :: "'s \<Rightarrow> int"
    and get_index :: "'s \<Rightarrow> 'k \<Rightarrow> (int \<times> go_error option) option"
    and insert_at :: "'s \<Rightarrow> 'k \<Rightarrow> int \<Rightarrow> ('s \<times> go_error option) option"
    and remove_at :: "'s \<Rightarrow> int \<Rightarrow> ('s \<times> go_error option) option"
    and last_of :: "'s \<Rightarrow> (go_error + 'k) option"
    and drop_last :: "'s \<Rightarrow> ('s \<times> go_error option) option"
    and to_front :: "'s \<Rightarrow> int \<Rightarrow> ('s \<times> go_error option) option"
  assumes len_law: "rep s xs \<Longrightarrow> len s = int (length xs)"
    and index_law: "rep s xs \<Longrightarrow> get_index s k =
      Some (if xs = [] then (-1, Some (Sentinel ErrEmptyList))
            else (case index_of (\<lambda>y. y = k) xs of None \<Rightarrow> -1 | Some j \<Rightarrow> int j, None))"
    and insert_law: "rep s xs \<Longrightarrow> \<exists>s'. insert_at s k 0 = Some (s', None) \<and> rep s' (k # xs)"
    and remove_law: "rep s xs \<Longrightarrow> i < length xs \<Longrightarrow>
      \<exists>s'. remove_at s (int i) = Some (s', None) \<and> rep s' (remove_nth i xs)"
    and last_law: "rep s xs \<Longrightarrow> xs \<noteq> [] \<Longrightarrow> last_of s = Some (Inr (last xs))"
    and drop_law: "rep s xs \<Longrightarrow> xs \<noteq> [] \<Longrightarrow>
      \<exists>s'. drop_last s = Some (s', None) \<and> rep s' (butlast xs)"
    and front_law: "rep s xs \<Longrightarrow> i < length xs \<Longrightarrow>
      \<exists>s'. to_front s (int i) = Some (s', None) \<and> rep s' (move_front i xs)"
begin

lemma index_present:
  assumes "rep s xs" "k \<in> set xs"
  obtains i where "index_of (\<lambda>y. y = k) xs = Some i" "i < length xs"
    "get_index s k = Some (int i, None)"
proof -
  obtain i where i: "index_of (\<lambda>y. y = k) xs = Some i"
    using assms(2) index_of_None_iff [of "\<lambda>y. y = k" xs] by fastforce
  moreover have "xs \<noteq> []" using assms(2) by auto
  ultimately show ?thesis
    using that index_law [OF assms(1), of k] index_of_SomeD [OF i] by auto
qed

lemma index_absent:
  assumes "rep s xs" "k \<notin> set xs"
  shows "\<exists>e. get_index s k = Some (-1, e) \<and> (e = None \<or> e = Some (Sentinel ErrEmptyList))"
proof -
  have "index_of (\<lambda>y. y = k) xs = None" using assms(2) by (auto simp: index_of_None_iff)
  then show ?thesis using index_law [OF assms(1), of k] by auto
qed

lemma touch_present:
  assumes "rep s xs" "distinct xs" "k \<in> set xs"
  shows "\<exists>i s'. get_index s k = Some (int i, None) \<and>
    to_front s (int i) = Some (s', None) \<and> rep s' (k # filter (\<lambda>y. y \<noteq> k) xs)"
proof -
  obtain i where i: "index_of (\<lambda>y. y = k) xs = Some i" "i < length xs"
    "get_index s k = Some (int i, None)"
    using assms by (rule_tac index_present)
  then show ?thesis
    using front_law [OF assms(1) i(2)] move_front_index [OF i(1) assms(2)] by auto
qed

lemma forget_present:
  assumes "rep s xs" "distinct xs" "k \<in> set xs"
  shows "\<exists>i s'. get_index s k = Some (int i, None) \<and>
    remove_at s (int i) = Some (s', None) \<and> rep s' (filter (\<lambda>y. y \<noteq> k) xs)"
proof -
  obtain i where i: "index_of (\<lambda>y. y = k) xs = Some i" "i < length xs"
    "get_index s k = Some (int i, None)"
    using assms by (rule_tac index_present)
  then show ?thesis
    using remove_law [OF assms(1) i(2)] remove_nth_index [OF i(1) assms(2)] by auto
qed

end

interpretation ll: key_sequence ll_rep Len "\<lambda>l k. GetIndex l k (=)" Insert RemoveAt
  GetLast RemoveLast MoveToFirst
proof unfold_locales
  fix l :: "'a llist" and xs k
  assume r: "ll_rep l xs"
  show "Len l = int (length xs)" by (rule ll_rep_length [OF r])
  show "GetIndex l k (=) =
      Some (if xs = [] then (-1, Some (Sentinel ErrEmptyList))
            else (case index_of (\<lambda>y. y = k) xs of None \<Rightarrow> -1 | Some j \<Rightarrow> int j, None))"
    by (rule GetIndex_rep [OF r])
  show "\<exists>l'. Insert l k 0 = Some (l', None) \<and> ll_rep l' (k # xs)"
    by (rule Insert_first_rep [OF r])
next
  fix l :: "'a llist" and xs i
  assume r: "ll_rep l xs" and i: "i < length xs"
  then have "xs \<noteq> []" by auto
  then show "\<exists>l'. RemoveAt l (int i) = Some (l', None) \<and> ll_rep l' (remove_nth i xs)"
    using removeNodeAt_rep [OF r, of "int i"] i by (auto simp: RemoveAt_def)
  show "\<exists>l'. MoveToFirst l (int i) = Some (l', None) \<and> ll_rep l' (move_front i xs)"
    using MoveToFirst_rep [OF r, of "int i"] i by auto
next
  fix l :: "'a llist" and xs
  assume r: "ll_rep l xs" and "xs \<noteq> []"
  then show "GetLast l = Some (Inr (last xs))" "\<exists>l'. RemoveLast l = Some (l', None) \<and> ll_rep l' (butlast xs)"
    using GetLast_rep [OF r] RemoveLast_rep [OF r] by auto
qed

section \<open>Sequences of operations\<close>

text \<open>
  A client's calls on one list. \<open>list_step\<close> makes a call on the model of the code,
  \<open>seq_step\<close> on the sequence that the list is meant to hold.
\<close>

datatype 'v list_op =
    CallInsert 'v int
  | CallInsertLast 'v
  | CallRemoveAt int
  | CallRemoveFirst
  | CallRemoveLast
  | CallMoveToFirst int

primrec list_step :: "'v llist \<Rightarrow> 'v list_op \<Rightarrow> ('v, go_error option) ll_result" where
  "list_step l (CallInsert v i) = Insert l v i"
| "list_step l (CallInsertLast v) = InsertLast l v"
| "list_step l (CallRemoveAt i) = RemoveAt l i"
| "list_step l CallRemoveFirst = RemoveFirst l"
| "list_step l CallRemoveLast = RemoveLast l"
| "list_step l (CallMoveToFirst i) = MoveToFirst l i"

primrec list_run :: "'v llist \<Rightarrow> 'v list_op list \<Rightarrow> ('v llist \<times> go_error option list) option" where
  "list_run l [] = Some (l, [])"
| "list_run l (x # ops) =
     do { (l', e) \<leftarrow> list_step l x;
          (l'', es) \<leftarrow> list_run l' ops;
          Some (l'', e # es) }"

text \<open>An index the code accepts, or the error it returns.\<close>

definition index_error :: "'v list \<Rightarrow> int \<Rightarrow> go_error option" where
  "index_error xs i =
     (if xs = [] then Some (Sentinel ErrEmptyList)
      else if i < 0 \<or> i \<ge> int (length xs) then Some (Sentinel ErrInvalidIndex) else None)"

primrec seq_step :: "'v list \<Rightarrow> 'v list_op \<Rightarrow> 'v list \<times> go_error option" where
  "seq_step xs (CallInsert v i) =
     (if i < 0 \<or> i > int (length xs) then (xs, Some (Sentinel ErrInvalidIndex))
      else (insert_nth (nat i) v xs, None))"
| "seq_step xs (CallInsertLast v) = (xs @ [v], None)"
| "seq_step xs (CallRemoveAt i) =
     (if index_error xs i = None then remove_nth (nat i) xs else xs, index_error xs i)"
| "seq_step xs CallRemoveFirst = (tl xs, index_error xs 0)"
| "seq_step xs CallRemoveLast = (butlast xs, index_error xs (int (length xs) - 1))"
| "seq_step xs (CallMoveToFirst i) =
     (if i < 0 \<or> i \<ge> int (length xs) then (xs, Some (Sentinel ErrInvalidIndex))
      else (move_front (nat i) xs, None))"

primrec seq_run :: "'v list \<Rightarrow> 'v list_op list \<Rightarrow> 'v list \<times> go_error option list" where
  "seq_run xs [] = (xs, [])"
| "seq_run xs (x # ops) =
     (let (ys, e) = seq_step xs x; (zs, es) = seq_run ys ops in (zs, e # es))"

lemma list_step_rep:
  assumes "ll_rep l xs"
  shows "\<exists>l'. list_step l x = Some (l', snd (seq_step xs x)) \<and> ll_rep l' (fst (seq_step xs x))"
proof (cases x)
  case (CallInsert v i)
  then show ?thesis using Insert_rep [OF assms, of v i] by (auto split: if_splits)
next
  case (CallInsertLast v)
  then show ?thesis using InsertLast_rep [OF assms, of v] by auto
next
  case (CallRemoveAt i)
  then show ?thesis using removeNodeAt_rep [OF assms, of i] assms
    by (auto simp: RemoveAt_def index_error_def split: if_splits)
next
  case CallRemoveFirst
  then show ?thesis
    using RemoveFirst_rep [OF assms] ll_rep_length [OF assms] assms
    by (cases "xs = []") (auto simp: index_error_def RemoveFirst_def removeFirstNode_def)
next
  case CallRemoveLast
  show ?thesis
  proof (cases "xs = []")
    case True
    then show ?thesis using CallRemoveLast removeNodeAt_rep [OF assms, of "Len l - 1"] assms
      by (auto simp: RemoveLast_def index_error_def)
  next
    case False
    then show ?thesis using CallRemoveLast RemoveLast_rep [OF assms False]
      by (cases xs) (auto simp: index_error_def)
  qed
next
  case (CallMoveToFirst i)
  then show ?thesis using MoveToFirst_rep [OF assms, of i] assms by (auto split: if_splits)
qed

lemma list_run_rep:
  assumes "ll_rep l xs"
  shows "\<exists>l'. list_run l ops = Some (l', snd (seq_run xs ops)) \<and> ll_rep l' (fst (seq_run xs ops))"
  using assms
proof (induction ops arbitrary: l xs)
  case (Cons x ops)
  obtain l1 where l1: "list_step l x = Some (l1, snd (seq_step xs x))"
    "ll_rep l1 (fst (seq_step xs x))"
    using list_step_rep [OF Cons.prems] by blast
  obtain l2 where "list_run l1 ops = Some (l2, snd (seq_run (fst (seq_step xs x)) ops))"
    "ll_rep l2 (fst (seq_run (fst (seq_step xs x)) ops))"
    using Cons.IH [OF l1(2)] by blast
  with l1 show ?case by (auto simp: Let_def split: prod.splits)
qed simp

text \<open>
  C13: Whatever sequence of calls a client makes on a new list, with whatever indices, no
  call dereferences a nil pointer, every call returns the error the sequence specification
  gives for it, and the list then holds exactly the specified sequence.
\<close>

theorem list_calls_refine_sequence:
  "\<exists>l. list_run NewLinkedList ops = Some (l, snd (seq_run [] ops)) \<and>
       GetAll l = Some (fst (seq_run [] ops)) \<and>
       Len l = int (length (fst (seq_run [] ops)))"
  using list_run_rep [OF NewLinkedList_rep] GetAll_rep ll_rep_length by blast

text \<open>
  On a list that holds \<open>xs\<close>, the readers return the element at the index, the
  first, the last and the index of the first equal element, and their error returns are
  exactly those of the empty list and of an index out of range.
\<close>

lemma list_readers_correct:
  assumes "ll_rep l xs"
  shows "GetAt l i = Some (case index_error xs i of Some e \<Rightarrow> Inl e | None \<Rightarrow> Inr (xs ! nat i)) \<and>
    GetFirst l = Some (if xs = [] then Inl (Sentinel ErrEmptyList) else Inr (hd xs)) \<and>
    GetLast l = Some (if xs = [] then Inl (Sentinel ErrEmptyList) else Inr (last xs)) \<and>
    GetIndex l k (=) = Some (if xs = [] then (-1, Some (Sentinel ErrEmptyList))
      else (case index_of (\<lambda>y. y = k) xs of None \<Rightarrow> -1 | Some j \<Rightarrow> int j, None))"
  using GetAt_rep [OF assms] GetFirst_rep [OF assms] GetLast_rep [OF assms]
    GetIndex_rep [OF assms, of k "(=)"] by (auto simp: index_error_def)

text \<open>A list of three nodes, as three calls of \<open>InsertLast\<close> build it.\<close>

definition sample_list :: "nat llist" where
  "sample_list =
     \<lparr>ll_store = [0 \<mapsto> \<lparr>node_value = 7, node_next = Some 1\<rparr>,
                 1 \<mapsto> \<lparr>node_value = 8, node_next = Some 2\<rparr>,
                 2 \<mapsto> \<lparr>node_value = 9, node_next = None\<rparr>],
      ll_fresh = 3, ll_head = Some 0, ll_tail = Some 2, ll_length = 3\<rparr>"

lemma sample_list_cells: "ll_cells sample_list [(0, 7), (1, 8), (2, 9)]"
  by (simp add: ll_cells_def sample_list_def last_ptr_def)

lemma sample_list_rep: "ll_rep sample_list [7, 8, 9]"
  unfolding ll_rep_def using sample_list_cells by (intro exI conjI) auto

lemma list_readers_correct_witness:
  "ll_rep sample_list [7, 8, 9] \<and> GetAt sample_list 1 = Some (Inr 8) \<and>
   GetLast sample_list = Some (Inr 9) \<and> GetIndex sample_list 9 (=) = Some (2, None)"
  using list_readers_correct [OF sample_list_rep, of 1 9] sample_list_rep
  by (simp add: index_error_def)

end
