(* ===== verification/Logger.thy ===== *)
theory Logger
  imports Prelude
begin

text \<open>
  Contexts and the logger that travels in them (\<open>pkg/logger/logger.go\<close>). A context
  is nil or a chain of key/value pairs; a value is an \<open>any\<close>, so that the type
  assertions of the code (which panic) are visible. A \<open>*Logger\<close> may be nil. A log
  call yields the record it hands to zap, or panics.
\<close>

section \<open>Contexts\<close>

text \<open>
  A \<open>*Logger\<close> value: nil, or a pointer to a \<open>Logger\<close> (whose zap logger
  \<open>NewLogger\<close> has filled in).
\<close>

datatype logger_ptr = NilLogger | LoggerPtr

datatype any_value = VLogger logger_ptr | VString string | VOther

type_synonym ctx_values = "string \<Rightarrow> any_value option"

text \<open>\<open>None\<close> is the nil context, on which every method call panics.\<close>

type_synonym go_context = "ctx_values option"

definition KeyForLogger :: string where
  "KeyForLogger = ''logger''"

definition KeyForRequestID :: string where
  "KeyForRequestID = ''request_id''"

definition Background :: go_context where
  "Background = Some (\<lambda>_. None)"

definition ctx_Value :: "go_context \<Rightarrow> string \<Rightarrow> any_value option outcome" where
  "ctx_Value ctx k = (case ctx of None \<Rightarrow> Panics | Some m \<Rightarrow> Returns (m k))"

definition WithValue :: "go_context \<Rightarrow> string \<Rightarrow> any_value \<Rightarrow> go_context outcome" where
  "WithValue ctx k v = (case ctx of None \<Rightarrow> Panics | Some m \<Rightarrow> Returns (Some (m(k \<mapsto> v))))"

section \<open>Creating and finding the logger\<close>

text \<open>
  \<open>zap_err\<close> is the error of \<open>zap.NewProduction\<close>, which is code outside the
  repository. The result is the pointer and the error.
\<close>

definition NewLogger :: "go_error option \<Rightarrow> logger_ptr \<times> go_error option" where
  "NewLogger zap_err =
     (case zap_err of Some err \<Rightarrow> (NilLogger, Some err) | None \<Rightarrow> (LoggerPtr, None))"

text \<open>\<open>logger.New\<close>: the returned context is nil when there is an error.\<close>

definition New_logger_ctx :: "go_error option \<Rightarrow> go_context \<Rightarrow> (go_context \<times> go_error option) outcome" where
  "New_logger_ctx zap_err ctx =
     (case NewLogger zap_err of
        (loggerStruct, Some err) \<Rightarrow> Returns (None, Some err)
      | (loggerStruct, None) \<Rightarrow>
          bind_outcome (WithValue ctx KeyForLogger (VLogger loggerStruct))
            (\<lambda>ctx'. Returns (ctx', None)))"

text \<open>The type assertion \<open>ctx.Value(KeyForLogger).(*Logger)\<close>.\<close>

definition GetLoggerFromCtx :: "go_context \<Rightarrow> logger_ptr outcome" where
  "GetLoggerFromCtx ctx =
     bind_outcome (ctx_Value ctx KeyForLogger)
       (\<lambda>v. case v of Some (VLogger l) \<Rightarrow> Returns l | _ \<Rightarrow> Panics)"

definition GetOrCreateLoggerFromCtx :: "go_error option \<Rightarrow> go_context \<Rightarrow> logger_ptr outcome" where
  "GetOrCreateLoggerFromCtx zap_err ctx =
     bind_outcome (GetLoggerFromCtx ctx)
       (\<lambda>logger. if logger = NilLogger then Returns (fst (NewLogger zap_err))
                else Returns logger)"

section \<open>Messages\<close>

datatype level = DebugLevel | InfoLevel | WarnLevel | ErrorLevel | FatalLevel

text \<open>A field is a key and the text of its value.\<close>

type_synonym log_field = "string \<times> string"

record log_record =
  log_level :: level
  log_msg :: string
  log_fields :: "log_field list"

definition TryAppendRequestIDFromContext ::
  "go_context \<Rightarrow> log_field list \<Rightarrow> log_field list outcome" where
  "TryAppendRequestIDFromContext ctx flds =
     bind_outcome (ctx_Value ctx KeyForRequestID)
       (\<lambda>v. case v of
              None \<Rightarrow> Returns flds
            | Some (VString s) \<Rightarrow> Returns (flds @ [(KeyForRequestID, s)])
            | Some _ \<Rightarrow> Panics)"

definition log_call ::
  "level \<Rightarrow> logger_ptr \<Rightarrow> go_context \<Rightarrow> string \<Rightarrow> log_field list \<Rightarrow> log_record outcome" where
  "log_call lv l ctx msg flds =
     bind_outcome (TryAppendRequestIDFromContext ctx flds)
       (\<lambda>fs. if l = NilLogger then Panics
             else Returns \<lparr>log_level = lv, log_msg = msg, log_fields = fs\<rparr>)"

definition Debug :: "logger_ptr \<Rightarrow> go_context \<Rightarrow> string \<Rightarrow> log_field list \<Rightarrow> log_record outcome" where
  "Debug = log_call DebugLevel"

definition Info :: "logger_ptr \<Rightarrow> go_context \<Rightarrow> string \<Rightarrow> log_field list \<Rightarrow> log_record outcome" where
  "Info = log_call InfoLevel"

definition Warn :: "logger_ptr \<Rightarrow> go_context \<Rightarrow> string \<Rightarrow> log_field list \<Rightarrow> log_record outcome" where
  "Warn = log_call WarnLevel"

definition Error :: "logger_ptr \<Rightarrow> go_context \<Rightarrow> string \<Rightarrow> log_field list \<Rightarrow> log_record outcome" where
  "Error = log_call ErrorLevel"

text \<open>zap's \<open>Fatal\<close> also ends the process after writing the record.\<close>

definition Fatal :: "logger_ptr \<Rightarrow> go_context \<Rightarrow> string \<Rightarrow> log_field list \<Rightarrow> log_record outcome" where
  "Fatal = log_call FatalLevel"

text \<open>The two idioms of the callers: \<open>logger.GetLoggerFromCtx(ctx).Error(ctx, ...)\<close>.\<close>

abbreviation ctx_log :: "(logger_ptr \<Rightarrow> go_context \<Rightarrow> string \<Rightarrow> log_field list \<Rightarrow> log_record outcome) \<Rightarrow>
    go_context \<Rightarrow> string \<Rightarrow> log_field list \<Rightarrow> log_record outcome" where
  "ctx_log lvl ctx msg flds \<equiv>
     bind_outcome (GetLoggerFromCtx ctx) (\<lambda>l. lvl l ctx msg flds)"

abbreviation ctx_log_or_create :: "go_error option \<Rightarrow>
    (logger_ptr \<Rightarrow> go_context \<Rightarrow> string \<Rightarrow> log_field list \<Rightarrow> log_record outcome) \<Rightarrow>
    go_context \<Rightarrow> string \<Rightarrow> log_field list \<Rightarrow> log_record outcome" where
  "ctx_log_or_create z lvl ctx msg flds \<equiv>
     bind_outcome (GetOrCreateLoggerFromCtx z ctx) (\<lambda>l. lvl l ctx msg flds)"

section \<open>Facts\<close>

text \<open>A context that every log call accepts.\<close>

definition ctx_ok :: "go_context \<Rightarrow> bool" where
  "ctx_ok ctx \<longleftrightarrow>
     (\<exists>m. ctx = Some m \<and> m KeyForLogger = Some (VLogger LoggerPtr) \<and>
          (m KeyForRequestID = None \<or> (\<exists>s. m KeyForRequestID = Some (VString s))))"

lemmas level_defs = Debug_def Info_def Warn_def Error_def Fatal_def

lemma GetLoggerFromCtx_ok [simp]: "ctx_ok ctx \<Longrightarrow> GetLoggerFromCtx ctx = Returns LoggerPtr"
  by (auto simp: ctx_ok_def GetLoggerFromCtx_def ctx_Value_def)

lemma GetOrCreateLoggerFromCtx_ok [simp]:
  "ctx_ok ctx \<Longrightarrow> GetOrCreateLoggerFromCtx z ctx = Returns LoggerPtr"
  by (simp add: GetOrCreateLoggerFromCtx_def)

lemma log_call_ok:
  "ctx_ok ctx \<Longrightarrow> \<exists>fs. log_call lv LoggerPtr ctx msg flds =
     Returns \<lparr>log_level = lv, log_msg = msg, log_fields = fs\<rparr>"
  by (auto simp: ctx_ok_def log_call_def TryAppendRequestIDFromContext_def ctx_Value_def)

lemma log_calls_ok:
  assumes "ctx_ok ctx"
  shows "\<exists>r. Debug LoggerPtr ctx msg flds = Returns r"
    "\<exists>r. Info LoggerPtr ctx msg flds = Returns r"
    "\<exists>r. Warn LoggerPtr ctx msg flds = Returns r"
    "\<exists>r. Error LoggerPtr ctx msg flds = Returns r"
  using log_call_ok [OF assms] by (metis level_defs)+

lemma New_logger_ctx_ok:
  "New_logger_ctx None (Some m) = Returns (ctx', e) \<Longrightarrow> m KeyForRequestID = None \<Longrightarrow>
     ctx_ok ctx' \<and> e = None"
  by (auto simp: New_logger_ctx_def NewLogger_def WithValue_def ctx_ok_def
      KeyForLogger_def KeyForRequestID_def)

text \<open>
  The helper that is meant to be safe without a logger panics exactly where the unsafe one
  does: its test for nil comes after the type assertion.
\<close>

lemma GetOrCreate_panics_iff:
  "GetOrCreateLoggerFromCtx z ctx = Panics \<longleftrightarrow> GetLoggerFromCtx ctx = Panics"
  by (auto simp: GetOrCreateLoggerFromCtx_def bind_outcome_Panics_iff)

lemma GetLoggerFromCtx_Panics_iff:
  "GetLoggerFromCtx ctx = Panics \<longleftrightarrow>
     (case ctx of None \<Rightarrow> True | Some m \<Rightarrow> \<not> (\<exists>l. m KeyForLogger = Some (VLogger l)))"
  by (auto simp: GetLoggerFromCtx_def ctx_Value_def split: option.splits any_value.splits)

section \<open>What a well-formed context logs\<close>

text \<open>The record of a log call under a context that \<open>ctx_ok\<close> accepts.\<close>

definition log_rec :: "level \<Rightarrow> go_context \<Rightarrow> string \<Rightarrow> log_field list \<Rightarrow> log_record" where
  "log_rec lv ctx msg flds = \<lparr>log_level = lv, log_msg = msg, log_fields =
     flds @ (case ctx of
               None \<Rightarrow> []
             | Some m \<Rightarrow> (case m KeyForRequestID of
                           Some (VString s) \<Rightarrow> [(KeyForRequestID, s)]
                         | _ \<Rightarrow> []))\<rparr>"

lemma log_call_rec: "ctx_ok ctx \<Longrightarrow> log_call lv LoggerPtr ctx msg flds = Returns (log_rec lv ctx msg flds)"
  by (auto simp: ctx_ok_def log_call_def TryAppendRequestIDFromContext_def ctx_Value_def log_rec_def)

lemma level_rec [simp]:
  assumes "ctx_ok ctx"
  shows "Debug LoggerPtr ctx msg flds = Returns (log_rec DebugLevel ctx msg flds)"
    "Info LoggerPtr ctx msg flds = Returns (log_rec InfoLevel ctx msg flds)"
    "Warn LoggerPtr ctx msg flds = Returns (log_rec WarnLevel ctx msg flds)"
    "Error LoggerPtr ctx msg flds = Returns (log_rec ErrorLevel ctx msg flds)"
    "Fatal LoggerPtr ctx msg flds = Returns (log_rec FatalLevel ctx msg flds)"
  using log_call_rec [OF assms] by (simp_all add: level_defs)

lemma log_rec_msg [simp]: "log_msg (log_rec lv ctx msg flds) = msg"
  by (simp add: log_rec_def)

end
