(* ===== verification/LruCache.thy ===== *)
theory LruCache
  imports LinkedList Logger
begin

text \<open>
  The in-memory LRU cache of \<open>pkg/pkgports/adapters/cache/lru/in_memory.go\<close>: the
  struct's fields \<open>data\<close> (a Go map), \<open>keysList\<close> (the linked list) and
  \<open>cap\<close>, and its methods with every error return and every log call that can panic.
  \<open>Set\<close> holds the write lock, so it is one state transformer; this theory treats
  \<open>Get\<close> in the same way, and \<open>LruConcurrency\<close> interleaves several
  \<open>Get\<close>s, which share the read lock. A result is the state in which the method
  leaves the cache together with what it returns, or the fact that it panicked.

  The specification is a list of key/value pairs, the most recently used first. The
  refinement lemmas say that the map, the linked list and the capacity implement it.
\<close>

section \<open>The cache\<close>

record ('k, 'v) lru =
  lru_data :: "'k \<Rightarrow> 'v option"
  lru_keysList :: "'k llist"
  lru_cap :: int

definition NewCacheLRUInMemory :: "int \<Rightarrow> ('k, 'v) lru" where
  "NewCacheLRUInMemory cacheCapacity =
     \<lparr>lru_data = (\<lambda>_. None), lru_keysList = NewLinkedList, lru_cap = cacheCapacity\<rparr>"

definition GetCapacity :: "('k, 'v) lru \<Rightarrow> int" where
  "GetCapacity c = lru_cap c"

text \<open>
  The parameters of the methods: \<open>zero\<close> is Go's zero value of the type argument
  \<open>Value\<close>, \<open>fmt_v\<close> is the text that \<open>%v\<close> gives a key,
  \<open>zap_err\<close> is the error of \<open>zap.NewProduction\<close>, if any.
\<close>

definition Get ::
  "'v \<Rightarrow> ('k \<Rightarrow> string) \<Rightarrow> go_error option \<Rightarrow> go_context \<Rightarrow> ('k, 'v) lru \<Rightarrow> 'k \<Rightarrow>
   ('k, 'v) lru \<times> ('v \<times> bool \<times> go_error option) outcome" where
  "Get zero fmt_v zap_err ctx c key =
     (case lru_data c key of
        Some value \<Rightarrow>
          (case GetIndex (lru_keysList c) key (=) of
             None \<Rightarrow> (c, Panics)
           | Some (index, Some err) \<Rightarrow>
               if errors_is err ErrEmptyList
               then (c, Returns (zero, False, Some (Wrap '''' (Sentinel ErrUnexpectedLinkedListBehaviour)
                       '': key is stored in data, but keys linked list is empty'')))
               else (c, Returns (value, False,
                       Some (Wrap ''error getting index of read key: '' err '''')))
           | Some (index, None) \<Rightarrow>
               if index \<noteq> -1
               then (case MoveToFirst (lru_keysList c) index of
                       None \<Rightarrow> (c, Panics)
                     | Some (kl, Some err) \<Rightarrow>
                         (c\<lparr>lru_keysList := kl\<rparr>, Returns (zero, False,
                           Some (Wrap ''error while putting element to top: '' err '''')))
                     | Some (kl, None) \<Rightarrow>
                         (c\<lparr>lru_keysList := kl\<rparr>, Returns (value, True, None)))
               else (c, Returns (zero, False,
                       Some (Wrap '''' (Sentinel ErrUnexpectedLinkedListBehaviour)
                         ('': key \"'' @ fmt_v key @ ''\" is stored in data, but not in non-empty linked list'')))))
      | None \<Rightarrow>
          (c, bind_outcome
                (ctx_log_or_create zap_err Debug ctx ''in-memory LRU cache miss''
                   [(''key'', fmt_v key)])
                (\<lambda>_. Returns (zero, False, None))))"

text \<open>
  The tail of \<open>Set\<close>, which evicts the last key when the list has outgrown the
  capacity. The log call stands between the removal from the list and the deletion from
  the map, so a panic there leaves the two out of step.
\<close>

definition evict_overflow ::
  "('k \<Rightarrow> string) \<Rightarrow> go_context \<Rightarrow> ('k, 'v) lru \<Rightarrow> ('k, 'v) lru \<times> go_error option outcome" where
  "evict_overflow fmt_v ctx c =
     (if Len (lru_keysList c) > lru_cap c
      then (case GetLast (lru_keysList c) of
              None \<Rightarrow> (c, Panics)
            | Some (Inl err) \<Rightarrow>
                if \<not> errors_is err ErrEmptyList
                then (c, Returns (Some (Wrap ''error while getting last key index: '' err '''')))
                else (c, Returns None)
            | Some (Inr keyToDelete) \<Rightarrow>
                (case RemoveLast (lru_keysList c) of
                   None \<Rightarrow> (c, Panics)
                 | Some (kl, Some err) \<Rightarrow>
                     (c\<lparr>lru_keysList := kl\<rparr>,
                      Returns (Some (Wrap ''error while removing last key index: '' err '''')))
                 | Some (kl, None) \<Rightarrow>
                     (let c' = c\<lparr>lru_keysList := kl\<rparr> in
                      case ctx_log Debug ctx ''cache overflow, erased a value''
                             [(''key'', fmt_v keyToDelete), (''length'', itoa (Len kl)),
                              (''capacity'', itoa (GetCapacity c'))] of
                        Panics \<Rightarrow> (c', Panics)
                      | Returns _ \<Rightarrow>
                          (c'\<lparr>lru_data := (lru_data c')(keyToDelete := None)\<rparr>, Returns None))))
      else (c, Returns None))"

definition Set ::
  "('k \<Rightarrow> string) \<Rightarrow> go_context \<Rightarrow> ('k, 'v) lru \<Rightarrow> 'k \<Rightarrow> 'v \<Rightarrow>
   ('k, 'v) lru \<times> go_error option outcome" where
  "Set fmt_v ctx c key value =
     (case GetIndex (lru_keysList c) key (=) of
        None \<Rightarrow> (c, Panics)
      | Some (index, err) \<Rightarrow>
          if (case err of None \<Rightarrow> False | Some e \<Rightarrow> \<not> errors_is e ErrEmptyList)
          then (c, Returns (Some (Wrap ''error trying to get existing entry of set key: '' (the err) '''')))
          else
          (case (if index \<noteq> -1 then RemoveAt (lru_keysList c) index
                 else Some (lru_keysList c, None)) of
             None \<Rightarrow> (c, Panics)
           | Some (kl, Some e) \<Rightarrow>
               (c\<lparr>lru_keysList := kl\<rparr>,
                Returns (Some (Wrap ''error trying to remove existing entry of set key: '' e '''')))
           | Some (kl, None) \<Rightarrow>
               (case Insert kl key 0 of
                  None \<Rightarrow> (c\<lparr>lru_keysList := kl\<rparr>, Panics)
                | Some (kl', Some e) \<Rightarrow>
                    (c\<lparr>lru_keysList := kl'\<rparr>,
                     Returns (Some (Wrap ''error inserting key in list: '' e '''')))
                | Some (kl', None) \<Rightarrow>
                    evict_overflow fmt_v ctx
                      (c\<lparr>lru_keysList := kl', lru_data := (lru_data c)(key \<mapsto> value)\<rparr>))))"

definition GetKeysAmount :: "('k, 'v) lru \<Rightarrow> int" where
  "GetKeysAmount c = Len (lru_keysList c)"

definition GetKeys :: "('k, 'v) lru \<Rightarrow> 'k list option" where
  "GetKeys c = GetAll (lru_keysList c)"

definition MostUsedKey :: "('k, 'v) lru \<Rightarrow> (go_error + 'k) option" where
  "MostUsedKey c = GetFirst (lru_keysList c)"

definition LeastUsedKey :: "('k, 'v) lru \<Rightarrow> (go_error + 'k) option" where
  "LeastUsedKey c = GetLast (lru_keysList c)"

section \<open>The specification\<close>

text \<open>Entries, the most recently used first.\<close>

type_synonym ('k, 'v) recency = "('k \<times> 'v) list"

definition without :: "'k \<Rightarrow> ('k, 'v) recency \<Rightarrow> ('k, 'v) recency" where
  "without k s = filter (\<lambda>e. fst e \<noteq> k) s"

definition spec_set :: "int \<Rightarrow> 'k \<Rightarrow> 'v \<Rightarrow> ('k, 'v) recency \<Rightarrow> ('k, 'v) recency" where
  "spec_set cap k v s = take (nat cap) ((k, v) # without k s)"

definition spec_get :: "'k \<Rightarrow> ('k, 'v) recency \<Rightarrow> ('k, 'v) recency" where
  "spec_get k s = (case map_of s k of None \<Rightarrow> s | Some v \<Rightarrow> (k, v) # without k s)"

definition recency_ok :: "int \<Rightarrow> ('k, 'v) recency \<Rightarrow> bool" where
  "recency_ok cap s \<longleftrightarrow> distinct (map fst s) \<and> length s \<le> nat cap"

text \<open>
  The cache \<open>c\<close> implements \<open>s\<close>: the list holds the keys in this order, the map
  is the lookup in \<open>s\<close>, keys are distinct and there are at most \<open>cap\<close>.
\<close>

definition lru_rep :: "('k, 'v) lru \<Rightarrow> ('k, 'v) recency \<Rightarrow> bool" where
  "lru_rep c s \<longleftrightarrow>
     ll_rep (lru_keysList c) (map fst s) \<and> lru_data c = map_of s \<and> recency_ok (lru_cap c) s"

lemma map_fst_without [lru_simps]: "map fst (without k s) = filter (\<lambda>y. y \<noteq> k) (map fst s)"
  by (simp add: without_def filter_map o_def)

lemma set_fst_without [lru_simps]: "fst ` set (without k s) = fst ` set s - {k}"
  by (auto simp: without_def)

lemma map_of_without [lru_simps]: "map_of (without k s) = (map_of s)(k := None)"
  by (induction s) (auto simp: without_def)

lemma distinct_without: "distinct (map fst s) \<Longrightarrow> distinct (map fst (without k s))"
  by (simp add: lru_simps)

lemma length_without_le: "length (without k s) \<le> length s"
  by (simp add: without_def)

lemma without_absent: "k \<notin> fst ` set s \<Longrightarrow> without k s = s"
  by (force simp: without_def filter_id_conv)

lemma length_without_present:
  "distinct (map fst s) \<Longrightarrow> k \<in> fst ` set s \<Longrightarrow> Suc (length (without k s)) = length s"
proof (induction s)
  case (Cons e s)
  then show ?case
    using without_absent [of k s] by (cases "fst e = k") (auto simp: without_def)
qed simp

lemma length_without_cap:
  "recency_ok cap s \<Longrightarrow> length (without k s) \<le> nat cap"
  using length_without_le [of k s] by (simp add: recency_ok_def)

lemma map_of_butlast:
  "distinct (map fst s) \<Longrightarrow> s \<noteq> [] \<Longrightarrow>
     map_of (butlast s) = (map_of s)(fst (last s) := None)"
proof (cases s rule: rev_cases)
  case (snoc t e)
  assume "distinct (map fst s)"
  with snoc have "map_of t (fst e) = None" by (simp add: map_of_eq_None_iff)
  with snoc show ?thesis
    by (cases e) (auto simp: fun_eq_iff map_add_def split: option.splits)
qed simp

lemma recency_ok_spec_set: "recency_ok cap s \<Longrightarrow> recency_ok cap (spec_set cap k v s)"
proof -
  assume "recency_ok cap s"
  then have d: "distinct (map fst ((k, v) # without k s))"
    by (auto simp: recency_ok_def lru_simps distinct_without)
  have "map fst (spec_set cap k v s) = take (nat cap) (map fst ((k, v) # without k s))"
    unfolding spec_set_def by (rule take_map [symmetric])
  then show ?thesis using d by (simp add: recency_ok_def distinct_take spec_set_def)
qed

lemma recency_ok_spec_get: "recency_ok cap s \<Longrightarrow> recency_ok cap (spec_get k s)"
proof (cases "map_of s k")
  case (Some v)
  assume ok: "recency_ok cap s"
  have "k \<in> fst ` set s" using Some by (force dest: map_of_SomeD)
  then have "Suc (length (without k s)) = length s"
    using ok by (intro length_without_present) (simp_all add: recency_ok_def)
  with ok Some show ?thesis
    by (simp add: spec_get_def recency_ok_def lru_simps distinct_without)
qed (simp add: spec_get_def)

section \<open>Refinement\<close>

lemma NewCache_rep: "lru_rep (NewCacheLRUInMemory n) []"
  by (simp add: lru_rep_def NewCacheLRUInMemory_def NewLinkedList_rep recency_ok_def)

lemma Get_hit_rep:
  assumes "lru_rep c s" "map_of s k = Some v"
  shows "\<exists>c'. Get zero fmt_v z ctx c k = (c', Returns (v, True, None)) \<and>
    lru_rep c' (spec_get k s) \<and> lru_cap c' = lru_cap c"
proof -
  have r: "ll_rep (lru_keysList c) (map fst s)" and d: "lru_data c = map_of s"
    and ok: "recency_ok (lru_cap c) s"
    using assms(1) by (auto simp: lru_rep_def)
  have k: "k \<in> set (map fst s)" using assms(2) by (force dest: map_of_SomeD)
  obtain i kl where i: "GetIndex (lru_keysList c) k (=) = Some (int i, None)"
    "MoveToFirst (lru_keysList c) (int i) = Some (kl, None)"
    "ll_rep kl (k # filter (\<lambda>y. y \<noteq> k) (map fst s))"
    using ll.touch_present [OF r _ k] ok by (auto simp: recency_ok_def)
  let ?c' = "c\<lparr>lru_keysList := kl\<rparr>"
  have "Get zero fmt_v z ctx c k = (?c', Returns (v, True, None))"
    using i d assms(2) by (simp add: Get_def)
  moreover have "lru_rep ?c' (spec_get k s)"
    using i(3) d recency_ok_spec_get [OF ok, of k] assms(2)
    by (auto simp: lru_rep_def spec_get_def lru_simps fun_eq_iff)
  ultimately show ?thesis by auto
qed

lemma Get_miss_rep:
  assumes "lru_rep c s" "map_of s k = None" "ctx_ok ctx"
  shows "Get zero fmt_v z ctx c k = (c, Returns (zero, False, None))"
  using assms log_calls_ok(1) [OF assms(3)]
  by (auto simp: Get_def lru_rep_def)

lemma evict_overflow_rep:
  assumes r: "ll_rep (lru_keysList c) (map fst s)" and d: "lru_data c = map_of s"
    and di: "distinct (map fst s)" and len: "length s \<le> Suc (nat (lru_cap c))" "s \<noteq> []"
    and ctx: "ctx_ok ctx"
  shows "\<exists>c'. evict_overflow fmt_v ctx c = (c', Returns None) \<and>
    lru_rep c' (take (nat (lru_cap c)) s) \<and> lru_cap c' = lru_cap c"
proof (cases "int (length s) > lru_cap c")
  case True
  then have n: "length s = Suc (nat (lru_cap c))"
    using len by (cases s) auto
  have ne: "map fst s \<noteq> []" using len(2) by simp
  obtain kl where kl: "RemoveLast (lru_keysList c) = Some (kl, None)"
    "ll_rep kl (butlast (map fst s))"
    using ll.drop_law [OF r ne] by auto
  have la: "GetLast (lru_keysList c) = Some (Inr (fst (last s)))"
    using ll.last_law [OF r ne] len(2) by (simp add: last_map)
  let ?c1 = "c\<lparr>lru_keysList := kl\<rparr>"
  let ?c' = "?c1\<lparr>lru_data := (lru_data c)(fst (last s) := None)\<rparr>"
  obtain lr where lg: "Debug LoggerPtr ctx ''cache overflow, erased a value''
      [(''key'', fmt_v (fst (last s))), (''length'', itoa (Len kl)),
       (''capacity'', itoa (GetCapacity ?c1))] = Returns lr"
    using log_calls_ok(1) [OF ctx] by blast
  have ev: "evict_overflow fmt_v ctx c = (?c', Returns None)"
    using True la kl(1) lg ctx ll.len_law [OF r] by (simp add: evict_overflow_def)
  have tk: "take (nat (lru_cap c)) s = butlast s"
    using n by (simp add: butlast_conv_take)
  have mo: "(map_of s)(fst (last s) := None) = map_of (butlast s)"
    using map_of_butlast [OF di len(2)] by simp
  have db: "distinct (map fst (butlast s))"
    using di by (simp add: map_butlast distinct_butlast)
  have "lru_rep ?c' (butlast s)"
    using kl(2) d mo db n by (simp add: lru_rep_def recency_ok_def map_butlast)
  then show ?thesis using ev tk by auto
next
  case False
  then have "length s \<le> nat (lru_cap c)" by simp
  then show ?thesis
    using False assms ll.len_law [OF r] by (simp add: evict_overflow_def lru_rep_def recency_ok_def)
qed

lemma Set_rep:
  assumes "lru_rep c s" "ctx_ok ctx"
  shows "\<exists>c'. Set fmt_v ctx c k v = (c', Returns None) \<and>
    lru_rep c' (spec_set (lru_cap c) k v s) \<and> lru_cap c' = lru_cap c"
proof -
  have r: "ll_rep (lru_keysList c) (map fst s)" and d: "lru_data c = map_of s"
    and ok: "recency_ok (lru_cap c) s"
    using assms(1) by (auto simp: lru_rep_def)
  have di: "distinct (map fst s)" using ok by (simp add: recency_ok_def)
  obtain index err kl where step: "GetIndex (lru_keysList c) k (=) = Some (index, err)"
    "err = None \<or> err = Some (Sentinel ErrEmptyList)"
    "(if index \<noteq> -1 then RemoveAt (lru_keysList c) index else Some (lru_keysList c, None)) =
       Some (kl, None)"
    "ll_rep kl (map fst (without k s))"
  proof (cases "k \<in> set (map fst s)")
    case True
    then show ?thesis using that ll.forget_present [OF r di True] by (auto simp: lru_simps)
  next
    case False
    then show ?thesis
      using that ll.index_absent [OF r False] r without_absent [of k s] by auto
  qed
  obtain kl' where ins: "Insert kl k 0 = Some (kl', None)"
    "ll_rep kl' (k # map fst (without k s))"
    using ll.insert_law [OF step(4)] by blast
  let ?c1 = "c\<lparr>lru_keysList := kl', lru_data := (lru_data c)(k \<mapsto> v)\<rparr>"
  have "Set fmt_v ctx c k v = evict_overflow fmt_v ctx ?c1"
    using step(1-3) ins(1) by (auto simp: Set_def)
  moreover have "\<exists>c'. evict_overflow fmt_v ctx ?c1 = (c', Returns None) \<and>
      lru_rep c' (take (nat (lru_cap ?c1)) ((k, v) # without k s)) \<and> lru_cap c' = lru_cap ?c1"
    using ins(2) d di length_without_cap [OF ok] assms(2)
    by (intro evict_overflow_rep) (auto simp: lru_simps fun_eq_iff distinct_without)
  ultimately show ?thesis by (simp add: spec_set_def)
qed

section \<open>Sequences of calls\<close>

datatype ('k, 'v) cache_call = CallGet 'k | CallSet 'k 'v

datatype 'v cache_reply = Got 'v bool "go_error option" | Stored "go_error option" | Crashed

text \<open>One call on the model of the code; the context and the key format are fixed.\<close>

primrec cache_step ::
  "'v \<Rightarrow> ('k \<Rightarrow> string) \<Rightarrow> go_error option \<Rightarrow> go_context \<Rightarrow>
   ('k, 'v) lru \<Rightarrow> ('k, 'v) cache_call \<Rightarrow> ('k, 'v) lru \<times> 'v cache_reply" where
  "cache_step zero fmt_v z ctx c (CallGet k) =
     (case Get zero fmt_v z ctx c k of
        (c', Panics) \<Rightarrow> (c', Crashed)
      | (c', Returns (v, ok, e)) \<Rightarrow> (c', Got v ok e))"
| "cache_step zero fmt_v z ctx c (CallSet k v) =
     (case Set fmt_v ctx c k v of
        (c', Panics) \<Rightarrow> (c', Crashed)
      | (c', Returns e) \<Rightarrow> (c', Stored e))"

primrec cache_run ::
  "'v \<Rightarrow> ('k \<Rightarrow> string) \<Rightarrow> go_error option \<Rightarrow> go_context \<Rightarrow>
   ('k, 'v) lru \<Rightarrow> ('k, 'v) cache_call list \<Rightarrow> ('k, 'v) lru \<times> 'v cache_reply list" where
  "cache_run zero fmt_v z ctx c [] = (c, [])"
| "cache_run zero fmt_v z ctx c (x # calls) =
     (let (c', r) = cache_step zero fmt_v z ctx c x;
          (c'', rs) = cache_run zero fmt_v z ctx c' calls
      in (c'', r # rs))"

primrec recency_step ::
  "'v \<Rightarrow> int \<Rightarrow> ('k, 'v) recency \<Rightarrow> ('k, 'v) cache_call \<Rightarrow> ('k, 'v) recency \<times> 'v cache_reply" where
  "recency_step zero cap s (CallGet k) =
     (spec_get k s, case map_of s k of None \<Rightarrow> Got zero False None | Some v \<Rightarrow> Got v True None)"
| "recency_step zero cap s (CallSet k v) = (spec_set cap k v s, Stored None)"

primrec recency_run ::
  "'v \<Rightarrow> int \<Rightarrow> ('k, 'v) recency \<Rightarrow> ('k, 'v) cache_call list \<Rightarrow>
   ('k, 'v) recency \<times> 'v cache_reply list" where
  "recency_run zero cap s [] = (s, [])"
| "recency_run zero cap s (x # calls) =
     (let (s', r) = recency_step zero cap s x;
          (s'', rs) = recency_run zero cap s' calls
      in (s'', r # rs))"

lemma cache_step_rep:
  assumes "lru_rep c s" "ctx_ok ctx"
  shows "\<exists>c'. cache_step zero fmt_v z ctx c x = (c', snd (recency_step zero (lru_cap c) s x)) \<and>
    lru_rep c' (fst (recency_step zero (lru_cap c) s x)) \<and> lru_cap c' = lru_cap c"
proof (cases x)
  case (CallGet k)
  show ?thesis
  proof (cases "map_of s k")
    case None
    then have "spec_get k s = s" by (simp add: spec_get_def)
    then show ?thesis
      using CallGet None Get_miss_rep [OF assms(1) None assms(2), of zero fmt_v z] assms(1) by simp
  next
    case (Some v)
    then show ?thesis
      using CallGet Get_hit_rep [OF assms(1) Some, of zero fmt_v z ctx] by auto
  qed
next
  case (CallSet k v)
  then show ?thesis using Set_rep [OF assms, of fmt_v k v] by auto
qed

lemma cache_run_rep:
  assumes "lru_rep c s" "ctx_ok ctx"
  shows "\<exists>c'. cache_run zero fmt_v z ctx c calls = (c', snd (recency_run zero (lru_cap c) s calls)) \<and>
    lru_rep c' (fst (recency_run zero (lru_cap c) s calls)) \<and> lru_cap c' = lru_cap c"
  using assms(1)
proof (induction calls arbitrary: c s)
  case (Cons x calls)
  obtain c1 where c1: "cache_step zero fmt_v z ctx c x = (c1, snd (recency_step zero (lru_cap c) s x))"
    "lru_rep c1 (fst (recency_step zero (lru_cap c) s x))" "lru_cap c1 = lru_cap c"
    using cache_step_rep [OF Cons.prems assms(2)] by metis
  show ?case using Cons.IH [OF c1(2)] c1 by (auto simp: Let_def split: prod.splits)
qed simp

lemma new_cache_run_rep:
  assumes "ctx_ok ctx"
  shows "\<exists>c. cache_run zero fmt_v z ctx (NewCacheLRUInMemory cap) calls =
      (c, snd (recency_run zero cap [] calls)) \<and>
    lru_rep c (fst (recency_run zero cap [] calls)) \<and> lru_cap c = cap"
  using cache_run_rep [OF NewCache_rep [of cap] assms, of zero fmt_v z calls]
  by (simp add: NewCacheLRUInMemory_def)

text \<open>A context with a logger and no request id, as \<open>main\<close> builds it.\<close>

definition logged_ctx :: go_context where
  "logged_ctx = Some [KeyForLogger \<mapsto> VLogger LoggerPtr]"

lemma logged_ctx_ok [simp]: "ctx_ok logged_ctx"
  by (simp add: ctx_ok_def logged_ctx_def KeyForLogger_def KeyForRequestID_def)

text \<open>
  C4: A new cache of any capacity, used through any sequence of \<open>Get\<close> and
  \<open>Set\<close> calls in a context with a logger, answers every call exactly as the recency
  list does (no panic, no error), and afterwards lists its keys in recency order.
\<close>

theorem cache_calls_refine_recency:
  assumes "ctx_ok ctx"
  shows "\<exists>c. cache_run zero fmt_v z ctx (NewCacheLRUInMemory cap) calls =
        (c, snd (recency_run zero cap [] calls)) \<and>
      GetKeys c = Some (map fst (fst (recency_run zero cap [] calls)))"
  using new_cache_run_rep [OF assms, of zero fmt_v z cap calls]
  by (auto simp: lru_rep_def GetKeys_def GetAll_rep)

theorem cache_calls_refine_recency_witness:
  "ctx_ok logged_ctx \<and>
   snd (cache_run 0 id None logged_ctx (NewCacheLRUInMemory 2)
      [CallSet ''a'' (1::nat), CallSet ''b'' 2, CallGet ''a'', CallSet ''c'' 3, CallGet ''b''])
   = [Stored None, Stored None, Got 1 True None, Stored None, Got 0 False None]"
  using cache_calls_refine_recency [OF logged_ctx_ok, of 0 id None 2
      "[CallSet ''a'' (1::nat), CallSet ''b'' 2, CallGet ''a'', CallSet ''c'' 3, CallGet ''b'']"]
  by (auto simp: spec_set_def spec_get_def without_def)

lemma recency_ok_run: "recency_ok cap s \<Longrightarrow> recency_ok cap (fst (recency_run zero cap s calls))"
proof (induction calls arbitrary: s)
  case (Cons x calls)
  then have "recency_ok cap (fst (recency_step zero cap s x))"
    by (cases x) (simp_all add: recency_ok_spec_set recency_ok_spec_get)
  from Cons.IH [OF this] show ?case by (simp add: Let_def case_prod_beta)
qed simp

text \<open>
  At every point of every such use the cache holds at most its capacity of keys (none
  when the capacity is not positive), no key twice, and exactly the keys of the map.
\<close>

lemma cache_never_overflows:
  assumes "ctx_ok ctx"
  shows "\<exists>c ks. fst (cache_run zero fmt_v z ctx (NewCacheLRUInMemory cap) calls) = c \<and>
      GetKeys c = Some ks \<and> distinct ks \<and> GetKeysAmount c = int (length ks) \<and>
      int (length ks) \<le> max 0 cap \<and> set ks = dom (lru_data c)"
proof -
  let ?s = "fst (recency_run zero cap [] calls)"
  obtain c where c: "cache_run zero fmt_v z ctx (NewCacheLRUInMemory cap) calls = (c, snd (recency_run zero cap [] calls))"
    "lru_rep c ?s" "lru_cap c = cap"
    using new_cache_run_rep [OF assms, of zero fmt_v z cap calls] by blast
  have "distinct (map fst ?s)" "length ?s \<le> nat cap"
    using c(2,3) by (auto simp: lru_rep_def recency_ok_def)
  moreover have "GetKeys c = Some (map fst ?s)" "GetKeysAmount c = int (length ?s)"
    using c(2) by (auto simp: lru_rep_def GetKeys_def GetAll_rep GetKeysAmount_def ll.len_law)
  moreover have "dom (lru_data c) = set (map fst ?s)"
    using c(2) by (simp add: lru_rep_def dom_map_of_conv_image_fst)
  ultimately show ?thesis using c(1) by (intro exI [of _ c] exI [of _ "map fst ?s"]) auto
qed

lemma cache_never_overflows_witness:
  "\<exists>c ks. fst (cache_run 0 id None logged_ctx (NewCacheLRUInMemory 1)
        [CallSet ''a'' (1::nat), CallSet ''b'' 2]) = c \<and>
      GetKeys c = Some ks \<and> distinct ks \<and> GetKeysAmount c = int (length ks) \<and>
      int (length ks) \<le> max 0 1 \<and> set ks = dom (lru_data c)"
  by (rule cache_never_overflows [OF logged_ctx_ok])

section \<open>What one call does to the contents\<close>

lemma map_of_spec_set:
  assumes "recency_ok cap s"
  shows "map_of (spec_set cap k v s) k' =
    (if cap \<le> 0 then None
     else if k' = k then Some v
     else if k \<notin> fst ` set s \<and> length s = nat cap \<and> k' = fst (last s) then None
     else map_of s k')"
proof (cases "cap \<le> 0")
  case False
  let ?w = "without k s" and ?n = "nat cap"
  have n: "0 < ?n" using False by simp
  have d: "distinct (map fst s)" "length s \<le> ?n" using assms by (auto simp: recency_ok_def)
  have tk: "spec_set cap k v s = (k, v) # take (?n - 1) ?w"
    using n by (cases ?n) (simp_all add: spec_set_def)
  show ?thesis
  proof (cases "k \<notin> fst ` set s \<and> length s = ?n")
    case True
    then have w: "?w = s" by (simp add: without_absent)
    have ne: "s \<noteq> []" using True n by auto
    have "take (?n - 1) ?w = butlast s" using True w by (simp add: butlast_conv_take)
    then show ?thesis
      using tk False True map_of_butlast [OF d(1) ne] by auto
  next
    case nf: False
    have "length ?w \<le> ?n - 1"
    proof (cases "k \<in> fst ` set s")
      case True
      then show ?thesis using length_without_present [OF d(1) True] d(2) by simp
    next
      case False
      then show ?thesis using nf d(2) by (auto simp: without_absent)
    qed
    then have "take (?n - 1) ?w = ?w" by simp
    then show ?thesis using tk False nf by (auto simp: lru_simps)
  qed
qed (simp add: spec_set_def)

text \<open>
  After a \<open>Set\<close> on a cache with entries \<open>s\<close> (most recent first), the
  map holds the new value under its key, every other entry as before, except that a new
  key on a full cache takes the place of the least recently used one; with a capacity that
  is not positive nothing is kept.
\<close>

lemma Set_changes_only:
  assumes "lru_rep c s" "ctx_ok ctx"
  shows "\<exists>c'. Set fmt_v ctx c k v = (c', Returns None) \<and>
    lru_data c' k' =
      (if lru_cap c \<le> 0 then None
       else if k' = k then Some v
       else if k \<notin> dom (lru_data c) \<and> length s = nat (lru_cap c) \<and> k' = fst (last s) then None
       else lru_data c k')"
proof -
  have ok: "recency_ok (lru_cap c) s" and d: "lru_data c = map_of s"
    using assms(1) by (auto simp: lru_rep_def)
  obtain c' where "Set fmt_v ctx c k v = (c', Returns None)"
    "lru_rep c' (spec_set (lru_cap c) k v s)"
    using Set_rep [OF assms] by blast
  then show ?thesis
    using map_of_spec_set [OF ok, of k v k'] d
    by (auto simp: lru_rep_def dom_map_of_conv_image_fst)
qed

text \<open>A cache of capacity 2 that holds \<open>b\<close> (most recent) and \<open>a\<close>.\<close>

definition sample_cache :: "(string, nat) lru" where
  "sample_cache =
     \<lparr>lru_data = [''a'' \<mapsto> 1, ''b'' \<mapsto> 2],
      lru_keysList =
        \<lparr>ll_store = [0 \<mapsto> \<lparr>node_value = ''a'', node_next = None\<rparr>,
                    1 \<mapsto> \<lparr>node_value = ''b'', node_next = Some 0\<rparr>],
         ll_fresh = 2, ll_head = Some 1, ll_tail = Some 0, ll_length = 2\<rparr>,
      lru_cap = 2\<rparr>"

lemma sample_cache_rep: "lru_rep sample_cache [(''b'', 2), (''a'', 1)]"
proof -
  have "ll_cells (lru_keysList sample_cache) [(1, ''b''), (0, ''a'')]"
    by (simp add: ll_cells_def sample_cache_def last_ptr_def)
  then have "ll_rep (lru_keysList sample_cache) [''b'', ''a'']"
    unfolding ll_rep_def by (intro exI conjI) auto
  then show ?thesis
    by (auto simp: lru_rep_def recency_ok_def sample_cache_def fun_eq_iff)
qed

lemma Set_changes_only_witness:
  "\<exists>c'. Set id logged_ctx sample_cache ''c'' 3 = (c', Returns None) \<and> lru_data c' ''a'' = None"
  using Set_changes_only [OF sample_cache_rep logged_ctx_ok, of id "''c''" 3 "''a''"]
  by (simp add: sample_cache_def)

text \<open>
  C35: A \<open>Set\<close> of a new key on a full cache whose context carries no logger panics
  in the log call between the two removals: the evicted key is gone from the list but
  still in the map, so that a later \<open>Get\<close> of it, with a proper context, fails with
  the unexpected-behaviour error instead of reporting a miss.
\<close>

theorem Set_without_logger_corrupts:
  assumes rep: "lru_rep c s" and full: "length s = nat (lru_cap c)" "s \<noteq> []"
    and new: "k \<notin> fst ` set s" and nolog: "GetLoggerFromCtx ctx = Panics"
  shows "\<exists>c'. Set fmt_v ctx c k v = (c', Panics) \<and>
    (case Get zero fmt_v z ctx' c' (fst (last s)) of
       (_, Returns (_, ok, Some e)) \<Rightarrow> \<not> ok \<and> errors_is e ErrUnexpectedLinkedListBehaviour
     | _ \<Rightarrow> False)"
proof -
  have r: "ll_rep (lru_keysList c) (map fst s)" and d: "lru_data c = map_of s"
    and ok: "recency_ok (lru_cap c) s"
    using rep by (auto simp: lru_rep_def)
  have di: "distinct (map fst s)" using ok by (simp add: recency_ok_def)
  let ?old = "fst (last s)"
  have old: "?old \<in> fst ` set s" using full(2) by auto
  have kn: "k \<notin> set (map fst s)" using new by simp
  obtain e where gi: "GetIndex (lru_keysList c) k (=) = Some (-1, e)"
    "e = None \<or> e = Some (Sentinel ErrEmptyList)"
    using ll.index_absent [OF r kn] by blast
  obtain kl where ins: "Insert (lru_keysList c) k 0 = Some (kl, None)" "ll_rep kl (k # map fst s)"
    using ll.insert_law [OF r] by blast
  obtain kl' where rl: "RemoveLast kl = Some (kl', None)" "ll_rep kl' (butlast (k # map fst s))"
    using ll.drop_law [OF ins(2)] by blast
  have la: "GetLast kl = Some (Inr ?old)"
    using ll.last_law [OF ins(2)] full(2) by (simp add: last_map)
  have ln: "Len kl = 1 + int (length s)" using ll.len_law [OF ins(2)] by simp
  let ?c' = "c\<lparr>lru_keysList := kl', lru_data := (lru_data c)(k \<mapsto> v)\<rparr>"
  have set: "Set fmt_v ctx c k v = (?c', Panics)"
    using gi ins(1) rl(1) la ln full(1) nolog by (auto simp: Set_def evict_overflow_def)
  have lk: "lru_data ?c' ?old \<noteq> None"
  proof -
    have "map_of s ?old \<noteq> None" using old by (metis map_of_eq_None_iff)
    then show ?thesis using d by simp
  qed
  have gone: "?old \<notin> set (butlast (k # map fst s))"
  proof -
    have "map fst s = butlast (map fst s) @ [?old]" using full(2)
      by (metis append_butlast_last_id last_map list.map_disc_iff)
    then have "?old \<notin> set (butlast (map fst s))" using di
      by (metis distinct_append disjoint_insert(1) list.simps(15) not_distinct_conv_prefix)
    then show ?thesis using old new by auto
  qed
  have "GetIndex (lru_keysList ?c') ?old (=) = Some (-1, None)"
    using ll.index_law [OF rl(2), of ?old] gone full(2)
      index_of_None_iff [of "\<lambda>y. y = ?old" "butlast (k # map fst s)"] by auto
  then have "Get zero fmt_v z ctx' ?c' ?old =
      (?c', Returns (zero, False, Some (Wrap '''' (Sentinel ErrUnexpectedLinkedListBehaviour)
        ('': key \"'' @ fmt_v ?old @ ''\" is stored in data, but not in non-empty linked list''))))"
    using lk by (auto simp: Get_def)
  then show ?thesis using set by auto
qed

theorem Set_without_logger_corrupts_witness:
  "\<exists>c'. Set id Background sample_cache ''c'' 3 = (c', Panics) \<and>
    (case Get 0 id None logged_ctx c' ''a'' of
       (_, Returns (_, ok, Some e)) \<Rightarrow> \<not> ok \<and> errors_is e ErrUnexpectedLinkedListBehaviour
     | _ \<Rightarrow> False)"
proof -
  have "length [(''b'', 2::nat), (''a'', 1)] = nat (lru_cap sample_cache)"
    by (simp add: sample_cache_def)
  moreover have "GetLoggerFromCtx Background = Panics"
    by (simp add: GetLoggerFromCtx_def Background_def ctx_Value_def)
  ultimately show ?thesis
    using Set_without_logger_corrupts [OF sample_cache_rep, of "''c''" Background id 3 0 None logged_ctx]
    by simp
qed

end
