(* ===== verification/LruConcurrency.thy ===== *)
theory LruConcurrency
  imports LruCache
begin

text \<open>
  Concurrent \<open>Get\<close>s. \<open>Get\<close> takes the read lock of the cache
  (\<open>RLock\<close>), so several of them run at the same time, while a \<open>Set\<close> never
  runs beside them. The linked list's own mutex serialises \<open>MoveToFirst\<close>, but
  \<open>GetIndex\<close> takes no lock: its loop interleaves with the moves of other readers.

  A thread is a program counter, a schedule is a list of events, and one event is one
  iteration of the loop of \<open>GetIndex\<close> (which reads \<open>elem.value\<close> and
  \<open>elem.next\<close>) or one whole \<open>MoveToFirst\<close>. Go's memory model allows more
  interleavings than these, so the failures shown here are failures of the code, and the
  invariant is a statement about this granularity.
\<close>

section \<open>Readers\<close>

datatype 'k reader =
    NotStarted
  | Scanning 'k ptr int
  | FoundAt 'k int
  | Finished 'k bool "go_error option"
  | ReaderPanicked

record ('k, 'v) readers =
  rd_cache :: "('k, 'v) lru"
  rd_thread :: "nat \<Rightarrow> 'k reader"

text \<open>Thread \<open>t\<close> calls \<open>Get\<close> with a key, or makes its next step.\<close>

datatype 'k event = Call nat 'k | Step nat

text \<open>The lookup in the map, the test for an empty list, and \<open>elem := l.head\<close>.\<close>

definition reader_start :: "('k, 'v) lru \<Rightarrow> 'k \<Rightarrow> 'k reader" where
  "reader_start c key =
     (case lru_data c key of
        None \<Rightarrow> Finished key False None
      | Some value \<Rightarrow>
          if Len (lru_keysList c) = 0
          then Finished key False (Some (Wrap '''' (Sentinel ErrUnexpectedLinkedListBehaviour)
                 '': key is stored in data, but keys linked list is empty''))
          else Scanning key (ll_head (lru_keysList c)) 0)"

text \<open>One iteration of the loop, or the call of \<open>MoveToFirst\<close> once it has ended.\<close>

primrec reader_step ::
  "('k \<Rightarrow> string) \<Rightarrow> ('k, 'v) lru \<Rightarrow> 'k reader \<Rightarrow> ('k, 'v) lru \<times> 'k reader" where
  "reader_step fmt_v c NotStarted = (c, NotStarted)"
| "reader_step fmt_v c (Scanning key elem i) =
     (if i < Len (lru_keysList c)
      then (case deref (ll_store (lru_keysList c)) elem of
              None \<Rightarrow> (c, ReaderPanicked)
            | Some nd \<Rightarrow> (c, if node_value nd = key then FoundAt key i
                               else Scanning key (node_next nd) (i + 1)))
      else (c, Finished key False (Some (Wrap '''' (Sentinel ErrUnexpectedLinkedListBehaviour)
             ('': key \"'' @ fmt_v key @ ''\" is stored in data, but not in non-empty linked list'')))))"
| "reader_step fmt_v c (FoundAt key i) =
     (case MoveToFirst (lru_keysList c) i of
        None \<Rightarrow> (c, ReaderPanicked)
      | Some (kl, Some err) \<Rightarrow>
          (c\<lparr>lru_keysList := kl\<rparr>, Finished key False
             (Some (Wrap ''error while putting element to top: '' err '''')))
      | Some (kl, None) \<Rightarrow> (c\<lparr>lru_keysList := kl\<rparr>, Finished key True None))"
| "reader_step fmt_v c (Finished key ok e) = (c, Finished key ok e)"
| "reader_step fmt_v c ReaderPanicked = (c, ReaderPanicked)"

primrec readers_event :: "('k \<Rightarrow> string) \<Rightarrow> ('k, 'v) readers \<Rightarrow> 'k event \<Rightarrow> ('k, 'v) readers" where
  "readers_event fmt_v s (Call t key) =
     (if rd_thread s t = NotStarted
      then s\<lparr>rd_thread := (rd_thread s)(t := reader_start (rd_cache s) key)\<rparr> else s)"
| "readers_event fmt_v s (Step t) =
     (let (c, r) = reader_step fmt_v (rd_cache s) (rd_thread s t)
      in s\<lparr>rd_cache := c, rd_thread := (rd_thread s)(t := r)\<rparr>)"

primrec readers_run :: "('k \<Rightarrow> string) \<Rightarrow> ('k, 'v) readers \<Rightarrow> 'k event list \<Rightarrow> ('k, 'v) readers" where
  "readers_run fmt_v s [] = s"
| "readers_run fmt_v s (e # es) = readers_run fmt_v (readers_event fmt_v s e) es"

definition readers_init :: "('k, 'v) lru \<Rightarrow> ('k, 'v) readers" where
  "readers_init c = \<lparr>rd_cache = c, rd_thread = (\<lambda>_. NotStarted)\<rparr>"

section \<open>What concurrent readers keep\<close>

text \<open>
  The invariant: the map and the capacity are untouched, the list holds the same keys in
  some order, and an index that a reader is about to move is in range.
\<close>

definition readers_inv :: "('k, 'v) lru \<Rightarrow> 'k list \<Rightarrow> ('k, 'v) readers \<Rightarrow> bool" where
  "readers_inv c0 xs0 s \<longleftrightarrow>
     lru_data (rd_cache s) = lru_data c0 \<and> lru_cap (rd_cache s) = lru_cap c0 \<and>
     (\<exists>xs. ll_rep (lru_keysList (rd_cache s)) xs \<and> mset xs = mset xs0) \<and>
     (\<forall>t key i. rd_thread s t = FoundAt key i \<longrightarrow> 0 \<le> i \<and> i < int (length xs0)) \<and>
     (\<forall>t key p i. rd_thread s t = Scanning key p i \<longrightarrow> 0 \<le> i)"

lemma readers_inv_init: "ll_rep (lru_keysList c) xs \<Longrightarrow> readers_inv c xs (readers_init c)"
  by (auto simp: readers_inv_def readers_init_def)

lemma reader_step_inv:
  assumes rep: "ll_rep (lru_keysList c) xs"
    and idx: "\<And>key i. r = FoundAt key i \<Longrightarrow> 0 \<le> i \<and> i < int (length xs)"
    and scan: "\<And>key p i. r = Scanning key p i \<Longrightarrow> 0 \<le> i"
    and st: "reader_step fmt_v c r = (c', r')"
  shows "lru_data c' = lru_data c \<and> lru_cap c' = lru_cap c \<and>
    (\<exists>ys. ll_rep (lru_keysList c') ys \<and> mset ys = mset xs) \<and>
    (\<forall>key i. r' = FoundAt key i \<longrightarrow> 0 \<le> i \<and> i < int (length xs)) \<and>
    (\<forall>key p i. r' = Scanning key p i \<longrightarrow> 0 \<le> i)"
proof (cases r)
  case (Scanning key p i)
  then show ?thesis
    using st rep scan [OF Scanning] ll_rep_length [OF rep] by (auto split: if_splits option.splits)
next
  case (FoundAt key i)
  then have i: "0 \<le> i" "i < int (length xs)" "nat i < length xs" using idx by force+
  obtain kl where kl: "MoveToFirst (lru_keysList c) i = Some (kl, None)"
    "ll_rep kl (move_front (nat i) xs)"
    using MoveToFirst_rep [OF rep, of i] i by auto
  then show ?thesis using FoundAt st mset_move_front [OF i(3)] by auto
qed (use st rep in auto)

lemma readers_event_inv:
  assumes "readers_inv c0 xs0 s"
  shows "readers_inv c0 xs0 (readers_event fmt_v s e)"
proof (cases e)
  case (Call t key)
  then show ?thesis
    using assms by (auto simp: readers_inv_def reader_start_def split: option.splits if_splits)
next
  case (Step t)
  obtain xs where xs: "ll_rep (lru_keysList (rd_cache s)) xs" "mset xs = mset xs0"
    using assms by (auto simp: readers_inv_def)
  have len: "length xs = length xs0" using xs(2) by (metis size_mset)
  obtain c' r' where st: "reader_step fmt_v (rd_cache s) (rd_thread s t) = (c', r')" by force
  have "lru_data c' = lru_data (rd_cache s) \<and> lru_cap c' = lru_cap (rd_cache s) \<and>
    (\<exists>ys. ll_rep (lru_keysList c') ys \<and> mset ys = mset xs) \<and>
    (\<forall>key i. r' = FoundAt key i \<longrightarrow> 0 \<le> i \<and> i < int (length xs)) \<and>
    (\<forall>key p i. r' = Scanning key p i \<longrightarrow> 0 \<le> i)"
    using assms len by (intro reader_step_inv [OF xs(1) _ _ st]) (auto simp: readers_inv_def)
  then show ?thesis using assms Step st xs(2) len by (auto simp: readers_inv_def)
qed

lemma readers_run_inv:
  "readers_inv c0 xs0 s \<Longrightarrow> readers_inv c0 xs0 (readers_run fmt_v s es)"
  by (induction es arbitrary: s) (simp_all add: readers_event_inv)

text \<open>
  C24: However many \<open>Get\<close>s interleave on a well-formed cache, the map does not change
  and the list keeps exactly its keys, each once: no interleaving of readers loses or
  duplicates a key, and no \<open>MoveToFirst\<close> that a reader makes fails.
\<close>

theorem readers_keep_keys:
  assumes "lru_rep c s"
  shows "let c' = rd_cache (readers_run fmt_v (readers_init c) es) in
    lru_data c' = lru_data c \<and>
    (\<exists>ks. GetKeys c' = Some ks \<and> distinct ks \<and> set ks = dom (lru_data c)) \<and>
    (\<forall>t key i. rd_thread (readers_run fmt_v (readers_init c) es) t = FoundAt key i \<longrightarrow>
       (\<exists>kl. MoveToFirst (lru_keysList c') i = Some (kl, None)))"
proof -
  let ?r = "readers_run fmt_v (readers_init c) es"
  have r: "ll_rep (lru_keysList c) (map fst s)" and d: "lru_data c = map_of s"
    and ok: "recency_ok (lru_cap c) s"
    using assms by (auto simp: lru_rep_def)
  have inv: "readers_inv c (map fst s) ?r" by (rule readers_run_inv [OF readers_inv_init [OF r]])
  then obtain xs where xs: "ll_rep (lru_keysList (rd_cache ?r)) xs" "mset xs = mset (map fst s)"
    by (auto simp: readers_inv_def)
  have "distinct xs" "set xs = fst ` set s" and len: "length xs = length (map fst s)"
    using xs(2) ok by (metis mset_eq_imp_distinct_iff recency_ok_def,
        metis list.set_map set_mset_mset, metis size_mset)
  moreover have "\<exists>kl. MoveToFirst (lru_keysList (rd_cache ?r)) i = Some (kl, None)"
    if "rd_thread ?r t = FoundAt key i" for t key i
    using MoveToFirst_rep [OF xs(1), of i] inv that len by (fastforce simp: readers_inv_def)
  ultimately show ?thesis
    using xs(1) inv d GetAll_rep [OF xs(1)]
    by (auto simp: Let_def readers_inv_def GetKeys_def dom_map_of_conv_image_fst)
qed

section \<open>What concurrent readers break\<close>

text \<open>The cache of capacity 3 that holds \<open>a\<close>, \<open>b\<close> and \<open>c\<close>, \<open>a\<close> first.\<close>

definition three_keys :: "(string, nat) lru" where
  "three_keys =
     \<lparr>lru_data = [''a'' \<mapsto> 1, ''b'' \<mapsto> 2, ''c'' \<mapsto> 3],
      lru_keysList =
        \<lparr>ll_store = [0 \<mapsto> \<lparr>node_value = ''a'', node_next = Some 1\<rparr>,
                    1 \<mapsto> \<lparr>node_value = ''b'', node_next = Some 2\<rparr>,
                    2 \<mapsto> \<lparr>node_value = ''c'', node_next = None\<rparr>],
         ll_fresh = 3, ll_head = Some 0, ll_tail = Some 2, ll_length = 3\<rparr>,
      lru_cap = 3\<rparr>"

lemma three_keys_rep: "lru_rep three_keys [(''a'', 1), (''b'', 2), (''c'', 3)]"
proof -
  have "ll_cells (lru_keysList three_keys) [(0, ''a''), (1, ''b''), (2, ''c'')]"
    by (simp add: ll_cells_def three_keys_def last_ptr_def)
  then have "ll_rep (lru_keysList three_keys) [''a'', ''b'', ''c'']"
    unfolding ll_rep_def by (intro exI conjI) auto
  then show ?thesis
    by (auto simp: lru_rep_def recency_ok_def three_keys_def fun_eq_iff)
qed

theorem readers_keep_keys_witness:
  "lru_data (rd_cache (readers_run id (readers_init three_keys)
     [Call 0 ''b'', Step 0, Step 0, Step 0])) = lru_data three_keys"
  using readers_keep_keys [OF three_keys_rep, of id "[Call 0 ''b'', Step 0, Step 0, Step 0]"]
  by (simp add: Let_def)

text \<open>
  Two requests for the last key: reader 1 finds it and moves it to the front while
  reader 0 stands at the first node.
\<close>

definition panic_schedule :: "string event list" where
  "panic_schedule =
     [Call 0 ''c'', Call 1 ''c'', Step 1, Step 1, Step 1, Step 1, Step 0, Step 0, Step 0]"

text \<open>
  Reader 0 stands at the second node when reader 1 moves that node to the front.
\<close>

definition miss_schedule :: "string event list" where
  "miss_schedule =
     [Call 0 ''c'', Step 0, Call 1 ''b'', Step 1, Step 1, Step 1, Step 0, Step 0, Step 0]"

text \<open>Both readers find the index of the last key before either moves it.\<close>

definition wrong_key_schedule :: "string event list" where
  "wrong_key_schedule =
     [Call 0 ''c'', Step 0, Step 0, Step 0, Call 1 ''c'', Step 1, Step 1, Step 1, Step 1, Step 0]"

lemmas schedule_defs =
  panic_schedule_def miss_schedule_def wrong_key_schedule_def readers_init_def three_keys_def
  reader_start_def Len_def deref_def MoveToFirst_def getNodeAt_def getFirstNode_def
  getLastNode_def set_next_def recalculateTail_def setTail_def numeral_eq_Suc Let_def

text \<open>
  Two \<open>Get\<close>s of the same cached key, the least recently used of three, can
  make the slower one follow a nil pointer and panic.
\<close>

lemma concurrent_get_panics:
  "lru_rep three_keys [(''a'', 1), (''b'', 2), (''c'', 3)] \<and>
   rd_thread (readers_run id (readers_init three_keys) panic_schedule) 0 = ReaderPanicked \<and>
   rd_thread (readers_run id (readers_init three_keys) panic_schedule) 1 = Finished ''c'' True None"
  using three_keys_rep by (simp add: schedule_defs)

text \<open>
  A \<open>Get\<close> of a cached key beside a \<open>Get\<close> of another cached key can return
  the unexpected-behaviour error instead of the value.
\<close>

lemma concurrent_get_fails:
  "\<exists>e. rd_thread (readers_run id (readers_init three_keys) miss_schedule) 0 =
     Finished ''c'' False (Some e) \<and> errors_is e ErrUnexpectedLinkedListBehaviour \<and>
   lru_data (rd_cache (readers_run id (readers_init three_keys) miss_schedule)) ''c'' = Some 3"
  by (simp add: schedule_defs)

text \<open>
  Two \<open>Get\<close>s of the same key can leave another key, which nobody asked for, as
  the most recently used one.
\<close>

lemma concurrent_get_promotes_wrong_key:
  "let s = readers_run id (readers_init three_keys) wrong_key_schedule in
   rd_thread s 0 = Finished ''c'' True None \<and> rd_thread s 1 = Finished ''c'' True None \<and>
   GetKeys (rd_cache s) = Some [''b'', ''c'', ''a'']"
  by (simp add: schedule_defs GetKeys_def GetAll_def)


end
