(* ===== verification/Models.thy ===== *)
theory Models
  imports Prelude
begin

text \<open>
  The entities of \<open>internal/models/entities.go\<close>: \<open>Order\<close> with its
  \<open>Delivery\<close>, \<open>Payment\<close> and list of \<open>OrderItem\<close>. Strings are byte
  strings, numbers are 64-bit words read as signed, times are as in \<open>Prelude\<close>. A
  field is prefixed by its struct. \<open>zero_order\<close> is Go's zero value.
\<close>

record delivery =
  dlv_OrderID :: string
  dlv_Name :: string
  dlv_Phone :: string
  dlv_Zip :: string
  dlv_City :: string
  dlv_Address :: string
  dlv_Region :: string
  dlv_Email :: string

record payment =
  pay_OrderID :: string
  pay_Transaction :: string
  pay_RequestID :: string
  pay_Currency :: string
  pay_Provider :: string
  pay_Amount :: go_int
  pay_PaymentDt :: go_int64
  pay_Bank :: string
  pay_DeliveryCost :: go_int
  pay_GoodsTotal :: go_int
  pay_CustomFee :: go_int

record order_item =
  itm_OrderID :: string
  itm_ChrtID :: go_int
  itm_TrackNumber :: string
  itm_Price :: go_int
  itm_RID :: string
  itm_Name :: string
  itm_Sale :: go_int
  itm_Size :: string
  itm_TotalPrice :: go_int
  itm_NmID :: go_int
  itm_Brand :: string
  itm_Status :: go_int

record order =
  ord_OrderUID :: string
  ord_TrackNumber :: string
  ord_Entry :: string
  ord_Locale :: string
  ord_InternalSignature :: string
  ord_CustomerID :: string
  ord_DeliveryService :: string
  ord_ShardKey :: string
  ord_SmID :: go_int
  ord_DateCreated :: go_time
  ord_OofShard :: string
  ord_CreatedAt :: go_time
  ord_UpdatedAt :: go_time
  ord_Delivery :: delivery
  ord_Payment :: payment
  ord_Items :: "order_item list"

definition zero_delivery :: delivery where
  "zero_delivery = \<lparr>dlv_OrderID = [], dlv_Name = [], dlv_Phone = [], dlv_Zip = [], dlv_City = [],
     dlv_Address = [], dlv_Region = [], dlv_Email = []\<rparr>"

definition zero_payment :: payment where
  "zero_payment = \<lparr>pay_OrderID = [], pay_Transaction = [], pay_RequestID = [], pay_Currency = [],
     pay_Provider = [], pay_Amount = 0, pay_PaymentDt = 0, pay_Bank = [], pay_DeliveryCost = 0,
     pay_GoodsTotal = 0, pay_CustomFee = 0\<rparr>"

definition zero_item :: order_item where
  "zero_item = \<lparr>itm_OrderID = [], itm_ChrtID = 0, itm_TrackNumber = [], itm_Price = 0, itm_RID = [],
     itm_Name = [], itm_Sale = 0, itm_Size = [], itm_TotalPrice = 0, itm_NmID = 0, itm_Brand = [],
     itm_Status = 0\<rparr>"

definition zero_order :: order where
  "zero_order = \<lparr>ord_OrderUID = [], ord_TrackNumber = [], ord_Entry = [], ord_Locale = [],
     ord_InternalSignature = [], ord_CustomerID = [], ord_DeliveryService = [], ord_ShardKey = [],
     ord_SmID = 0, ord_DateCreated = 0, ord_OofShard = [], ord_CreatedAt = 0, ord_UpdatedAt = 0,
     ord_Delivery = zero_delivery, ord_Payment = zero_payment, ord_Items = []\<rparr>"

text \<open>\<open>time.Time.IsZero\<close> and \<open>time.Time.After\<close>.\<close>

definition IsZero :: "go_time \<Rightarrow> bool" where
  "IsZero t \<longleftrightarrow> t = 0"

definition After :: "go_time \<Rightarrow> go_time \<Rightarrow> bool" where
  "After t u \<longleftrightarrow> t > u"

text \<open>The order of the README's example, with one item, used as a concrete input.\<close>

definition sample_item :: order_item where
  "sample_item = \<lparr>itm_OrderID = ''b563'', itm_ChrtID = 9934930, itm_TrackNumber = ''WBILMTESTTRACK'',
     itm_Price = 453, itm_RID = ''ab4219087a764ae0btest'', itm_Name = ''Mascaras'', itm_Sale = 30,
     itm_Size = ''0'', itm_TotalPrice = 317, itm_NmID = 2389212, itm_Brand = ''Vivienne Sabo'',
     itm_Status = 202\<rparr>"

definition sample_order :: order where
  "sample_order = \<lparr>ord_OrderUID = ''b563'', ord_TrackNumber = ''WBILMTESTTRACK'', ord_Entry = ''WBIL'',
     ord_Locale = ''en'', ord_InternalSignature = [], ord_CustomerID = ''test'',
     ord_DeliveryService = ''meest'', ord_ShardKey = ''9'', ord_SmID = 99, ord_DateCreated = 1000,
     ord_OofShard = ''1'', ord_CreatedAt = 0, ord_UpdatedAt = 0,
     ord_Delivery = \<lparr>dlv_OrderID = ''b563'', dlv_Name = ''Test Testov'', dlv_Phone = ''+9720000000'',
       dlv_Zip = ''2639809'', dlv_City = ''Kiryat Mozkin'', dlv_Address = ''Ploshad Mira 15'',
       dlv_Region = ''Kraiot'', dlv_Email = ''test@gmail.com''\<rparr>,
     ord_Payment = \<lparr>pay_OrderID = ''b563'', pay_Transaction = ''b563'', pay_RequestID = [],
       pay_Currency = ''USD'', pay_Provider = ''wbpay'', pay_Amount = 1817,
       pay_PaymentDt = 1637907727, pay_Bank = ''alpha'', pay_DeliveryCost = 1500,
       pay_GoodsTotal = 317, pay_CustomFee = 0\<rparr>,
     ord_Items = [sample_item]\<rparr>"

end
