(* ===== verification/ApiSchemas.thy ===== *)
theory ApiSchemas
  imports Models
begin

text \<open>
  The types of the HTTP API (\<open>internal/api/oas_schemas_gen.go\<close>), whose fields are their
  getters and setters, and JSON documents. The encoder and decoder of \<open>jx\<close> and ogen's
  date format come from outside: a document is the value of type \<open>json\<close> that the calls on
  the encoder write and the calls on the decoder read, an object being its fields in order, and
  \<open>jx\<close> holds the errors of the decoder and the date format.
\<close>

section \<open>Schemas\<close>

record opt_string =
  os_Value :: string
  os_Set :: bool

definition NewOptString :: "string \<Rightarrow> opt_string" where
  "NewOptString v = \<lparr>os_Value = v, os_Set = True\<rparr>"

definition IsSet :: "opt_string \<Rightarrow> bool" where
  "IsSet opt = os_Set opt"

definition Reset :: "opt_string \<Rightarrow> opt_string" where
  "Reset opt = opt\<lparr>os_Value := [], os_Set := False\<rparr>"

definition SetTo :: "opt_string \<Rightarrow> string \<Rightarrow> opt_string" where
  "SetTo opt v = opt\<lparr>os_Set := True, os_Value := v\<rparr>"

definition Get_opt :: "opt_string \<Rightarrow> string \<times> bool" where
  "Get_opt opt = (if \<not> os_Set opt then ([], False) else (os_Value opt, True))"

definition Or_opt :: "opt_string \<Rightarrow> string \<Rightarrow> string" where
  "Or_opt opt d = (case Get_opt opt of (v, ok) \<Rightarrow> if ok then v else d)"

record api_delivery =
  ad_Name :: string
  ad_Phone :: string
  ad_Zip :: string
  ad_City :: string
  ad_Address :: string
  ad_Region :: string
  ad_Email :: string

record api_payment =
  ap_Transaction :: string
  ap_RequestID :: opt_string
  ap_Currency :: string
  ap_Provider :: string
  ap_Amount :: go_int
  ap_PaymentDt :: go_int64
  ap_Bank :: string
  ap_DeliveryCost :: go_int
  ap_GoodsTotal :: go_int
  ap_CustomFee :: go_int

record api_item =
  ai_ChrtID :: go_int64
  ai_TrackNumber :: string
  ai_Price :: go_int
  ai_Rid :: string
  ai_Name :: string
  ai_Sale :: go_int
  ai_Size :: string
  ai_TotalPrice :: go_int
  ai_NmID :: go_int64
  ai_Brand :: string
  ai_Status :: go_int

text \<open>A Go slice may be nil; \<open>ao_Items\<close> is \<open>None\<close> then.\<close>

record api_order =
  ao_OrderUID :: string
  ao_TrackNumber :: string
  ao_Entry :: string
  ao_Delivery :: api_delivery
  ao_Payment :: api_payment
  ao_Items :: "api_item list option"
  ao_Locale :: string
  ao_InternalSignature :: opt_string
  ao_CustomerID :: string
  ao_DeliveryService :: string
  ao_Shardkey :: string
  ao_SmID :: go_int
  ao_DateCreated :: go_time
  ao_OofShard :: string

record error_response =
  er_Message :: string

record bad_request_response =
  br_Message :: string

record not_found_response =
  nf_Message :: string

record error_status =
  es_StatusCode :: int
  es_Response :: error_response

text \<open>The interface \<open>OrderIDGetRes\<close>: the types that implement it.\<close>

datatype order_id_get_res =
    OrderResponse api_order
  | BadRequestErrorResponse bad_request_response
  | NotFoundErrorResponse not_found_response
  | ErrorResponse error_response

section \<open>JSON\<close>

datatype json =
    JNull
  | JBool bool
  | JInt int
  | JNumber string
  | JStr string
  | JArr "json list"
  | JObj "(string \<times> json) list"

text \<open>
  Errors of decoding and validation: an error value, a wrapped one, or
  \<open>validate.Error\<close>, the list of failed fields.
\<close>

datatype api_error =
    ApiErr go_error
  | ApiWrap string api_error
  | FieldErrors "(string \<times> api_error) list"

record jx =
  jx_type_error :: "string \<Rightarrow> json \<Rightarrow> go_error"
  jx_format_time :: "go_time \<Rightarrow> string"
  jx_parse_time :: "string \<Rightarrow> go_error + go_time"

text \<open>Methods of the decoder.\<close>

definition d_Str :: "jx \<Rightarrow> json \<Rightarrow> api_error + string" where
  "d_Str jx v = (case v of JStr s \<Rightarrow> Inr s | _ \<Rightarrow> Inl (ApiErr (jx_type_error jx ''string'' v)))"

definition d_Int64 :: "jx \<Rightarrow> json \<Rightarrow> api_error + go_int64" where
  "d_Int64 jx v =
     (case v of
        JInt i \<Rightarrow> if - (2 ^ 63) \<le> i \<and> i < 2 ^ 63 then Inr (word_of_int i)
                   else Inl (ApiErr (jx_type_error jx ''int64'' v))
      | _ \<Rightarrow> Inl (ApiErr (jx_type_error jx ''int64'' v)))"

abbreviation d_Int :: "jx \<Rightarrow> json \<Rightarrow> api_error + go_int" where
  "d_Int \<equiv> d_Int64"

definition DecodeDateTime :: "jx \<Rightarrow> json \<Rightarrow> api_error + go_time" where
  "DecodeDateTime jx v =
     (case d_Str jx v of
        Inl e \<Rightarrow> Inl e
      | Inr s \<Rightarrow> (case jx_parse_time jx s of Inl e \<Rightarrow> Inl (ApiErr e) | Inr t \<Rightarrow> Inr t))"

definition e_Int :: "64 word \<Rightarrow> json" where
  "e_Int w = JInt (sint w)"

definition EncodeDateTime :: "jx \<Rightarrow> go_time \<Rightarrow> json" where
  "EncodeDateTime jx t = JStr (jx_format_time jx t)"

lemma d_Str_JStr [simp]: "d_Str jx (JStr s) = Inr s"
  by (simp add: d_Str_def)

lemma d_Int64_e_Int [simp]: "d_Int64 jx (e_Int w) = Inr w"
  using sint_range_size [of w] by (simp add: d_Int64_def e_Int_def word_size)

lemma DecodeDateTime_Encode [simp]:
  "jx_parse_time jx (jx_format_time jx t) = Inr t \<Longrightarrow> DecodeDateTime jx (EncodeDateTime jx t) = Inr t"
  by (simp add: DecodeDateTime_def EncodeDateTime_def)

section \<open>Zero values\<close>

definition zero_opt :: opt_string where
  "zero_opt = \<lparr>os_Value = [], os_Set = False\<rparr>"

definition zero_api_delivery :: api_delivery where
  "zero_api_delivery = \<lparr>ad_Name = [], ad_Phone = [], ad_Zip = [], ad_City = [], ad_Address = [],
     ad_Region = [], ad_Email = []\<rparr>"

definition zero_api_payment :: api_payment where
  "zero_api_payment = \<lparr>ap_Transaction = [], ap_RequestID = zero_opt, ap_Currency = [], ap_Provider = [],
     ap_Amount = 0, ap_PaymentDt = 0, ap_Bank = [], ap_DeliveryCost = 0, ap_GoodsTotal = 0, ap_CustomFee = 0\<rparr>"

definition zero_api_item :: api_item where
  "zero_api_item = \<lparr>ai_ChrtID = 0, ai_TrackNumber = [], ai_Price = 0, ai_Rid = [], ai_Name = [], ai_Sale = 0,
     ai_Size = [], ai_TotalPrice = 0, ai_NmID = 0, ai_Brand = [], ai_Status = 0\<rparr>"

definition zero_api_order :: api_order where
  "zero_api_order = \<lparr>ao_OrderUID = [], ao_TrackNumber = [], ao_Entry = [], ao_Delivery = zero_api_delivery,
     ao_Payment = zero_api_payment, ao_Items = None, ao_Locale = [], ao_InternalSignature = zero_opt,
     ao_CustomerID = [], ao_DeliveryService = [], ao_Shardkey = [], ao_SmID = 0, ao_DateCreated = 0,
     ao_OofShard = []\<rparr>"

end
