(* ===== verification/ApiJson.thy ===== *)
theory ApiJson
  imports ApiSchemas
begin

text \<open>
  The JSON codec of the API (\<open>internal/api/oas_json_gen.go\<close>): for every type the fields
  it writes, and its decoder, which reads the fields in the order of the document, notes the
  required ones in a bit set, skips unknown ones and at the end reports the required fields that
  are missing. The decoders share their shape (generated code), so the loop over the fields and
  the loop over the bits are each defined once; what differs, the \<open>switch\<close> over the
  names, the masks and the table of names, is a definition for each type.
\<close>

section \<open>The loops of the decoders\<close>

text \<open>\<open>requiredBitSet[i] |= 1 << b\<close>.\<close>

definition set_bit8 :: "nat \<Rightarrow> nat \<Rightarrow> 8 word list \<Rightarrow> 8 word list" where
  "set_bit8 i b bits = bits[i := or (bits ! i) (push_bit b 1)]"

text \<open>\<open>bits.OnesCount8\<close> and \<open>bits.TrailingZeros8\<close>.\<close>

definition OnesCount8 :: "8 word \<Rightarrow> nat" where
  "OnesCount8 w = length (filter (bit w) [0..<8])"

definition TrailingZeros8 :: "8 word \<Rightarrow> nat" where
  "TrailingZeros8 w = length (takeWhile (\<lambda>n. \<not> bit w n) [0..<8])"

text \<open>The inner loop: it runs as often as there were bits, and clears the lowest each time.\<close>

primrec missed_bits :: "string list \<Rightarrow> nat \<Rightarrow> nat \<Rightarrow> 8 word \<Rightarrow> string list" where
  "missed_bits names i 0 result = []"
| "missed_bits names i (Suc missed) result =
     (let bitIdx = TrailingZeros8 result; fieldIdx = i * 8 + bitIdx;
          name = (if fieldIdx < length names then names ! fieldIdx else itoa (int fieldIdx))
      in name # missed_bits names i missed (and result (not (push_bit bitIdx 1))))"

primrec missing_from :: "string list \<Rightarrow> nat \<Rightarrow> 8 word list \<Rightarrow> 8 word list \<Rightarrow> string list" where
  "missing_from names i bits [] = []"
| "missing_from names i bits (msk # masks) =
     (let result = xor (and (bits ! i) msk) msk
      in (if result \<noteq> 0 then missed_bits names i (OnesCount8 result) result else []) @
         missing_from names (Suc i) bits masks)"

definition in_field :: "string \<Rightarrow> api_error + 'a \<Rightarrow> ('a \<Rightarrow> 'b) \<Rightarrow> api_error + 'b" where
  "in_field name res f =
     (case res of
        Inl err \<Rightarrow> Inl (ApiWrap (''decode field '' @ CHR 34 # name @ [CHR 34]) err)
      | Inr x \<Rightarrow> Inr (f x))"

text \<open>\<open>d.ObjBytes\<close> with the callback \<open>field\<close>; its errors are wrapped by the caller.\<close>

primrec obj_fields ::
  "(string \<Rightarrow> json \<Rightarrow> 's \<Rightarrow> api_error + 's) \<Rightarrow> (string \<times> json) list \<Rightarrow> 's \<Rightarrow> api_error + 's" where
  "obj_fields field [] st = Inr st"
| "obj_fields field (kv # kvs) st =
     (case field (fst kv) (snd kv) st of Inl err \<Rightarrow> Inl err | Inr st' \<Rightarrow> obj_fields field kvs st')"

definition decode_object ::
  "jx \<Rightarrow> string \<Rightarrow> (string \<Rightarrow> json \<Rightarrow> 'a \<times> 8 word list \<Rightarrow> api_error + 'a \<times> 8 word list) \<Rightarrow>
   string list \<Rightarrow> 8 word list \<Rightarrow> 'a \<Rightarrow> json \<Rightarrow> api_error + 'a" where
  "decode_object jx type_name field names masks s v =
     (case (case v of
              JObj kvs \<Rightarrow> obj_fields field kvs (s, replicate (length masks) 0)
            | _ \<Rightarrow> Inl (ApiErr (jx_type_error jx ''object'' v))) of
        Inl err \<Rightarrow> Inl (ApiWrap (''decode '' @ type_name) err)
      | Inr (s', bits) \<Rightarrow>
          (let failures = missing_from names 0 bits masks in
           if length failures > 0
           then Inl (FieldErrors (map (\<lambda>name. (name, ApiErr (Sentinel ErrFieldRequired))) failures))
           else Inr s'))"

section \<open>Optional strings\<close>

definition OptString_Encode :: "opt_string \<Rightarrow> json" where
  "OptString_Encode opt = JStr (os_Value opt)"

definition OptString_Decode :: "jx \<Rightarrow> opt_string \<Rightarrow> json \<Rightarrow> api_error + opt_string" where
  "OptString_Decode jx opt v =
     (case d_Str jx v of
        Inl err \<Rightarrow> Inl err
      | Inr s \<Rightarrow> Inr (opt\<lparr>os_Set := True, os_Value := s\<rparr>))"

section \<open>BadRequestErrorResponse\<close>

definition BadRequestErrorResponse_encodeFields :: "bad_request_response \<Rightarrow> (string \<times> json) list" where
  "BadRequestErrorResponse_encodeFields s =
     [(''message'', JStr (br_Message s))]"

definition BadRequestErrorResponse_Encode :: "bad_request_response \<Rightarrow> json" where
  "BadRequestErrorResponse_Encode s = JObj (BadRequestErrorResponse_encodeFields s)"

definition jsonFieldsNameOfBadRequestErrorResponse :: "string list" where
  "jsonFieldsNameOfBadRequestErrorResponse =
     [''message'']"

definition BadRequestErrorResponse_field ::
  "jx \<Rightarrow> string \<Rightarrow> json \<Rightarrow> bad_request_response \<times> 8 word list \<Rightarrow> api_error + bad_request_response \<times> 8 word list" where
  "BadRequestErrorResponse_field jx k v = (\<lambda>(s, bits).
     (if k = ''message''
        then in_field ''message'' (d_Str jx v) (\<lambda>x. (s\<lparr>br_Message := x\<rparr>, (set_bit8 0 0 bits)))
      else Inr (s, bits)))"

definition BadRequestErrorResponse_Decode ::
  "jx \<Rightarrow> bad_request_response \<Rightarrow> json \<Rightarrow> api_error + bad_request_response" where
  "BadRequestErrorResponse_Decode jx =
     decode_object jx ''BadRequestErrorResponse'' (BadRequestErrorResponse_field jx) jsonFieldsNameOfBadRequestErrorResponse [0x01]"

section \<open>ErrorResponse\<close>

definition ErrorResponse_encodeFields :: "error_response \<Rightarrow> (string \<times> json) list" where
  "ErrorResponse_encodeFields s =
     [(''message'', JStr (er_Message s))]"

definition ErrorResponse_Encode :: "error_response \<Rightarrow> json" where
  "ErrorResponse_Encode s = JObj (ErrorResponse_encodeFields s)"

definition jsonFieldsNameOfErrorResponse :: "string list" where
  "jsonFieldsNameOfErrorResponse =
     [''message'']"

definition ErrorResponse_field ::
  "jx \<Rightarrow> string \<Rightarrow> json \<Rightarrow> error_response \<times> 8 word list \<Rightarrow> api_error + error_response \<times> 8 word list" where
  "ErrorResponse_field jx k v = (\<lambda>(s, bits).
     (if k = ''message''
        then in_field ''message'' (d_Str jx v) (\<lambda>x. (s\<lparr>er_Message := x\<rparr>, (set_bit8 0 0 bits)))
      else Inr (s, bits)))"

definition ErrorResponse_Decode ::
  "jx \<Rightarrow> error_response \<Rightarrow> json \<Rightarrow> api_error + error_response" where
  "ErrorResponse_Decode jx =
     decode_object jx ''ErrorResponse'' (ErrorResponse_field jx) jsonFieldsNameOfErrorResponse [0x01]"

section \<open>NotFoundErrorResponse\<close>

definition NotFoundErrorResponse_encodeFields :: "not_found_response \<Rightarrow> (string \<times> json) list" where
  "NotFoundErrorResponse_encodeFields s =
     [(''message'', JStr (nf_Message s))]"

definition NotFoundErrorResponse_Encode :: "not_found_response \<Rightarrow> json" where
  "NotFoundErrorResponse_Encode s = JObj (NotFoundErrorResponse_encodeFields s)"

definition jsonFieldsNameOfNotFoundErrorResponse :: "string list" where
  "jsonFieldsNameOfNotFoundErrorResponse =
     [''message'']"

definition NotFoundErrorResponse_field ::
  "jx \<Rightarrow> string \<Rightarrow> json \<Rightarrow> not_found_response \<times> 8 word list \<Rightarrow> api_error + not_found_response \<times> 8 word list" where
  "NotFoundErrorResponse_field jx k v = (\<lambda>(s, bits).
     (if k = ''message''
        then in_field ''message'' (d_Str jx v) (\<lambda>x. (s\<lparr>nf_Message := x\<rparr>, (set_bit8 0 0 bits)))
      else Inr (s, bits)))"

definition NotFoundErrorResponse_Decode ::
  "jx \<Rightarrow> not_found_response \<Rightarrow> json \<Rightarrow> api_error + not_found_response" where
  "NotFoundErrorResponse_Decode jx =
     decode_object jx ''NotFoundErrorResponse'' (NotFoundErrorResponse_field jx) jsonFieldsNameOfNotFoundErrorResponse [0x01]"

section \<open>Delivery\<close>

definition Delivery_encodeFields :: "api_delivery \<Rightarrow> (string \<times> json) list" where
  "Delivery_encodeFields s =
     [(''name'', JStr (ad_Name s)),
      (''phone'', JStr (ad_Phone s)),
      (''zip'', JStr (ad_Zip s)),
      (''city'', JStr (ad_City s)),
      (''address'', JStr (ad_Address s)),
      (''region'', JStr (ad_Region s)),
      (''email'', JStr (ad_Email s))]"

definition Delivery_Encode :: "api_delivery \<Rightarrow> json" where
  "Delivery_Encode s = JObj (Delivery_encodeFields s)"

definition jsonFieldsNameOfDelivery :: "string list" where
  "jsonFieldsNameOfDelivery =
     [''name'', ''phone'', ''zip'', ''city'', ''address'',
      ''region'', ''email'']"

definition Delivery_field ::
  "jx \<Rightarrow> string \<Rightarrow> json \<Rightarrow> api_delivery \<times> 8 word list \<Rightarrow> api_error + api_delivery \<times> 8 word list" where
  "Delivery_field jx k v = (\<lambda>(s, bits).
     (if k = ''name''
        then in_field ''name'' (d_Str jx v) (\<lambda>x. (s\<lparr>ad_Name := x\<rparr>, (set_bit8 0 0 bits)))
      else if k = ''phone''
        then in_field ''phone'' (d_Str jx v) (\<lambda>x. (s\<lparr>ad_Phone := x\<rparr>, (set_bit8 0 1 bits)))
      else if k = ''zip''
        then in_field ''zip'' (d_Str jx v) (\<lambda>x. (s\<lparr>ad_Zip := x\<rparr>, (set_bit8 0 2 bits)))
      else if k = ''city''
        then in_field ''city'' (d_Str jx v) (\<lambda>x. (s\<lparr>ad_City := x\<rparr>, (set_bit8 0 3 bits)))
      else if k = ''address''
        then in_field ''address'' (d_Str jx v) (\<lambda>x. (s\<lparr>ad_Address := x\<rparr>, (set_bit8 0 4 bits)))
      else if k = ''region''
        then in_field ''region'' (d_Str jx v) (\<lambda>x. (s\<lparr>ad_Region := x\<rparr>, (set_bit8 0 5 bits)))
      else if k = ''email''
        then in_field ''email'' (d_Str jx v) (\<lambda>x. (s\<lparr>ad_Email := x\<rparr>, (set_bit8 0 6 bits)))
      else Inr (s, bits)))"

definition Delivery_Decode ::
  "jx \<Rightarrow> api_delivery \<Rightarrow> json \<Rightarrow> api_error + api_delivery" where
  "Delivery_Decode jx =
     decode_object jx ''Delivery'' (Delivery_field jx) jsonFieldsNameOfDelivery [0x7F]"

section \<open>OrderItem\<close>

definition OrderItem_encodeFields :: "api_item \<Rightarrow> (string \<times> json) list" where
  "OrderItem_encodeFields s =
     [(''chrt_id'', e_Int (ai_ChrtID s)),
      (''track_number'', JStr (ai_TrackNumber s)),
      (''price'', e_Int (ai_Price s)),
      (''rid'', JStr (ai_Rid s)),
      (''name'', JStr (ai_Name s)),
      (''sale'', e_Int (ai_Sale s)),
      (''size'', JStr (ai_Size s)),
      (''total_price'', e_Int (ai_TotalPrice s)),
      (''nm_id'', e_Int (ai_NmID s)),
      (''brand'', JStr (ai_Brand s)),
      (''status'', e_Int (ai_Status s))]"

definition OrderItem_Encode :: "api_item \<Rightarrow> json" where
  "OrderItem_Encode s = JObj (OrderItem_encodeFields s)"

definition jsonFieldsNameOfOrderItem :: "string list" where
  "jsonFieldsNameOfOrderItem =
     [''chrt_id'', ''track_number'', ''price'', ''rid'', ''name'',
      ''sale'', ''size'', ''total_price'', ''nm_id'', ''brand'',
      ''status'']"

definition OrderItem_field ::
  "jx \<Rightarrow> string \<Rightarrow> json \<Rightarrow> api_item \<times> 8 word list \<Rightarrow> api_error + api_item \<times> 8 word list" where
  "OrderItem_field jx k v = (\<lambda>(s, bits).
     (if k = ''chrt_id''
        then in_field ''chrt_id'' (d_Int64 jx v) (\<lambda>x. (s\<lparr>ai_ChrtID := x\<rparr>, (set_bit8 0 0 bits)))
      else if k = ''track_number''
        then in_field ''track_number'' (d_Str jx v) (\<lambda>x. (s\<lparr>ai_TrackNumber := x\<rparr>, (set_bit8 0 1 bits)))
      else if k = ''price''
        then in_field ''price'' (d_Int jx v) (\<lambda>x. (s\<lparr>ai_Price := x\<rparr>, (set_bit8 0 2 bits)))
      else if k = ''rid''
        then in_field ''rid'' (d_Str jx v) (\<lambda>x. (s\<lparr>ai_Rid := x\<rparr>, (set_bit8 0 3 bits)))
      else if k = ''name''
        then in_field ''name'' (d_Str jx v) (\<lambda>x. (s\<lparr>ai_Name := x\<rparr>, (set_bit8 0 4 bits)))
      else if k = ''sale''
        then in_field ''sale'' (d_Int jx v) (\<lambda>x. (s\<lparr>ai_Sale := x\<rparr>, (set_bit8 0 5 bits)))
      else if k = ''size''
        then in_field ''size'' (d_Str jx v) (\<lambda>x. (s\<lparr>ai_Size := x\<rparr>, (set_bit8 0 6 bits)))
      else if k = ''total_price''
        then in_field ''total_price'' (d_Int jx v) (\<lambda>x. (s\<lparr>ai_TotalPrice := x\<rparr>, (set_bit8 0 7 bits)))
      else if k = ''nm_id''
        then in_field ''nm_id'' (d_Int64 jx v) (\<lambda>x. (s\<lparr>ai_NmID := x\<rparr>, (set_bit8 1 0 bits)))
      else if k = ''brand''
        then in_field ''brand'' (d_Str jx v) (\<lambda>x. (s\<lparr>ai_Brand := x\<rparr>, (set_bit8 1 1 bits)))
      else if k = ''status''
        then in_field ''status'' (d_Int jx v) (\<lambda>x. (s\<lparr>ai_Status := x\<rparr>, (set_bit8 1 2 bits)))
      else Inr (s, bits)))"

definition OrderItem_Decode ::
  "jx \<Rightarrow> api_item \<Rightarrow> json \<Rightarrow> api_error + api_item" where
  "OrderItem_Decode jx =
     decode_object jx ''OrderItem'' (OrderItem_field jx) jsonFieldsNameOfOrderItem [0xFF, 0x07]"

section \<open>Payment\<close>

definition Payment_encodeFields :: "api_payment \<Rightarrow> (string \<times> json) list" where
  "Payment_encodeFields s =
     [(''transaction'', JStr (ap_Transaction s))] @
     (if os_Set (ap_RequestID s) then [(''request_id'', OptString_Encode (ap_RequestID s))] else []) @
     [(''currency'', JStr (ap_Currency s)),
      (''provider'', JStr (ap_Provider s)),
      (''amount'', e_Int (ap_Amount s)),
      (''payment_dt'', e_Int (ap_PaymentDt s)),
      (''bank'', JStr (ap_Bank s)),
      (''delivery_cost'', e_Int (ap_DeliveryCost s)),
      (''goods_total'', e_Int (ap_GoodsTotal s)),
      (''custom_fee'', e_Int (ap_CustomFee s))]"

definition Payment_Encode :: "api_payment \<Rightarrow> json" where
  "Payment_Encode s = JObj (Payment_encodeFields s)"

definition jsonFieldsNameOfPayment :: "string list" where
  "jsonFieldsNameOfPayment =
     [''transaction'', ''request_id'', ''currency'', ''provider'', ''amount'',
      ''payment_dt'', ''bank'', ''delivery_cost'', ''goods_total'', ''custom_fee'']"

definition Payment_field ::
  "jx \<Rightarrow> string \<Rightarrow> json \<Rightarrow> api_payment \<times> 8 word list \<Rightarrow> api_error + api_payment \<times> 8 word list" where
  "Payment_field jx k v = (\<lambda>(s, bits).
     (if k = ''transaction''
        then in_field ''transaction'' (d_Str jx v) (\<lambda>x. (s\<lparr>ap_Transaction := x\<rparr>, (set_bit8 0 0 bits)))
      else if k = ''request_id''
        then in_field ''request_id'' (OptString_Decode jx (Reset (ap_RequestID s)) v) (\<lambda>x. (s\<lparr>ap_RequestID := x\<rparr>, bits))
      else if k = ''currency''
        then in_field ''currency'' (d_Str jx v) (\<lambda>x. (s\<lparr>ap_Currency := x\<rparr>, (set_bit8 0 2 bits)))
      else if k = ''provider''
        then in_field ''provider'' (d_Str jx v) (\<lambda>x. (s\<lparr>ap_Provider := x\<rparr>, (set_bit8 0 3 bits)))
      else if k = ''amount''
        then in_field ''amount'' (d_Int jx v) (\<lambda>x. (s\<lparr>ap_Amount := x\<rparr>, (set_bit8 0 4 bits)))
      else if k = ''payment_dt''
        then in_field ''payment_dt'' (d_Int64 jx v) (\<lambda>x. (s\<lparr>ap_PaymentDt := x\<rparr>, (set_bit8 0 5 bits)))
      else if k = ''bank''
        then in_field ''bank'' (d_Str jx v) (\<lambda>x. (s\<lparr>ap_Bank := x\<rparr>, (set_bit8 0 6 bits)))
      else if k = ''delivery_cost''
        then in_field ''delivery_cost'' (d_Int jx v) (\<lambda>x. (s\<lparr>ap_DeliveryCost := x\<rparr>, (set_bit8 0 7 bits)))
      else if k = ''goods_total''
        then in_field ''goods_total'' (d_Int jx v) (\<lambda>x. (s\<lparr>ap_GoodsTotal := x\<rparr>, (set_bit8 1 0 bits)))
      else if k = ''custom_fee''
        then in_field ''custom_fee'' (d_Int jx v) (\<lambda>x. (s\<lparr>ap_CustomFee := x\<rparr>, (set_bit8 1 1 bits)))
      else Inr (s, bits)))"

definition Payment_Decode ::
  "jx \<Rightarrow> api_payment \<Rightarrow> json \<Rightarrow> api_error + api_payment" where
  "Payment_Decode jx =
     decode_object jx ''Payment'' (Payment_field jx) jsonFieldsNameOfPayment [0xFD, 0x03]"

section \<open>OrderResponse\<close>

definition OrderResponse_encodeFields :: "jx \<Rightarrow> api_order \<Rightarrow> (string \<times> json) list" where
  "OrderResponse_encodeFields jx s =
     [(''order_uid'', JStr (ao_OrderUID s)),
      (''track_number'', JStr (ao_TrackNumber s)),
      (''entry'', JStr (ao_Entry s)),
      (''delivery'', Delivery_Encode (ao_Delivery s)),
      (''payment'', Payment_Encode (ao_Payment s)),
      (''items'', JArr (map OrderItem_Encode (case ao_Items s of None \<Rightarrow> [] | Some items \<Rightarrow> items))),
      (''locale'', JStr (ao_Locale s))] @
     (if os_Set (ao_InternalSignature s) then [(''internal_signature'', OptString_Encode (ao_InternalSignature s))] else []) @
     [(''customer_id'', JStr (ao_CustomerID s)),
      (''delivery_service'', JStr (ao_DeliveryService s)),
      (''shardkey'', JStr (ao_Shardkey s)),
      (''sm_id'', e_Int (ao_SmID s)),
      (''date_created'', EncodeDateTime jx (ao_DateCreated s)),
      (''oof_shard'', JStr (ao_OofShard s))]"

definition OrderResponse_Encode :: "jx \<Rightarrow> api_order \<Rightarrow> json" where
  "OrderResponse_Encode jx s = JObj (OrderResponse_encodeFields jx s)"

definition jsonFieldsNameOfOrderResponse :: "string list" where
  "jsonFieldsNameOfOrderResponse =
     [''order_uid'', ''track_number'', ''entry'', ''delivery'', ''payment'',
      ''items'', ''locale'', ''internal_signature'', ''customer_id'', ''delivery_service'',
      ''shardkey'', ''sm_id'', ''date_created'', ''oof_shard'']"

text \<open>The elements of the \<open>items\<close> array, each into a new \<open>OrderItem\<close>.\<close>

primrec decode_elems :: "jx \<Rightarrow> json list \<Rightarrow> api_error + api_item list" where
  "decode_elems jx [] = Inr []"
| "decode_elems jx (v # vs) =
     (case OrderItem_Decode jx zero_api_item v of
        Inl e \<Rightarrow> Inl e
      | Inr elem \<Rightarrow> (case decode_elems jx vs of Inl e \<Rightarrow> Inl e | Inr es \<Rightarrow> Inr (elem # es)))"

definition decode_items :: "jx \<Rightarrow> json \<Rightarrow> api_error + api_item list" where
  "decode_items jx v =
     (case v of JArr vs \<Rightarrow> decode_elems jx vs | _ \<Rightarrow> Inl (ApiErr (jx_type_error jx ''array'' v)))"

definition OrderResponse_field ::
  "jx \<Rightarrow> string \<Rightarrow> json \<Rightarrow> api_order \<times> 8 word list \<Rightarrow> api_error + api_order \<times> 8 word list" where
  "OrderResponse_field jx k v = (\<lambda>(s, bits).
     (if k = ''order_uid''
        then in_field ''order_uid'' (d_Str jx v) (\<lambda>x. (s\<lparr>ao_OrderUID := x\<rparr>, (set_bit8 0 0 bits)))
      else if k = ''track_number''
        then in_field ''track_number'' (d_Str jx v) (\<lambda>x. (s\<lparr>ao_TrackNumber := x\<rparr>, (set_bit8 0 1 bits)))
      else if k = ''entry''
        then in_field ''entry'' (d_Str jx v) (\<lambda>x. (s\<lparr>ao_Entry := x\<rparr>, (set_bit8 0 2 bits)))
      else if k = ''delivery''
        then in_field ''delivery'' (Delivery_Decode jx (ao_Delivery s) v) (\<lambda>x. (s\<lparr>ao_Delivery := x\<rparr>, (set_bit8 0 3 bits)))
      else if k = ''payment''
        then in_field ''payment'' (Payment_Decode jx (ao_Payment s) v) (\<lambda>x. (s\<lparr>ao_Payment := x\<rparr>, (set_bit8 0 4 bits)))
      else if k = ''items''
        then in_field ''items'' (decode_items jx v) (\<lambda>x. (s\<lparr>ao_Items := Some x\<rparr>, (set_bit8 0 5 bits)))
      else if k = ''locale''
        then in_field ''locale'' (d_Str jx v) (\<lambda>x. (s\<lparr>ao_Locale := x\<rparr>, (set_bit8 0 6 bits)))
      else if k = ''internal_signature''
        then in_field ''internal_signature'' (OptString_Decode jx (Reset (ao_InternalSignature s)) v) (\<lambda>x. (s\<lparr>ao_InternalSignature := x\<rparr>, bits))
      else if k = ''customer_id''
        then in_field ''customer_id'' (d_Str jx v) (\<lambda>x. (s\<lparr>ao_CustomerID := x\<rparr>, (set_bit8 1 0 bits)))
      else if k = ''delivery_service''
        then in_field ''delivery_service'' (d_Str jx v) (\<lambda>x. (s\<lparr>ao_DeliveryService := x\<rparr>, (set_bit8 1 1 bits)))
      else if k = ''shardkey''
        then in_field ''shardkey'' (d_Str jx v) (\<lambda>x. (s\<lparr>ao_Shardkey := x\<rparr>, (set_bit8 1 2 bits)))
      else if k = ''sm_id''
        then in_field ''sm_id'' (d_Int jx v) (\<lambda>x. (s\<lparr>ao_SmID := x\<rparr>, (set_bit8 1 3 bits)))
      else if k = ''date_created''
        then in_field ''date_created'' (DecodeDateTime jx v) (\<lambda>x. (s\<lparr>ao_DateCreated := x\<rparr>, (set_bit8 1 4 bits)))
      else if k = ''oof_shard''
        then in_field ''oof_shard'' (d_Str jx v) (\<lambda>x. (s\<lparr>ao_OofShard := x\<rparr>, (set_bit8 1 5 bits)))
      else Inr (s, bits)))"

definition OrderResponse_Decode ::
  "jx \<Rightarrow> api_order \<Rightarrow> json \<Rightarrow> api_error + api_order" where
  "OrderResponse_Decode jx =
     decode_object jx ''OrderResponse'' (OrderResponse_field jx) jsonFieldsNameOfOrderResponse [0x7F, 0x3F]"

end
