(* ===== verification/ApiJsonProps.thy ===== *)
theory ApiJsonProps
  imports ApiJson
begin

text \<open>
  What the codec guarantees. The loop over the bit set reports exactly the required fields
  whose bit is clear, in the order of the table; every decoder reports exactly the
  required fields that the document lacks (\<open>object_decoder\<close>, interpreted for the four
  composite types); and decoding what was encoded gives the value back.
\<close>

section \<open>The bit loop\<close>

lemma filter_first:
  assumes "distinct xs" "filter P xs \<noteq> []"
  shows "filter P xs = xs ! length (takeWhile (\<lambda>x. \<not> P x) xs) #
    filter (\<lambda>x. P x \<and> x \<noteq> xs ! length (takeWhile (\<lambda>x. \<not> P x) xs)) xs"
  using assms
proof (induction xs)
  case (Cons y xs)
  show ?case
  proof (cases "P y")
    case True
    then have "filter (\<lambda>x. P x \<and> x \<noteq> y) xs = filter P xs"
      using Cons.prems by (intro filter_cong) auto
    then show ?thesis using True by simp
  next
    case False
    let ?z = "xs ! length (takeWhile (\<lambda>x. \<not> P x) xs)"
    have "filter P xs = ?z # filter (\<lambda>x. P x \<and> x \<noteq> ?z) xs" using Cons False by simp
    then show ?thesis using False by simp
  qed
qed simp

lemma TrailingZeros8_nth:
  assumes "filter (bit w) [0..<8] \<noteq> []"
  shows "[0..<8] ! length (takeWhile (\<lambda>n. \<not> bit w n) [0..<8]) = TrailingZeros8 w" "TrailingZeros8 w < 8"
proof -
  have "length (takeWhile (\<lambda>n. \<not> bit w n) [0..<8]) < length [0..<8]"
    using assms by (metis filter_False length_takeWhile_le order_neq_le_trans takeWhile_eq_all_conv
        takeWhile_eq_take take_all_iff nle_le)
  then show "[0..<8] ! length (takeWhile (\<lambda>n. \<not> bit w n) [0..<8]) = TrailingZeros8 w" "TrailingZeros8 w < 8"
    unfolding TrailingZeros8_def by (simp_all del: upt_Suc)
qed

lemma bit_clear:
  "n < 8 \<Longrightarrow> bit (and w (not (push_bit t 1))) n \<longleftrightarrow> bit w n \<and> n \<noteq> t" for w :: "8 word"
  by (auto simp: bit_and_iff bit_not_iff bit_exp_iff)

definition field_name :: "string list \<Rightarrow> nat \<Rightarrow> string" where
  "field_name names j = (if j < length names then names ! j else itoa (int j))"

lemma missed_bits_eq:
  "n = OnesCount8 w \<Longrightarrow>
     missed_bits names i n w = map (\<lambda>b. field_name names (i * 8 + b)) (filter (bit w) [0..<8])"
proof (induction n arbitrary: w)
  case 0
  then show ?case by (simp add: OnesCount8_def del: upt_Suc)
next
  case (Suc n)
  let ?t = "TrailingZeros8 w" and ?w = "and w (not (push_bit (TrailingZeros8 w) 1))"
  have ne: "filter (bit w) [0..<8] \<noteq> []" using Suc.prems by (auto simp: OnesCount8_def)
  have rest: "filter (\<lambda>n. bit w n \<and> n \<noteq> ?t) [0..<8] = filter (bit ?w) [0..<8]"
    by (rule filter_cong) (use bit_clear in auto)
  have split: "filter (bit w) [0..<8] = ?t # filter (bit ?w) [0..<8]"
    using filter_first [OF distinct_upt ne] unfolding TrailingZeros8_nth(1) [OF ne] rest .
  then have "n = OnesCount8 ?w" using Suc.prems by (simp add: OnesCount8_def del: upt_Suc)
  then show ?case using Suc.IH split by (simp add: Let_def field_name_def del: upt_Suc)
qed

lemma missing_from_eq:
  "missing_from names i bits masks = concat (map (\<lambda>(j, msk).
     map (\<lambda>b. field_name names (j * 8 + b)) (filter (\<lambda>b. bit msk b \<and> \<not> bit (bits ! j) b) [0..<8]))
     (enumerate i masks))"
proof (induction masks arbitrary: i)
  case (Cons msk masks)
  let ?r = "xor (and (bits ! i) msk) msk"
  have r: "filter (bit ?r) [0..<8] = filter (\<lambda>b. bit msk b \<and> \<not> bit (bits ! i) b) [0..<8]"
    by (rule filter_cong) (auto simp: bit_xor_iff bit_and_iff)
  have "(if ?r \<noteq> 0 then missed_bits names i (OnesCount8 ?r) ?r else []) =
      map (\<lambda>b. field_name names (i * 8 + b)) (filter (bit ?r) [0..<8])"
    by (simp add: missed_bits_eq del: upt_Suc)
  then show ?case using Cons.IH r by (simp add: Let_def del: upt_Suc)
qed simp

section \<open>Missing fields\<close>

lemma bit_set_bit8:
  assumes "i < length bits" "b' < 8"
  shows "bit (set_bit8 i b bits ! i') b' \<longleftrightarrow> bit (bits ! i') b' \<or> (i' = i \<and> b' = b)"
  using assms by (cases "i' = i") (auto simp: set_bit8_def bit_or_iff bit_exp_iff)

lemma length_set_bit8 [simp]: "length (set_bit8 i b bits) = length bits"
  by (simp add: set_bit8_def)

text \<open>The bit of field \<open>j\<close> in a bit set of bytes.\<close>

definition field_bit :: "8 word list \<Rightarrow> nat \<Rightarrow> bool" where
  "field_bit bytes j \<longleftrightarrow> bit (bytes ! (j div 8)) (j mod 8)"

definition mark_field :: "string list \<Rightarrow> 8 word list \<Rightarrow> string \<Rightarrow> 8 word list \<Rightarrow> 8 word list" where
  "mark_field names masks k bits =
     (case index_of (\<lambda>n. n = k) names of
        Some j \<Rightarrow> if field_bit masks j then set_bit8 (j div 8) (j mod 8) bits else bits
      | None \<Rightarrow> bits)"

definition required_names :: "string list \<Rightarrow> 8 word list \<Rightarrow> string list" where
  "required_names names masks = map ((!) names) (filter (field_bit masks) [0..<length names])"

lemma field_bit_set_bit8:
  "i div 8 < length bits \<Longrightarrow> field_bit (set_bit8 (i div 8) (i mod 8) bits) j \<longleftrightarrow> field_bit bits j \<or> j = i"
  by (auto simp: field_bit_def bit_set_bit8) (metis div_mult_mod_eq)

text \<open>
  The contract between a decoder's \<open>switch\<close> and its tables: a field that is decoded
  without an error sets the bit of its name exactly when the masks require it, names are distinct
  and the masks require only fields that have a name.
\<close>

locale object_decoder =
  fixes names :: "string list"
    and masks :: "8 word list"
    and field :: "string \<Rightarrow> json \<Rightarrow> 'a \<times> 8 word list \<Rightarrow> api_error + 'a \<times> 8 word list"
  assumes names_distinct: "distinct names"
    and masks_named: "\<forall>j \<in> set [0..<8 * length masks]. field_bit masks j \<longrightarrow> j < length names"
    and names_masked: "length names \<le> 8 * length masks"
    and marks: "field k v (s, bits) = Inr (s', bits') \<Longrightarrow> bits' = mark_field names masks k bits"
begin

lemma mark_field_bit:
  assumes "length bits = length masks" "j < length names" "field_bit masks j"
  shows "field_bit (mark_field names masks k bits) j \<longleftrightarrow> field_bit bits j \<or> names ! j = k"
proof (cases "index_of (\<lambda>n. n = k) names")
  case None
  then have "names ! j \<noteq> k" using assms(2) by (auto simp: index_of_None_iff)
  then show ?thesis using None by (simp add: mark_field_def)
next
  case (Some i)
  then have i: "i < length names" "names ! i = k" by (auto dest: index_of_SomeD)
  then have "names ! j = k \<longleftrightarrow> j = i"
    using names_distinct assms(2) by (auto simp: distinct_conv_nth)
  moreover have "i div 8 < length bits" using i names_masked assms(1) by (simp add: less_mult_imp_div_less mult.commute)
  ultimately show ?thesis using Some assms(3) by (auto simp: mark_field_def field_bit_set_bit8)
qed

lemma mark_field_length [simp]: "length (mark_field names masks k bits) = length bits"
  by (simp add: mark_field_def split: option.split)

lemma obj_fields_bits:
  assumes "obj_fields field kvs (s, bits) = Inr (s', bits')" "length bits = length masks"
  shows "length bits' = length masks \<and> (\<forall>j < length names. field_bit masks j \<longrightarrow>
    (field_bit bits' j \<longleftrightarrow> field_bit bits j \<or> names ! j \<in> fst ` set kvs))"
  using assms
proof (induction kvs arbitrary: s bits)
  case (Cons kv kvs)
  obtain s1 bits1 where f: "field (fst kv) (snd kv) (s, bits) = Inr (s1, bits1)"
    using Cons.prems(1) by (auto split: sum.splits)
  have b: "bits1 = mark_field names masks (fst kv) bits" by (rule marks [OF f])
  then have "length bits1 = length masks" using Cons.prems(2) by simp
  then show ?case using Cons.IH [of s1 bits1] Cons.prems f b by (auto simp: mark_field_bit)
qed simp

lemma missing_all:
  assumes "length bits = length masks"
  shows "missing_from names 0 bits masks =
    map ((!) names) (filter (\<lambda>j. field_bit masks j \<and> \<not> field_bit bits j) [0..<length names])"
proof -
  let ?P = "\<lambda>j. field_bit masks j \<and> \<not> field_bit bits j"
  have blocks: "concat (map (\<lambda>(j, msk). map (\<lambda>b. field_name names (j * 8 + b))
        (filter (\<lambda>b. bit msk b \<and> \<not> bit (bits ! j) b) [0..<8])) (enumerate (length us) vs)) =
      map (field_name names) (filter ?P [8 * length us ..< 8 * (length us + length vs)])"
    if "masks = us @ vs" for us vs
    using that
  proof (induction vs arbitrary: us)
    case (Cons w vs)
    have w: "masks ! length us = w" using Cons.prems by simp
    have "[8 * length us ..< 8 * (length us + length (w # vs))] =
        map (\<lambda>b. length us * 8 + b) [0..<8] @ [8 * length (us @ [w]) ..< 8 * (length (us @ [w]) + length vs)]"
      by (rule nth_equalityI) (auto simp: nth_append)
    moreover have "filter ?P (map (\<lambda>b. length us * 8 + b) [0..<8]) =
        map (\<lambda>b. length us * 8 + b) (filter (\<lambda>b. bit w b \<and> \<not> bit (bits ! length us) b) [0..<8])"
      unfolding filter_map by (rule arg_cong [where f = "map _"], rule filter_cong)
        (auto simp: field_bit_def w div_mult_self3)
    ultimately show ?case using Cons.IH [of "us @ [w]"] Cons.prems by (simp add: o_def del: upt_Suc)
  qed simp
  have "filter ?P [0 ..< 8 * length masks] = filter ?P [0..<length names]"
  proof -
    have "[0 ..< 8 * length masks] = [0..<length names] @ [length names ..< 8 * length masks]"
      using names_masked by (metis le0 le_add_diff_inverse upt_add_eq_append)
    moreover have "filter ?P [length names ..< 8 * length masks] = []"
      using masks_named by (fastforce simp: filter_empty_conv)
    ultimately show ?thesis by simp
  qed
  then show ?thesis
    using blocks [of "[]" masks] by (auto simp: missing_from_eq field_name_def intro!: map_cong)
qed

text \<open>The decoder, once its fields are read: it fails exactly when a required name is not a key.\<close>

lemma decode_object_missing:
  assumes "obj_fields field kvs (s, replicate (length masks) 0) = Inr (s', bits)"
  shows "decode_object jx T field names masks s (JObj kvs) =
    (let missing = filter (\<lambda>n. n \<notin> fst ` set kvs) (required_names names masks) in
     if missing = [] then Inr s'
     else Inl (FieldErrors (map (\<lambda>n. (n, ApiErr (Sentinel ErrFieldRequired))) missing)))"
proof -
  have zero: "\<not> field_bit (replicate (length masks) 0) j" if "j < length names" for j
    using that names_masked by (simp add: field_bit_def less_mult_imp_div_less mult.commute)
  note b = obj_fields_bits [OF assms]
  then have len: "length bits = length masks" by simp
  have "filter (\<lambda>j. field_bit masks j \<and> \<not> field_bit bits j) [0..<length names] =
      filter (\<lambda>j. names ! j \<notin> fst ` set kvs) (filter (field_bit masks) [0..<length names])"
    unfolding filter_filter using b zero by (intro filter_cong) auto
  then have "missing_from names 0 bits masks = filter (\<lambda>n. n \<notin> fst ` set kvs) (required_names names masks)"
    unfolding missing_all [OF len] required_names_def by (simp add: filter_map o_def)
  then show ?thesis using assms by (simp add: decode_object_def Let_def)
qed

lemma decode_object_complete:
  assumes "obj_fields field kvs (s, replicate (length masks) 0) = Inr (s', bits)"
    and "set (required_names names masks) \<subseteq> fst ` set kvs"
  shows "decode_object jx T field names masks s (JObj kvs) = Inr s'"
  using decode_object_missing [OF assms(1)] assms(2) by (auto simp: filter_empty_conv Let_def)

end

section \<open>The decoders of the API\<close>

lemma in_field_Inr: "in_field n res f = Inr y \<longleftrightarrow> (\<exists>x. res = Inr x \<and> y = f x)"
  by (auto simp: in_field_def split: sum.split)

text \<open>One branch of a decoder's \<open>switch\<close>.\<close>

lemma marks_branch:
  assumes "(if k = n then in_field n r (\<lambda>x. (u x, b)) else f) = Inr (s', bits')"
    and "b = mark_field names masks n bits"
    and "k \<noteq> n \<Longrightarrow> f = Inr (s', bits') \<Longrightarrow> bits' = mark_field names masks k bits"
  shows "bits' = mark_field names masks k bits"
  using assms by (auto simp: in_field_Inr split: if_splits)

lemmas marks_simps = mark_field_def field_bit_def numeral_2_eq_2 [symmetric]

interpretation delivery_codec: object_decoder jsonFieldsNameOfDelivery "[0x7F]" "Delivery_field jx" for jx
proof
  show "distinct jsonFieldsNameOfDelivery" by code_simp
  show "\<forall>j \<in> set [0..<8 * length ([0x7F] :: 8 word list)]. field_bit [0x7F] j \<longrightarrow>
      j < length jsonFieldsNameOfDelivery" by code_simp
  show "length jsonFieldsNameOfDelivery \<le> 8 * length ([0x7F] :: 8 word list)" by code_simp
  show "bits' = mark_field jsonFieldsNameOfDelivery [0x7F] k bits"
    if "Delivery_field jx k v (s, bits) = Inr (s', bits')" for k v s bits s' bits'
    using that unfolding Delivery_field_def jsonFieldsNameOfDelivery_def prod.case
    by (elim marks_branch) (simp_all add: marks_simps)
qed

interpretation item_codec: object_decoder jsonFieldsNameOfOrderItem "[0xFF, 0x07]" "OrderItem_field jx" for jx
proof
  show "distinct jsonFieldsNameOfOrderItem" by code_simp
  show "\<forall>j \<in> set [0..<8 * length ([0xFF, 0x07] :: 8 word list)]. field_bit [0xFF, 0x07] j \<longrightarrow>
      j < length jsonFieldsNameOfOrderItem" by code_simp
  show "length jsonFieldsNameOfOrderItem \<le> 8 * length ([0xFF, 0x07] :: 8 word list)" by code_simp
  show "bits' = mark_field jsonFieldsNameOfOrderItem [0xFF, 0x07] k bits"
    if "OrderItem_field jx k v (s, bits) = Inr (s', bits')" for k v s bits s' bits'
    using that unfolding OrderItem_field_def jsonFieldsNameOfOrderItem_def prod.case
    by (elim marks_branch) (simp_all add: marks_simps)
qed

interpretation payment_codec: object_decoder jsonFieldsNameOfPayment "[0xFD, 0x03]" "Payment_field jx" for jx
proof
  show "distinct jsonFieldsNameOfPayment" by code_simp
  show "\<forall>j \<in> set [0..<8 * length ([0xFD, 0x03] :: 8 word list)]. field_bit [0xFD, 0x03] j \<longrightarrow>
      j < length jsonFieldsNameOfPayment" by code_simp
  show "length jsonFieldsNameOfPayment \<le> 8 * length ([0xFD, 0x03] :: 8 word list)" by code_simp
  show "bits' = mark_field jsonFieldsNameOfPayment [0xFD, 0x03] k bits"
    if "Payment_field jx k v (s, bits) = Inr (s', bits')" for k v s bits s' bits'
    using that unfolding Payment_field_def jsonFieldsNameOfPayment_def prod.case
    by (elim marks_branch) (simp_all add: marks_simps)
qed

interpretation order_codec: object_decoder jsonFieldsNameOfOrderResponse "[0x7F, 0x3F]" "OrderResponse_field jx" for jx
proof
  show "distinct jsonFieldsNameOfOrderResponse" by code_simp
  show "\<forall>j \<in> set [0..<8 * length ([0x7F, 0x3F] :: 8 word list)]. field_bit [0x7F, 0x3F] j \<longrightarrow>
      j < length jsonFieldsNameOfOrderResponse" by code_simp
  show "length jsonFieldsNameOfOrderResponse \<le> 8 * length ([0x7F, 0x3F] :: 8 word list)" by code_simp
  show "bits' = mark_field jsonFieldsNameOfOrderResponse [0x7F, 0x3F] k bits"
    if "OrderResponse_field jx k v (s, bits) = Inr (s', bits')" for k v s bits s' bits'
    using that unfolding OrderResponse_field_def jsonFieldsNameOfOrderResponse_def prod.case
    by (elim marks_branch) (simp_all add: marks_simps)
qed

section \<open>Missing fields of an order\<close>

lemma required_delivery: "required_names jsonFieldsNameOfDelivery [0x7F] = jsonFieldsNameOfDelivery"
  by code_simp

lemma required_item: "required_names jsonFieldsNameOfOrderItem [0xFF, 0x07] = jsonFieldsNameOfOrderItem"
  by code_simp

lemma required_payment:
  "required_names jsonFieldsNameOfPayment [0xFD, 0x03] = remove1 ''request_id'' jsonFieldsNameOfPayment"
  by code_simp

lemma required_order:
  "required_names jsonFieldsNameOfOrderResponse [0x7F, 0x3F] =
     remove1 ''internal_signature'' jsonFieldsNameOfOrderResponse"
  by code_simp

text \<open>
  The decoder of an order accepts a document whose fields it can read exactly when every
  field of the API is there, other than \<open>internal_signature\<close>, which is optional; and
  otherwise its error lists exactly the missing ones, in the order of the schema.
  Unknown and repeated fields are allowed.
\<close>

lemma OrderResponse_Decode_reports_missing:
  assumes "obj_fields (OrderResponse_field jx) kvs (s, [0, 0]) = Inr (s', bits)"
  shows "OrderResponse_Decode jx s (JObj kvs) =
    (let missing = filter (\<lambda>n. n \<noteq> ''internal_signature'' \<and> n \<notin> fst ` set kvs) jsonFieldsNameOfOrderResponse in
     if missing = [] then Inr s'
     else Inl (FieldErrors (map (\<lambda>n. (n, ApiErr (Sentinel ErrFieldRequired))) missing)))"
proof -
  have "remove1 ''internal_signature'' jsonFieldsNameOfOrderResponse =
      filter (\<lambda>n. n \<noteq> ''internal_signature'') jsonFieldsNameOfOrderResponse"
    using order_codec.names_distinct by (simp add: distinct_remove1_removeAll removeAll_filter_not_eq eq_commute)
  then show ?thesis
    using order_codec.decode_object_missing [of jx kvs s s' bits jx "''OrderResponse''"] assms
    by (simp add: OrderResponse_Decode_def required_order conj_commute numeral_2_eq_2 replicate_Suc)
qed

definition plain_jx :: jx where
  "plain_jx = \<lparr>jx_type_error = (\<lambda>expected v. Ext (''expected '' @ expected)), jx_format_time = itoa,
     jx_parse_time = (\<lambda>s. if s = ''1000'' then Inr 1000 else Inl (Ext ''bad time''))\<rparr>"

lemma OrderResponse_Decode_reports_missing_witness:
  "\<exists>missing. OrderResponse_Decode plain_jx zero_api_order
      (JObj [(''order_uid'', JStr ''b563''), (''extra'', JNull), (''entry'', JStr ''WBIL'')]) =
    Inl (FieldErrors missing) \<and> length missing = 11"
  using OrderResponse_Decode_reports_missing [of plain_jx
      "[(''order_uid'', JStr ''b563''), (''extra'', JNull), (''entry'', JStr ''WBIL'')]" zero_api_order]
  by (simp add: OrderResponse_field_def in_field_def jsonFieldsNameOfOrderResponse_def)

section \<open>Round trips\<close>

lemma Delivery_roundtrip: "Delivery_Decode jx s (Delivery_Encode d) = Inr d"
proof -
  obtain bits where "obj_fields (Delivery_field jx) (Delivery_encodeFields d) (s, replicate (length [0x7F :: 8 word]) 0) =
      Inr (d, bits)"
    by (cases s; cases d) (simp add: Delivery_encodeFields_def Delivery_field_def in_field_def)
  then show ?thesis
    unfolding Delivery_Decode_def Delivery_Encode_def
  proof (rule delivery_codec.decode_object_complete)
    show "set (required_names jsonFieldsNameOfDelivery [0x7F]) \<subseteq> fst ` set (Delivery_encodeFields d)"
      unfolding required_delivery by (simp add: jsonFieldsNameOfDelivery_def Delivery_encodeFields_def)
  qed
qed

lemma OrderItem_roundtrip: "OrderItem_Decode jx s (OrderItem_Encode it) = Inr it"
proof -
  obtain bits where "obj_fields (OrderItem_field jx) (OrderItem_encodeFields it)
      (s, replicate (length [0xFF, 0x07 :: 8 word]) 0) = Inr (it, bits)"
    by (cases s; cases it) (simp add: OrderItem_encodeFields_def OrderItem_field_def in_field_def)
  then show ?thesis
    unfolding OrderItem_Decode_def OrderItem_Encode_def
  proof (rule item_codec.decode_object_complete)
    show "set (required_names jsonFieldsNameOfOrderItem [0xFF, 0x07]) \<subseteq> fst ` set (OrderItem_encodeFields it)"
      unfolding required_item by (simp add: jsonFieldsNameOfOrderItem_def OrderItem_encodeFields_def)
  qed
qed

lemma decode_elems_roundtrip: "decode_elems jx (map OrderItem_Encode items) = Inr items"
  by (induction items) (simp_all add: OrderItem_roundtrip)

text \<open>An optional string that is not set holds no value, as after \<open>Reset\<close>.\<close>

definition opt_ok :: "opt_string \<Rightarrow> bool" where
  "opt_ok opt \<longleftrightarrow> os_Set opt \<or> os_Value opt = []"

lemma OptString_roundtrip: "os_Set opt \<Longrightarrow> OptString_Decode jx opt' (OptString_Encode opt) = Inr opt"
  by (cases opt; cases opt') (simp add: OptString_Decode_def OptString_Encode_def)

lemma opt_not_set: "opt_ok opt \<Longrightarrow> \<not> os_Set opt \<Longrightarrow> opt = zero_opt"
  by (cases opt) (simp add: opt_ok_def zero_opt_def)

lemma Payment_fields_roundtrip:
  assumes "opt_ok (ap_RequestID p)" "ap_RequestID s = zero_opt"
  shows "\<exists>bits. obj_fields (Payment_field jx) (Payment_encodeFields p) (s, bits0) = Inr (p, bits)"
proof (cases "os_Set (ap_RequestID p)")
  case True
  then show ?thesis using OptString_roundtrip [OF True, of jx]
    by (cases s; cases p) (simp add: Payment_encodeFields_def Payment_field_def in_field_def)
next
  case False
  then show ?thesis using opt_not_set [OF assms(1) False] assms(2)
    by (cases s; cases p) (simp add: Payment_encodeFields_def Payment_field_def in_field_def)
qed

lemma Payment_roundtrip:
  assumes "opt_ok (ap_RequestID p)" "ap_RequestID s = zero_opt"
  shows "Payment_Decode jx s (Payment_Encode p) = Inr p"
proof -
  obtain bits where "obj_fields (Payment_field jx) (Payment_encodeFields p)
      (s, replicate (length [0xFD, 0x03 :: 8 word]) 0) = Inr (p, bits)"
    using Payment_fields_roundtrip [OF assms] by blast
  then show ?thesis
    unfolding Payment_Decode_def Payment_Encode_def
  proof (rule payment_codec.decode_object_complete)
    show "set (required_names jsonFieldsNameOfPayment [0xFD, 0x03]) \<subseteq> fst ` set (Payment_encodeFields p)"
      unfolding required_payment by (simp add: jsonFieldsNameOfPayment_def Payment_encodeFields_def)
  qed
qed

text \<open>The values that the encoder does not lose: set options, a list of items, a date the format keeps.\<close>

definition codec_ok :: "jx \<Rightarrow> api_order \<Rightarrow> bool" where
  "codec_ok jx r \<longleftrightarrow> opt_ok (ap_RequestID (ao_Payment r)) \<and> opt_ok (ao_InternalSignature r) \<and>
     ao_Items r \<noteq> None \<and> jx_parse_time jx (jx_format_time jx (ao_DateCreated r)) = Inr (ao_DateCreated r)"

lemma order_fields_roundtrip:
  assumes "codec_ok jx r" "ap_RequestID (ao_Payment s) = zero_opt" "ao_InternalSignature s = zero_opt"
  shows "\<exists>bits. obj_fields (OrderResponse_field jx) (OrderResponse_encodeFields jx r) (s, bits0) = Inr (r, bits)"
proof -
  obtain items where items: "ao_Items r = Some items" using assms(1) by (auto simp: codec_ok_def)
  have pay: "Payment_Decode jx (ao_Payment s) (Payment_Encode (ao_Payment r)) = Inr (ao_Payment r)"
    using assms by (intro Payment_roundtrip) (simp_all add: codec_ok_def)
  have time: "DecodeDateTime jx (EncodeDateTime jx (ao_DateCreated r)) = Inr (ao_DateCreated r)"
    using assms by (simp add: codec_ok_def)
  note [simp] = Delivery_roundtrip decode_elems_roundtrip
  show ?thesis
  proof (cases "os_Set (ao_InternalSignature r)")
    case True
    then show ?thesis using items pay time OptString_roundtrip [OF True, of jx]
      by (cases s; cases r) (simp add: OrderResponse_encodeFields_def OrderResponse_field_def in_field_def decode_items_def)
  next
    case False
    then show ?thesis using items pay time opt_not_set [OF _ False] assms
      by (cases s; cases r) (simp add: OrderResponse_encodeFields_def OrderResponse_field_def in_field_def
          decode_items_def codec_ok_def)
  qed
qed

lemma OrderResponse_roundtrip:
  assumes "codec_ok jx r"
  shows "OrderResponse_Decode jx zero_api_order (OrderResponse_Encode jx r) = Inr r"
proof -
  obtain bits where "obj_fields (OrderResponse_field jx) (OrderResponse_encodeFields jx r)
      (zero_api_order, replicate (length [0x7F, 0x3F :: 8 word]) 0) = Inr (r, bits)"
    using order_fields_roundtrip [OF assms, of zero_api_order]
    by (auto simp: zero_api_order_def zero_api_payment_def)
  then show ?thesis
    unfolding OrderResponse_Decode_def OrderResponse_Encode_def
  proof (rule order_codec.decode_object_complete)
    show "set (required_names jsonFieldsNameOfOrderResponse [0x7F, 0x3F]) \<subseteq> fst ` set (OrderResponse_encodeFields jx r)"
      unfolding required_order by (simp add: jsonFieldsNameOfOrderResponse_def OrderResponse_encodeFields_def)
  qed
qed

end
