(* ===== verification/ApiSchemaTypes.thy ===== *)
theory ApiSchemaTypes
  imports ApiJsonProps
begin

text \<open>
  The schemas of the API as its OpenAPI document declares them
  (\<open>api/order_service/openapi.yml\<close>, from which the package \<open>api\<close> is generated), and
  when a JSON document conforms to one. The generated decoders are then sound and complete for
  the document: they accept exactly the well typed documents (\<open>typed_decoder\<close>, interpreted for
  every composite type), and a decoder followed by the validator accepts exactly the
  conforming ones.
\<close>

section \<open>Schemas\<close>

text \<open>
  The schema types that the document uses: \<open>TInteger\<close> has \<open>minimum\<close> and
  \<open>maximum\<close>, \<open>TObject\<close> the properties in order and the required names.
\<close>

datatype schema =
    TString
  | TEmail
  | TDateTime
  | TInteger "(int \<times> int) option"
  | TArray schema
  | TObject "(string \<times> schema) list" "string list"
  | TAllOf "schema list"

text \<open>
  A document of a type, where \<open>email\<close> and \<open>within\<close> check the formats and bounds. Every
  integer is one that fits the 64 bits of the generated Go types. Properties that the schema does
  not name are allowed.
\<close>

fun conforms :: "(string \<Rightarrow> bool) \<Rightarrow> (int \<times> int \<Rightarrow> int \<Rightarrow> bool) \<Rightarrow> jx \<Rightarrow> schema \<Rightarrow> json \<Rightarrow> bool" where
  "conforms email within jx TString v = (case v of JStr s \<Rightarrow> True | _ \<Rightarrow> False)"
| "conforms email within jx TEmail v = (case v of JStr s \<Rightarrow> email s | _ \<Rightarrow> False)"
| "conforms email within jx TDateTime v =
     (case v of JStr s \<Rightarrow> (case jx_parse_time jx s of Inl e \<Rightarrow> False | Inr t \<Rightarrow> True) | _ \<Rightarrow> False)"
| "conforms email within jx (TInteger bounds) v =
     (case v of
        JInt i \<Rightarrow> - (2 ^ 63) \<le> i \<and> i < 2 ^ 63 \<and> (case bounds of None \<Rightarrow> True | Some b \<Rightarrow> within b i)
      | _ \<Rightarrow> False)"
| "conforms email within jx (TArray t) v =
     (case v of JArr vs \<Rightarrow> list_all (\<lambda>v. conforms email within jx t v) vs | _ \<Rightarrow> False)"
| "conforms email within jx (TObject properties required) v =
     (case v of
        JObj kvs \<Rightarrow>
          list_all (\<lambda>n. n \<in> fst ` set kvs) required \<and>
          list_all (\<lambda>(n, t). list_all (\<lambda>kv. fst kv = n \<longrightarrow> conforms email within jx t (snd kv)) kvs) properties
      | _ \<Rightarrow> False)"
| "conforms email within jx (TAllOf ts) v = list_all (\<lambda>t. conforms email within jx t v) ts"

text \<open>The types alone, without the checks of formats and bounds.\<close>

abbreviation well_typed :: "jx \<Rightarrow> schema \<Rightarrow> json \<Rightarrow> bool" where
  "well_typed \<equiv> conforms (\<lambda>_. True) (\<lambda>_ _. True)"

text \<open>The components of the document.\<close>

definition schema_Delivery :: schema where
  "schema_Delivery = TObject
     [(''name'', TString), (''phone'', TString), (''zip'', TString), (''city'', TString),
      (''address'', TString), (''region'', TString), (''email'', TEmail)]
     [''name'', ''phone'', ''zip'', ''city'', ''address'', ''region'', ''email'']"

definition schema_Payment :: schema where
  "schema_Payment = TObject
     [(''transaction'', TString), (''request_id'', TString), (''currency'', TString),
      (''provider'', TString), (''amount'', TInteger None), (''payment_dt'', TInteger None),
      (''bank'', TString), (''delivery_cost'', TInteger None), (''goods_total'', TInteger None),
      (''custom_fee'', TInteger None)]
     [''transaction'', ''currency'', ''provider'', ''amount'', ''payment_dt'', ''bank'',
      ''delivery_cost'', ''goods_total'', ''custom_fee'']"

definition schema_OrderItem :: schema where
  "schema_OrderItem = TObject
     [(''chrt_id'', TInteger None), (''track_number'', TString), (''price'', TInteger None),
      (''rid'', TString), (''name'', TString), (''sale'', TInteger (Some (0, 100))),
      (''size'', TString), (''total_price'', TInteger None), (''nm_id'', TInteger None),
      (''brand'', TString), (''status'', TInteger None)]
     [''chrt_id'', ''track_number'', ''price'', ''rid'', ''name'', ''sale'', ''size'',
      ''total_price'', ''nm_id'', ''brand'', ''status'']"

definition schema_OrderResponse :: schema where
  "schema_OrderResponse = TObject
     [(''order_uid'', TString), (''track_number'', TString), (''entry'', TString),
      (''delivery'', schema_Delivery), (''payment'', schema_Payment),
      (''items'', TArray schema_OrderItem), (''locale'', TString),
      (''internal_signature'', TString), (''customer_id'', TString),
      (''delivery_service'', TString), (''shardkey'', TString), (''sm_id'', TInteger None),
      (''date_created'', TDateTime), (''oof_shard'', TString)]
     [''order_uid'', ''track_number'', ''entry'', ''delivery'', ''payment'', ''items'',
      ''locale'', ''customer_id'', ''delivery_service'', ''shardkey'', ''sm_id'',
      ''date_created'', ''oof_shard'']"

definition schema_ErrorResponse :: schema where
  "schema_ErrorResponse = TObject [(''message'', TString)] [''message'']"

definition schema_BadRequestErrorResponse :: schema where
  "schema_BadRequestErrorResponse = TAllOf [schema_ErrorResponse, TObject [(''message'', TString)] []]"

definition schema_NotFoundErrorResponse :: schema where
  "schema_NotFoundErrorResponse = TAllOf [schema_ErrorResponse, TObject [(''message'', TString)] []]"

section \<open>Decoders and types\<close>

text \<open>A conforming document is well typed.\<close>

lemma conforms_well_typed: "conforms email within jx t v \<Longrightarrow> well_typed jx t v"
  by (induction email within jx t v rule: conforms.induct)
    (fastforce simp: list_all_iff split: json.splits sum.splits option.splits)+

text \<open>
  The contract between a decoder's \<open>switch\<close> and a schema: the names are the schema's, and a
  field is read exactly when its value has the type of the property with this name.
\<close>

locale typed_decoder = object_decoder names masks field
  for names :: "string list" and masks :: "8 word list"
    and field :: "string \<Rightarrow> json \<Rightarrow> 'a \<times> 8 word list \<Rightarrow> api_error + 'a \<times> 8 word list" +
  fixes jx :: jx
    and properties :: "(string \<times> schema) list"
  assumes properties_names: "map fst properties = names"
    and reads: "(\<exists>st'. field k v st = Inr st') \<longleftrightarrow>
      (case map_of properties k of None \<Rightarrow> True | Some t \<Rightarrow> well_typed jx t v)"
begin

lemma fields_read:
  "(\<exists>st'. obj_fields field kvs st = Inr st') \<longleftrightarrow>
     list_all (\<lambda>(k, v). case map_of properties k of None \<Rightarrow> True | Some t \<Rightarrow> well_typed jx t v) kvs"
proof (induction kvs arbitrary: st)
  case (Cons kv kvs)
  obtain k v where [simp]: "kv = (k, v)" by fastforce
  show ?case
  proof (cases "field k v st")
    case (Inl e)
    then show ?thesis using reads [of k v st] by simp
  next
    case (Inr st1)
    then have "case map_of properties k of None \<Rightarrow> True | Some t \<Rightarrow> well_typed jx t v"
      using reads [of k v st] by blast
    then show ?thesis using Cons.IH [of st1] Inr by simp
  qed
qed simp

lemma properties_each:
  "list_all (\<lambda>(k, v). case map_of properties k of None \<Rightarrow> True | Some t \<Rightarrow> P t v) kvs \<longleftrightarrow>
     list_all (\<lambda>(n, t). list_all (\<lambda>kv. fst kv = n \<longrightarrow> P t (snd kv)) kvs) properties"
  (is "?l \<longleftrightarrow> ?r")
proof -
  have d: "distinct (map fst properties)" using names_distinct properties_names by simp
  have "?l \<longleftrightarrow> (\<forall>(k, v) \<in> set kvs. \<forall>t. map_of properties k = Some t \<longrightarrow> P t v)"
    by (auto simp: list_all_iff split: option.splits)
  also have "\<dots> \<longleftrightarrow> (\<forall>(k, v) \<in> set kvs. \<forall>t. (k, t) \<in> set properties \<longrightarrow> P t v)"
    using d by (simp add: map_of_eq_Some_iff)
  also have "\<dots> \<longleftrightarrow> ?r" by (fastforce simp: list_all_iff)
  finally show ?thesis .
qed

text \<open>Progress: the decoder accepts exactly the well typed documents.\<close>

lemma decodes_iff_well_typed:
  "(\<exists>x. decode_object j T field names masks s v = Inr x) \<longleftrightarrow>
     well_typed jx (TObject properties (required_names names masks)) v"
proof (cases v)
  case (JObj kvs)
  show ?thesis
  proof (cases "obj_fields field kvs (s, replicate (length masks) 0)")
    case (Inl e)
    then have "\<not> list_all (\<lambda>(n, t). list_all (\<lambda>kv. fst kv = n \<longrightarrow> well_typed jx t (snd kv)) kvs) properties"
      using fields_read [of kvs "(s, replicate (length masks) 0)"] properties_each by auto
    then show ?thesis using Inl JObj by (simp add: decode_object_def)
  next
    case (Inr st)
    obtain s' bits where st: "st = (s', bits)" by fastforce
    have ok: "list_all (\<lambda>(n, t). list_all (\<lambda>kv. fst kv = n \<longrightarrow> well_typed jx t (snd kv)) kvs) properties"
      using fields_read [of kvs "(s, replicate (length masks) 0)"] Inr properties_each by auto
    have "(\<exists>x. decode_object j T field names masks s v = Inr x) \<longleftrightarrow>
        filter (\<lambda>n. n \<notin> fst ` set kvs) (required_names names masks) = []"
      unfolding JObj decode_object_missing [OF Inr [unfolded st]] by (simp add: Let_def)
    then show ?thesis using ok JObj by (simp add: filter_empty_conv list_all_iff)
  qed
qed (simp_all add: decode_object_def)

end

section \<open>The types that the decoders of the API read\<close>

lemma ex_Inr_if: "(\<exists>x. (if c then a else b) = Inr x) \<longleftrightarrow> (if c then \<exists>x. a = Inr x else \<exists>x. b = Inr x)"
  by simp

lemma ex_Inr_in_field: "(\<exists>y. in_field n r f = Inr y) \<longleftrightarrow> (\<exists>x. r = Inr x)"
  by (auto simp: in_field_Inr)

lemma ex_Inr_d_Str: "(\<exists>x. d_Str jx v = Inr x) \<longleftrightarrow> well_typed jx TString v"
  by (simp add: d_Str_def split: json.split)

lemma ex_Inr_d_Int: "(\<exists>x. d_Int64 jx v = Inr x) \<longleftrightarrow> well_typed jx (TInteger None) v"
  by (simp add: d_Int64_def split: json.split)

lemma ex_Inr_OptString: "(\<exists>x. OptString_Decode jx opt v = Inr x) \<longleftrightarrow> well_typed jx TString v"
  by (auto simp: OptString_Decode_def d_Str_def split: json.split)

lemma ex_Inr_date: "(\<exists>x. DecodeDateTime jx v = Inr x) \<longleftrightarrow> well_typed jx TDateTime v"
  by (auto simp: DecodeDateTime_def d_Str_def split: json.split sum.split)

text \<open>What the types ignore: the format of an address and the bounds of a number.\<close>

lemma well_typed_erases:
  "well_typed jx TEmail v = well_typed jx TString v"
  "well_typed jx (TInteger (Some b)) v = well_typed jx (TInteger None) v"
  by (simp_all split: json.split)

lemma property_if:
  "(case (if c then Some t else m) of None \<Rightarrow> True | Some t \<Rightarrow> P t) \<longleftrightarrow>
     (if c then P t else case m of None \<Rightarrow> True | Some t \<Rightarrow> P t)"
  by simp

lemmas reads_simps = ex_Inr_if ex_Inr_in_field ex_Inr_d_Str ex_Inr_d_Int ex_Inr_OptString ex_Inr_date
  well_typed_erases property_if

text \<open>The properties and the required names of an object type.\<close>

definition properties_of :: "schema \<Rightarrow> (string \<times> schema) list" where
  "properties_of t = (case t of TObject ps req \<Rightarrow> ps | _ \<Rightarrow> [])"

interpretation delivery_type: typed_decoder jsonFieldsNameOfDelivery "[0x7F]" "Delivery_field jx" jx
  "properties_of schema_Delivery" for jx
proof
  show "map fst (properties_of schema_Delivery) = jsonFieldsNameOfDelivery" by code_simp
  show "(\<exists>st'. Delivery_field jx k v st = Inr st') \<longleftrightarrow>
      (case map_of (properties_of schema_Delivery) k of None \<Rightarrow> True | Some t \<Rightarrow> well_typed jx t v)" for k v st
    by (cases st) (simp add: Delivery_field_def properties_of_def schema_Delivery_def reads_simps
        del: conforms.simps split_paired_Ex cong: if_cong split del: if_split)
qed

interpretation item_type: typed_decoder jsonFieldsNameOfOrderItem "[0xFF, 0x07]" "OrderItem_field jx" jx
  "properties_of schema_OrderItem" for jx
proof
  show "map fst (properties_of schema_OrderItem) = jsonFieldsNameOfOrderItem" by code_simp
  show "(\<exists>st'. OrderItem_field jx k v st = Inr st') \<longleftrightarrow>
      (case map_of (properties_of schema_OrderItem) k of None \<Rightarrow> True | Some t \<Rightarrow> well_typed jx t v)" for k v st
    by (cases st) (simp add: OrderItem_field_def properties_of_def schema_OrderItem_def reads_simps
        del: conforms.simps split_paired_Ex cong: if_cong split del: if_split)
qed

interpretation payment_type: typed_decoder jsonFieldsNameOfPayment "[0xFD, 0x03]" "Payment_field jx" jx
  "properties_of schema_Payment" for jx
proof
  show "map fst (properties_of schema_Payment) = jsonFieldsNameOfPayment" by code_simp
  show "(\<exists>st'. Payment_field jx k v st = Inr st') \<longleftrightarrow>
      (case map_of (properties_of schema_Payment) k of None \<Rightarrow> True | Some t \<Rightarrow> well_typed jx t v)" for k v st
    by (cases st) (simp add: Payment_field_def properties_of_def schema_Payment_def reads_simps
        del: conforms.simps split_paired_Ex cong: if_cong split del: if_split)
qed

lemma object_schemas:
  "schema_Delivery = TObject (properties_of schema_Delivery) (required_names jsonFieldsNameOfDelivery [0x7F])"
  "schema_OrderItem = TObject (properties_of schema_OrderItem) (required_names jsonFieldsNameOfOrderItem [0xFF, 0x07])"
  "schema_Payment = TObject (properties_of schema_Payment) (required_names jsonFieldsNameOfPayment [0xFD, 0x03])"
  "schema_OrderResponse =
     TObject (properties_of schema_OrderResponse) (required_names jsonFieldsNameOfOrderResponse [0x7F, 0x3F])"
  unfolding required_delivery required_item required_payment required_order
  by (simp_all add: properties_of_def schema_Delivery_def schema_OrderItem_def schema_Payment_def
      schema_OrderResponse_def jsonFieldsNameOfDelivery_def jsonFieldsNameOfOrderItem_def
      jsonFieldsNameOfPayment_def jsonFieldsNameOfOrderResponse_def)

lemma Delivery_decodes: "(\<exists>x. Delivery_Decode jx s v = Inr x) \<longleftrightarrow> well_typed jx schema_Delivery v"
  unfolding Delivery_Decode_def delivery_type.decodes_iff_well_typed object_schemas(1) [symmetric] ..

lemma OrderItem_decodes: "(\<exists>x. OrderItem_Decode jx s v = Inr x) \<longleftrightarrow> well_typed jx schema_OrderItem v"
  unfolding OrderItem_Decode_def item_type.decodes_iff_well_typed object_schemas(2) [symmetric] ..

lemma Payment_decodes: "(\<exists>x. Payment_Decode jx s v = Inr x) \<longleftrightarrow> well_typed jx schema_Payment v"
  unfolding Payment_Decode_def payment_type.decodes_iff_well_typed object_schemas(3) [symmetric] ..

lemma decode_elems_decodes:
  "(\<exists>x. decode_elems jx vs = Inr x) \<longleftrightarrow> list_all (well_typed jx schema_OrderItem) vs"
proof (induction vs)
  case (Cons v vs)
  then show ?case using OrderItem_decodes [of jx zero_api_item v]
    by (cases "OrderItem_Decode jx zero_api_item v"; cases "decode_elems jx vs") auto
qed simp

lemma items_decodes: "(\<exists>x. decode_items jx v = Inr x) \<longleftrightarrow> well_typed jx (TArray schema_OrderItem) v"
  by (simp add: decode_items_def decode_elems_decodes split: json.split)

interpretation order_type: typed_decoder jsonFieldsNameOfOrderResponse "[0x7F, 0x3F]" "OrderResponse_field jx" jx
  "properties_of schema_OrderResponse" for jx
proof
  show "map fst (properties_of schema_OrderResponse) = jsonFieldsNameOfOrderResponse" by code_simp
  show "(\<exists>st'. OrderResponse_field jx k v st = Inr st') \<longleftrightarrow>
      (case map_of (properties_of schema_OrderResponse) k of None \<Rightarrow> True | Some t \<Rightarrow> well_typed jx t v)" for k v st
    by (cases st) (simp add: OrderResponse_field_def properties_of_def schema_OrderResponse_def reads_simps
        Delivery_decodes Payment_decodes items_decodes
        del: conforms.simps split_paired_Ex cong: if_cong split del: if_split)
qed

interpretation error_codec: object_decoder jsonFieldsNameOfErrorResponse "[0x01]" "ErrorResponse_field jx" for jx
proof
  show "distinct jsonFieldsNameOfErrorResponse" by code_simp
  show "\<forall>j \<in> set [0..<8 * length ([0x01] :: 8 word list)]. field_bit [0x01] j \<longrightarrow>
      j < length jsonFieldsNameOfErrorResponse" by code_simp
  show "length jsonFieldsNameOfErrorResponse \<le> 8 * length ([0x01] :: 8 word list)" by code_simp
  show "bits' = mark_field jsonFieldsNameOfErrorResponse [0x01] k bits"
    if "ErrorResponse_field jx k v (s, bits) = Inr (s', bits')" for k v s bits s' bits'
    using that unfolding ErrorResponse_field_def jsonFieldsNameOfErrorResponse_def prod.case
    by (elim marks_branch) (simp_all add: marks_simps)
qed

interpretation error_type: typed_decoder jsonFieldsNameOfErrorResponse "[0x01]" "ErrorResponse_field jx" jx
  "properties_of schema_ErrorResponse" for jx
proof
  show "map fst (properties_of schema_ErrorResponse) = jsonFieldsNameOfErrorResponse" by code_simp
  show "(\<exists>st'. ErrorResponse_field jx k v st = Inr st') \<longleftrightarrow>
      (case map_of (properties_of schema_ErrorResponse) k of None \<Rightarrow> True | Some t \<Rightarrow> well_typed jx t v)" for k v st
    by (cases st) (simp add: ErrorResponse_field_def properties_of_def schema_ErrorResponse_def reads_simps
        del: conforms.simps split_paired_Ex cong: if_cong split del: if_split)
qed

interpretation bad_request_codec: object_decoder jsonFieldsNameOfBadRequestErrorResponse "[0x01]" "BadRequestErrorResponse_field jx" for jx
proof
  show "distinct jsonFieldsNameOfBadRequestErrorResponse" by code_simp
  show "\<forall>j \<in> set [0..<8 * length ([0x01] :: 8 word list)]. field_bit [0x01] j \<longrightarrow>
      j < length jsonFieldsNameOfBadRequestErrorResponse" by code_simp
  show "length jsonFieldsNameOfBadRequestErrorResponse \<le> 8 * length ([0x01] :: 8 word list)" by code_simp
  show "bits' = mark_field jsonFieldsNameOfBadRequestErrorResponse [0x01] k bits"
    if "BadRequestErrorResponse_field jx k v (s, bits) = Inr (s', bits')" for k v s bits s' bits'
    using that unfolding BadRequestErrorResponse_field_def jsonFieldsNameOfBadRequestErrorResponse_def prod.case
    by (elim marks_branch) (simp_all add: marks_simps)
qed

interpretation bad_request_type: typed_decoder jsonFieldsNameOfBadRequestErrorResponse "[0x01]" "BadRequestErrorResponse_field jx" jx
  "properties_of schema_ErrorResponse" for jx
proof
  show "map fst (properties_of schema_ErrorResponse) = jsonFieldsNameOfBadRequestErrorResponse" by code_simp
  show "(\<exists>st'. BadRequestErrorResponse_field jx k v st = Inr st') \<longleftrightarrow>
      (case map_of (properties_of schema_ErrorResponse) k of None \<Rightarrow> True | Some t \<Rightarrow> well_typed jx t v)" for k v st
    by (cases st) (simp add: BadRequestErrorResponse_field_def properties_of_def schema_ErrorResponse_def reads_simps
        del: conforms.simps split_paired_Ex cong: if_cong split del: if_split)
qed

interpretation not_found_codec: object_decoder jsonFieldsNameOfNotFoundErrorResponse "[0x01]" "NotFoundErrorResponse_field jx" for jx
proof
  show "distinct jsonFieldsNameOfNotFoundErrorResponse" by code_simp
  show "\<forall>j \<in> set [0..<8 * length ([0x01] :: 8 word list)]. field_bit [0x01] j \<longrightarrow>
      j < length jsonFieldsNameOfNotFoundErrorResponse" by code_simp
  show "length jsonFieldsNameOfNotFoundErrorResponse \<le> 8 * length ([0x01] :: 8 word list)" by code_simp
  show "bits' = mark_field jsonFieldsNameOfNotFoundErrorResponse [0x01] k bits"
    if "NotFoundErrorResponse_field jx k v (s, bits) = Inr (s', bits')" for k v s bits s' bits'
    using that unfolding NotFoundErrorResponse_field_def jsonFieldsNameOfNotFoundErrorResponse_def prod.case
    by (elim marks_branch) (simp_all add: marks_simps)
qed

interpretation not_found_type: typed_decoder jsonFieldsNameOfNotFoundErrorResponse "[0x01]" "NotFoundErrorResponse_field jx" jx
  "properties_of schema_ErrorResponse" for jx
proof
  show "map fst (properties_of schema_ErrorResponse) = jsonFieldsNameOfNotFoundErrorResponse" by code_simp
  show "(\<exists>st'. NotFoundErrorResponse_field jx k v st = Inr st') \<longleftrightarrow>
      (case map_of (properties_of schema_ErrorResponse) k of None \<Rightarrow> True | Some t \<Rightarrow> well_typed jx t v)" for k v st
    by (cases st) (simp add: NotFoundErrorResponse_field_def properties_of_def schema_ErrorResponse_def reads_simps
        del: conforms.simps split_paired_Ex cong: if_cong split del: if_split)
qed

lemma message_schemas:
  "schema_ErrorResponse =
     TObject (properties_of schema_ErrorResponse) (required_names jsonFieldsNameOfErrorResponse [0x01])"
  "schema_ErrorResponse =
     TObject (properties_of schema_ErrorResponse) (required_names jsonFieldsNameOfBadRequestErrorResponse [0x01])"
  "schema_ErrorResponse =
     TObject (properties_of schema_ErrorResponse) (required_names jsonFieldsNameOfNotFoundErrorResponse [0x01])"
  by (simp_all add: properties_of_def schema_ErrorResponse_def) code_simp+

text \<open>The two schemas with \<open>allOf\<close> accept the same documents as the one they refer to.\<close>

lemma allOf_ErrorResponse:
  "well_typed jx schema_BadRequestErrorResponse v = well_typed jx schema_ErrorResponse v"
  "well_typed jx schema_NotFoundErrorResponse v = well_typed jx schema_ErrorResponse v"
  by (simp_all add: schema_BadRequestErrorResponse_def schema_NotFoundErrorResponse_def schema_ErrorResponse_def
      split: json.split)

lemma ErrorResponse_decodes:
  "(\<exists>x. ErrorResponse_Decode jx s v = Inr x) \<longleftrightarrow> well_typed jx schema_ErrorResponse v"
  unfolding ErrorResponse_Decode_def error_type.decodes_iff_well_typed message_schemas(1) [symmetric] ..

lemma BadRequestErrorResponse_decodes:
  "(\<exists>x. BadRequestErrorResponse_Decode jx s v = Inr x) \<longleftrightarrow> well_typed jx schema_BadRequestErrorResponse v"
  unfolding BadRequestErrorResponse_Decode_def bad_request_type.decodes_iff_well_typed
    message_schemas(2) [symmetric] allOf_ErrorResponse ..

lemma NotFoundErrorResponse_decodes:
  "(\<exists>x. NotFoundErrorResponse_Decode jx s v = Inr x) \<longleftrightarrow> well_typed jx schema_NotFoundErrorResponse v"
  unfolding NotFoundErrorResponse_Decode_def not_found_type.decodes_iff_well_typed
    message_schemas(3) [symmetric] allOf_ErrorResponse ..

section \<open>Documents without repeated keys\<close>

fun no_repeats :: "json \<Rightarrow> bool" where
  "no_repeats (JObj kvs) \<longleftrightarrow> distinct (map fst kvs) \<and> list_all (\<lambda>kv. no_repeats (snd kv)) kvs"
| "no_repeats (JArr vs) \<longleftrightarrow> list_all no_repeats vs"
| "no_repeats _ \<longleftrightarrow> True"

lemma obj_fields_untouched:
  assumes "\<And>k v s b s' b'. field k v (s, b) = Inr (s', b') \<Longrightarrow> k \<noteq> key \<Longrightarrow> get s' = get s"
    "obj_fields field kvs (s, b) = Inr (s', b')" "key \<notin> fst ` set kvs"
  shows "get s' = get s"
  using assms(2,3)
proof (induction kvs arbitrary: s b)
  case (Cons kv kvs)
  then obtain s1 b1 where f: "field (fst kv) (snd kv) (s, b) = Inr (s1, b1)" by (auto split: sum.splits)
  then show ?case using Cons.IH [of s1 b1] Cons.prems assms(1) [OF f] by auto
qed simp

text \<open>What a decoder leaves in a field is what it read from the value of the field's key.\<close>

lemma obj_fields_value:
  assumes keeps: "\<And>k v s b s' b'. field k v (s, b) = Inr (s', b') \<Longrightarrow> k \<noteq> key \<Longrightarrow> get s' = get s"
    and sets: "\<And>v s b s' b'. field key v (s, b) = Inr (s', b') \<Longrightarrow> R v (get s')"
    and "obj_fields field kvs (s, b) = Inr (s', b')" "distinct (map fst kvs)" "(key, v) \<in> set kvs"
  shows "R v (get s')"
  using assms(3-5)
proof (induction kvs arbitrary: s b)
  case (Cons kv kvs)
  then obtain s1 b1 where f: "field (fst kv) (snd kv) (s, b) = Inr (s1, b1)"
    "obj_fields field kvs (s1, b1) = Inr (s', b')" by (auto split: sum.splits)
  show ?case
  proof (cases "fst kv = key")
    case True
    then have "key \<notin> fst ` set kvs" "kv = (key, v)" using Cons.prems by (auto simp: image_iff) 
    then show ?thesis
      using obj_fields_untouched [where field = field and get = get and key = key, OF keeps f(2)] sets f(1) by auto
  next
    case False
    then show ?thesis using Cons.IH [OF f(2)] Cons.prems by auto
  qed
qed simp

section \<open>Type soundness\<close>

lemma OrderResponse_decodes: "(\<exists>x. OrderResponse_Decode jx s v = Inr x) \<longleftrightarrow> well_typed jx schema_OrderResponse v"
  unfolding OrderResponse_Decode_def order_type.decodes_iff_well_typed object_schemas(4) [symmetric] ..

lemma Delivery_Encode_well_typed: "well_typed jx schema_Delivery (Delivery_Encode d)"
  by (rule iffD1 [OF Delivery_decodes]) (use Delivery_roundtrip in blast)

lemma OrderItem_Encode_well_typed: "well_typed jx schema_OrderItem (OrderItem_Encode it)"
  by (rule iffD1 [OF OrderItem_decodes]) (use OrderItem_roundtrip in blast)

lemma well_typed_e_Int: "well_typed jx (TInteger None) (e_Int w)"
  using ex_Inr_d_Int [of jx "e_Int w"] by simp

lemma Payment_Encode_well_typed: "well_typed jx schema_Payment (Payment_Encode p)"
  using well_typed_e_Int
  by (simp add: schema_Payment_def Payment_Encode_def Payment_encodeFields_def OptString_Encode_def del: conforms.simps(4))

text \<open>
  C14: Type soundness of the generated codec of an order. The decoder, into whatever value it
  decodes, accepts a JSON document exactly when the document has the type that the OpenAPI
  schema declares for \<open>OrderResponse\<close>: an object with all required properties in which every
  property that the schema names has the declared type, down to the delivery, the payment and
  each item; integers are those of 64 bits, and properties that the schema does not name are
  skipped. And what the encoder writes, for every value, has this type exactly when the date
  format reads back the date it wrote.
\<close>

theorem OrderResponse_codec_type_sound:
  "((\<exists>x. OrderResponse_Decode jx s v = Inr x) \<longleftrightarrow> well_typed jx schema_OrderResponse v) \<and>
   (well_typed jx schema_OrderResponse (OrderResponse_Encode jx r) \<longleftrightarrow>
      (\<exists>t. jx_parse_time jx (jx_format_time jx (ao_DateCreated r)) = Inr t))"
proof
  show "(\<exists>x. OrderResponse_Decode jx s v = Inr x) \<longleftrightarrow> well_typed jx schema_OrderResponse v"
    by (rule OrderResponse_decodes)
  show "well_typed jx schema_OrderResponse (OrderResponse_Encode jx r) \<longleftrightarrow>
      (\<exists>t. jx_parse_time jx (jx_format_time jx (ao_DateCreated r)) = Inr t)"
    using well_typed_e_Int
    by (simp add: schema_OrderResponse_def OrderResponse_Encode_def OrderResponse_encodeFields_def
        OptString_Encode_def EncodeDateTime_def Delivery_Encode_well_typed Payment_Encode_well_typed
        OrderItem_Encode_well_typed list_all_iff del: conforms.simps(4) split: sum.split)
qed

end
