(* ===== verification/Ports.thy ===== *)
theory Ports
  imports Models LruCache
begin

text \<open>
  The ports of \<open>internal/ports/ports.go\<close> and \<open>pkg/pkgports/ports.go\<close>. A Go
  interface is a record of its methods over the state of the implementation, so that the
  services can be modelled for any implementation. \<open>cache_contract\<close> states what the
  comments of \<open>pkgports.Cache\<close> promise; the LRU cache is shown to keep it, for a value
  type of any kind, and \<open>lru_order_port\<close> is the \<open>OrderCache\<close> of the
  service.
\<close>

section \<open>Interfaces\<close>

record ('k, 'v, 'ca) cache_port =
  cp_Set :: "go_context \<Rightarrow> 'k \<Rightarrow> 'v \<Rightarrow> ('ca, go_error option) run"
  cp_Get :: "go_context \<Rightarrow> 'k \<Rightarrow> ('ca, 'v \<times> bool \<times> go_error option) run"
  cp_GetKeys :: "'ca \<Rightarrow> 'k list option"
  cp_GetKeysAmount :: "'ca \<Rightarrow> int"

type_synonym 'ca order_cache = "(string, order, 'ca) cache_port"

record 'st order_storage =
  sp_GetOrderByID :: "go_context \<Rightarrow> string \<Rightarrow> ('st, order \<times> go_error option) run"
  sp_GetLastOrders :: "go_context \<Rightarrow> go_int \<Rightarrow> ('st, order list \<times> go_error option) run"
  sp_SaveOrder :: "go_context \<Rightarrow> order \<Rightarrow> ('st, go_error option) run"

text \<open>
  \<open>pkgports.Receiver\<close> over the values \<open>'v\<close> and the message type \<open>'m\<close>.
  \<open>Consume\<close> may block for ever (a channel send that nobody receives), so a
  result may also be absent.
\<close>

record ('v, 'm, 'r) receiver_port =
  rp_Consume :: "go_context \<Rightarrow> 'r \<Rightarrow> ('r \<times> ('v \<times> 'm \<times> go_error option) outcome) option"
  rp_OnSuccess :: "go_context \<Rightarrow> 'm \<Rightarrow> ('r, go_error option) run"
  rp_OnFail :: "go_context \<Rightarrow> bool \<Rightarrow> 'm \<Rightarrow> ('r, go_error option) run"

section \<open>The contract of a cache\<close>

text \<open>
  \<open>ok\<close> is the validity of an implementation state, \<open>contents\<close> its lookup
  function. A \<open>Set\<close> stores the value and may drop other keys, \<open>Get\<close> reads the
  contents and does not change them ("idempotent"), \<open>GetKeys\<close> lists the keys once
  each, \<open>GetKeysAmount\<close> counts them.
\<close>

locale cache_contract =
  fixes ok :: "'c \<Rightarrow> bool"
    and contents :: "'c \<Rightarrow> 'k \<Rightarrow> 'v option"
    and zero :: 'v
    and port :: "('k, 'v, 'c) cache_port"
  assumes set_law: "ok c \<Longrightarrow> ctx_ok ctx \<Longrightarrow>
      \<exists>c'. cp_Set port ctx k v c = (c', Returns None) \<and> ok c' \<and>
        contents c' \<subseteq>\<^sub>m (contents c)(k \<mapsto> v)"
    and get_law: "ok c \<Longrightarrow> ctx_ok ctx \<Longrightarrow>
      \<exists>c'. cp_Get port ctx k c = (c', Returns (case contents c k of
          None \<Rightarrow> (zero, False, None) | Some v \<Rightarrow> (v, True, None))) \<and>
        ok c' \<and> contents c' = contents c"
    and keys_law: "ok c \<Longrightarrow> \<exists>ks. cp_GetKeys port c = Some ks \<and> distinct ks \<and>
      set ks = dom (contents c) \<and> cp_GetKeysAmount port c = int (length ks)"
begin

text \<open>Every entry of the cache satisfies \<open>P\<close>.\<close>

definition all_entries :: "('k \<Rightarrow> 'v \<Rightarrow> bool) \<Rightarrow> 'c \<Rightarrow> bool" where
  "all_entries P c \<longleftrightarrow> (\<forall>k v. contents c k = Some v \<longrightarrow> P k v)"

lemma set_all_entries:
  assumes "ok c" "ctx_ok ctx" "all_entries P c" "P k v"
  shows "\<exists>c'. cp_Set port ctx k v c = (c', Returns None) \<and> ok c' \<and> all_entries P c'"
proof -
  obtain c' where c': "cp_Set port ctx k v c = (c', Returns None)" "ok c'"
    "contents c' \<subseteq>\<^sub>m (contents c)(k \<mapsto> v)"
    using set_law [OF assms(1,2)] by blast
  have "P k' v'" if "contents c' k' = Some v'" for k' v'
  proof -
    have "((contents c)(k \<mapsto> v)) k' = Some v'"
      using c'(3) that by (force simp: map_le_def dom_def)
    then show ?thesis using assms(3,4) by (auto simp: all_entries_def split: if_splits)
  qed
  then show ?thesis using c' by (auto simp: all_entries_def)
qed

lemma get_all_entries:
  assumes "ok c" "ctx_ok ctx" "all_entries P c"
  shows "\<exists>c' v found. cp_Get port ctx k c = (c', Returns (v, found, None)) \<and> ok c' \<and>
    all_entries P c' \<and> (found \<longrightarrow> P k v) \<and> (\<not> found \<longrightarrow> v = zero)"
proof -
  obtain c' where c': "cp_Get port ctx k c = (c', Returns (case contents c k of
          None \<Rightarrow> (zero, False, None) | Some v \<Rightarrow> (v, True, None)))" "ok c'" "contents c' = contents c"
    using get_law [OF assms(1,2)] by blast
  show ?thesis
    using c' assms(3) by (cases "contents c k") (auto simp: all_entries_def)
qed

lemma get_twice:
  assumes "ok c" "ctx_ok ctx" "cp_Get port ctx k c = (c1, r1)" "cp_Get port ctx k c1 = (c2, r2)"
  shows "r1 = r2"
proof -
  obtain c' where "cp_Get port ctx k c = (c', Returns (case contents c k of
          None \<Rightarrow> (zero, False, None) | Some v \<Rightarrow> (v, True, None)))" "ok c'" "contents c' = contents c"
    using get_law [OF assms(1,2)] by blast
  then show ?thesis using get_law [of c' ctx k] assms by auto
qed

end

section \<open>The LRU cache keeps the contract\<close>

definition lru_port :: "'v \<Rightarrow> ('k \<Rightarrow> string) \<Rightarrow> go_error option \<Rightarrow> ('k, 'v, ('k, 'v) lru) cache_port" where
  "lru_port zero fmt_v zap_err =
     \<lparr>cp_Set = (\<lambda>ctx k v c. Set fmt_v ctx c k v),
      cp_Get = (\<lambda>ctx k c. Get zero fmt_v zap_err ctx c k),
      cp_GetKeys = GetKeys, cp_GetKeysAmount = GetKeysAmount\<rparr>"

definition lru_ok :: "('k, 'v) lru \<Rightarrow> bool" where
  "lru_ok c \<longleftrightarrow> (\<exists>s. lru_rep c s)"

lemma map_of_take_le: "map_of (take n s) \<subseteq>\<^sub>m map_of s"
  by (metis append_take_drop_id map_add_comm map_le_iff_map_add_commute map_le_map_add map_of_append)

lemma map_of_spec_set_le: "map_of (spec_set cap k v s) \<subseteq>\<^sub>m (map_of s)(k \<mapsto> v)"
proof -
  have "map_of (spec_set cap k v s) \<subseteq>\<^sub>m map_of ((k, v) # without k s)"
    unfolding spec_set_def by (rule map_of_take_le)
  moreover have "map_of ((k, v) # without k s) = (map_of s)(k \<mapsto> v)"
    by (simp add: map_of_without)
  ultimately show ?thesis by simp
qed

lemma map_of_spec_get: "map_of (spec_get k s) = map_of s"
  by (auto simp: spec_get_def map_of_without fun_eq_iff split: option.splits)

lemma lru_rep_contents: "lru_rep c s \<Longrightarrow> lru_data c = map_of s"
  by (simp add: lru_rep_def)

interpretation lru_cache: cache_contract lru_ok lru_data zero "lru_port zero fmt_v zap_err"
  for zero :: 'v and fmt_v :: "'k \<Rightarrow> string" and zap_err
proof unfold_locales
  fix c :: "('k, 'v) lru" and ctx and k :: 'k and v :: 'v
  assume "lru_ok c" and ctx: "ctx_ok ctx"
  then obtain s where s: "lru_rep c s" by (auto simp: lru_ok_def)
  obtain c' where c': "Set fmt_v ctx c k v = (c', Returns None)"
    "lru_rep c' (spec_set (lru_cap c) k v s)"
    using Set_rep [OF s ctx] by blast
  then show "\<exists>c'. cp_Set (lru_port zero fmt_v zap_err) ctx k v c = (c', Returns None) \<and> lru_ok c' \<and>
      lru_data c' \<subseteq>\<^sub>m (lru_data c)(k \<mapsto> v)"
    using lru_rep_contents [OF s] lru_rep_contents [OF c'(2)] map_of_spec_set_le [of "lru_cap c" k v s]
    by (auto simp: lru_port_def lru_ok_def)
next
  fix c :: "('k, 'v) lru" and ctx and k :: 'k
  assume "lru_ok c" and ctx: "ctx_ok ctx"
  then obtain s where s: "lru_rep c s" by (auto simp: lru_ok_def)
  show "\<exists>c'. cp_Get (lru_port zero fmt_v zap_err) ctx k c = (c', Returns (case lru_data c k of
        None \<Rightarrow> (zero, False, None) | Some v \<Rightarrow> (v, True, None))) \<and> lru_ok c' \<and> lru_data c' = lru_data c"
  proof (cases "map_of s k")
    case None
    then show ?thesis using Get_miss_rep [OF s None ctx, of zero fmt_v zap_err] s
      by (auto simp: lru_port_def lru_ok_def lru_rep_contents [OF s])
  next
    case (Some v)
    obtain c' where "Get zero fmt_v zap_err ctx c k = (c', Returns (v, True, None))"
      "lru_rep c' (spec_get k s)"
      using Get_hit_rep [OF s Some] by blast
    then show ?thesis using Some lru_rep_contents [OF s] lru_rep_contents [of c']
      by (auto simp: lru_port_def lru_ok_def map_of_spec_get)
  qed
next
  fix c :: "('k, 'v) lru"
  assume "lru_ok c"
  then obtain s where s: "lru_rep c s" by (auto simp: lru_ok_def)
  then show "\<exists>ks. cp_GetKeys (lru_port zero fmt_v zap_err) c = Some ks \<and> distinct ks \<and>
      set ks = dom (lru_data c) \<and> cp_GetKeysAmount (lru_port zero fmt_v zap_err) c = int (length ks)"
    by (auto simp: lru_port_def lru_rep_def recency_ok_def GetKeys_def GetKeysAmount_def GetAll_rep
        ll.len_law dom_map_of_conv_image_fst)
qed

text \<open>
  \<open>NewOrderCacheAdapterInMemoryLRU\<close>: an LRU cache of orders under their ids.
\<close>

definition lru_order_port :: "go_error option \<Rightarrow> (string, order) lru order_cache" where
  "lru_order_port zap_err = lru_port zero_order id zap_err"

definition NewOrderCacheAdapterInMemoryLRU :: "int \<Rightarrow> (string, order) lru" where
  "NewOrderCacheAdapterInMemoryLRU capacity = NewCacheLRUInMemory capacity"

lemma NewOrderCache_ok: "lru_ok (NewOrderCacheAdapterInMemoryLRU n)"
  unfolding lru_ok_def NewOrderCacheAdapterInMemoryLRU_def using NewCache_rep by blast

section \<open>Bounded caches\<close>

text \<open>
  A cache with a capacity, which no call changes and which bounds the number of keys.
\<close>

locale bounded_cache = cache_contract +
  fixes capacity :: "'a \<Rightarrow> int"
  assumes set_capacity: "cp_Set port ctx k v c = (c', r) \<Longrightarrow> capacity c' = capacity c"
    and get_capacity: "cp_Get port ctx k c = (c', r') \<Longrightarrow> capacity c' = capacity c"
    and bound_law: "ok c \<Longrightarrow> cp_GetKeysAmount port c \<le> max 0 (capacity c)"
begin

text \<open>What a client that files its values by \<open>P\<close> in a cache of capacity \<open>n\<close> keeps.\<close>

definition filed :: "int \<Rightarrow> ('b \<Rightarrow> 'c \<Rightarrow> bool) \<Rightarrow> 'a \<Rightarrow> bool" where
  "filed n P c \<longleftrightarrow> ok c \<and> all_entries P c \<and> capacity c = n"

lemma filed_set:
  assumes "filed n P c" "ctx_ok ctx" "P k v"
  shows "\<exists>c'. cp_Set port ctx k v c = (c', Returns None) \<and> filed n P c'"
  using set_all_entries [of c ctx P k v] assms set_capacity unfolding filed_def by metis

lemma filed_get:
  assumes "filed n P c" "ctx_ok ctx"
  shows "\<exists>c' v found. cp_Get port ctx k c = (c', Returns (v, found, None)) \<and> filed n P c' \<and>
    (found \<longrightarrow> P k v) \<and> (\<not> found \<longrightarrow> v = zero)"
  using get_all_entries [of c ctx P k] assms get_capacity unfolding filed_def by metis

lemma filed_bound:
  assumes "filed n P c"
  shows "\<exists>ks. cp_GetKeys port c = Some ks \<and> distinct ks \<and> int (length ks) \<le> max 0 n \<and>
    (\<forall>k \<in> set ks. \<exists>v. contents c k = Some v \<and> P k v)"
  using keys_law [of c] bound_law [of c] assms by (fastforce simp: filed_def all_entries_def)

end

lemma evict_overflow_cap: "lru_cap (fst (evict_overflow fmt_v ctx c)) = lru_cap c"
  by (simp add: evict_overflow_def Let_def split: option.split sum.split outcome.split prod.split)

lemma Set_cap: "lru_cap (fst (Set fmt_v ctx c k v)) = lru_cap c"
  by (simp add: Set_def evict_overflow_cap split: option.split prod.split)

lemma Get_cap: "lru_cap (fst (Get zero fmt_v z ctx c k)) = lru_cap c"
  by (simp add: Get_def split: option.split prod.split)

interpretation lru_cache: bounded_cache lru_ok lru_data zero "lru_port zero fmt_v zap_err" lru_cap
  for zero :: 'v and fmt_v :: "'k \<Rightarrow> string" and zap_err
proof unfold_locales
  fix c c' :: "('k, 'v) lru" and ctx k v r r'
  show "cp_Set (lru_port zero fmt_v zap_err) ctx k v c = (c', r) \<Longrightarrow> lru_cap c' = lru_cap c"
    using Set_cap [of fmt_v ctx c k v] by (simp add: lru_port_def)
  show "cp_Get (lru_port zero fmt_v zap_err) ctx k c = (c', r') \<Longrightarrow> lru_cap c' = lru_cap c"
    using Get_cap [of zero fmt_v zap_err ctx c k] by (simp add: lru_port_def)
  show "lru_ok c \<Longrightarrow> cp_GetKeysAmount (lru_port zero fmt_v zap_err) c \<le> max 0 (lru_cap c)"
    by (auto simp: lru_ok_def lru_rep_def recency_ok_def lru_port_def GetKeysAmount_def ll.len_law)
qed

section \<open>The contract of a receiver\<close>

text \<open>
  \<open>given m\<close> says that \<open>m\<close> may be passed to \<open>OnSuccess\<close> or
  \<open>OnFail\<close>: a successful \<open>Consume\<close> returns such a message. No call panics, and
  \<open>Consume\<close> does not block on its own buffers.
\<close>

locale receiver_contract =
  fixes ok :: "'r \<Rightarrow> bool"
    and given :: "'m \<Rightarrow> bool"
    and port :: "('v, 'm, 'r) receiver_port"
  assumes consume_law: "ok r \<Longrightarrow> ctx_ok ctx \<Longrightarrow>
      \<exists>r' v m e. rp_Consume port ctx r = Some (r', Returns (v, m, e)) \<and> ok r' \<and> (e = None \<longrightarrow> given m)"
    and success_law: "ok r \<Longrightarrow> ctx_ok ctx \<Longrightarrow> given m \<Longrightarrow>
      \<exists>r' e. rp_OnSuccess port ctx m r = (r', Returns e) \<and> ok r'"
    and fail_law: "ok r \<Longrightarrow> ctx_ok ctx \<Longrightarrow> given m \<Longrightarrow>
      \<exists>r' e. rp_OnFail port ctx b m r = (r', Returns e) \<and> ok r'"
begin

text \<open>Finishing a message with either method, according to the outcome of its processing.\<close>

lemma finish_law:
  assumes "ok r" "ctx_ok ctx" "given m"
  shows "\<exists>r' e. (if good then rp_OnSuccess port ctx m r else rp_OnFail port ctx b m r) = (r', Returns e) \<and> ok r'"
  using success_law [OF assms] fail_law [OF assms] by simp

end

end
