(* ===== verification/OrderService.thy ===== *)
theory OrderService
  imports Ports
begin

text \<open>
  The order service of \<open>internal/service/order_service.go\<close>, over any storage and any
  cache. The world holds the state of the two ports, the log written so far and the
  goroutines that have been started and not yet run; \<open>run_task\<close> is the body of such a
  goroutine. The methods return to the caller before their goroutine runs, so a task may run
  at any later point.
\<close>

section \<open>The world of the service\<close>

text \<open>
  The goroutine that caches an order: the context, the key, the order, and the variable
  \<open>err\<close> that the closure captures.
\<close>

datatype go_task = CacheTask go_context string order "go_error option"

record ('st, 'ca) world =
  wd_storage :: 'st
  wd_cache :: 'ca
  wd_logs :: "log_record list"
  wd_tasks :: "go_task list"

definition on_storage :: "('st, 'a) run \<Rightarrow> (('st, 'ca) world, 'a) run" where
  "on_storage f w = (let (st, r) = f (wd_storage w) in (w\<lparr>wd_storage := st\<rparr>, r))"

definition on_cache :: "('ca, 'a) run \<Rightarrow> (('st, 'ca) world, 'a) run" where
  "on_cache f w = (let (ca, r) = f (wd_cache w) in (w\<lparr>wd_cache := ca\<rparr>, r))"

definition spawn :: "go_task \<Rightarrow> (('st, 'ca) world, unit) run" where
  "spawn t w = (w\<lparr>wd_tasks := wd_tasks w @ [t]\<rparr>, Returns ())"

text \<open>\<open>logger.GetLoggerFromCtx(ctx).Level(ctx, msg, fields)\<close>, with the record kept.\<close>

definition say ::
  "(logger_ptr \<Rightarrow> go_context \<Rightarrow> string \<Rightarrow> log_field list \<Rightarrow> log_record outcome) \<Rightarrow>
   go_context \<Rightarrow> string \<Rightarrow> log_field list \<Rightarrow> (('st, 'ca) world, unit) run" where
  "say level ctx msg flds w =
     (case ctx_log level ctx msg flds of
        Panics \<Rightarrow> (w, Panics)
      | Returns r \<Rightarrow> (w\<lparr>wd_logs := wd_logs w @ [r]\<rparr>, Returns ()))"

text \<open>\<open>zap.Error(err)\<close>, which is no field when the error is nil.\<close>

definition zap_Error :: "go_error option \<Rightarrow> log_field list" where
  "zap_Error err = (case err of None \<Rightarrow> [] | Some e \<Rightarrow> [(''error'', err_text e)])"

section \<open>The methods\<close>

definition GetOrder ::
  "'ca order_cache \<Rightarrow> 'st order_storage \<Rightarrow> go_context \<Rightarrow> string \<Rightarrow>
   (('st, 'ca) world, order \<times> go_error option) run" where
  "GetOrder cache storage ctx orderUID =
     bind_run (on_cache (cp_Get cache ctx orderUID)) (\<lambda>(result, found, err).
       case err of
         Some e \<Rightarrow> ret (zero_order, Some (Wrap ''error checking orders cache: '' e ''''))
       | None \<Rightarrow>
           if \<not> found
           then bind_run (on_storage (sp_GetOrderByID storage ctx orderUID)) (\<lambda>(result, err).
             case err of
               Some e \<Rightarrow>
                 bind_run (say Error ctx ''error retrieving order from storage''
                     ((''key'', orderUID) # zap_Error err))
                   (\<lambda>_. ret (zero_order, Some e))
             | None \<Rightarrow>
                 bind_run (spawn (CacheTask ctx (ord_OrderUID result) result err))
                   (\<lambda>_. ret (result, err)))
           else ret (result, err))"

definition GetLastOrders ::
  "'st order_storage \<Rightarrow> go_context \<Rightarrow> go_int \<Rightarrow>
   (('st, 'ca) world, order list \<times> go_error option) run" where
  "GetLastOrders storage ctx limit =
     bind_run (on_storage (sp_GetLastOrders storage ctx limit)) (\<lambda>(result, err).
       case err of
         Some e \<Rightarrow>
           bind_run (say Error ctx ''error getting last orders by limit''
               ((''limit'', itoa (sint limit)) # zap_Error err))
             (\<lambda>_. ret ([], Some (Wrap ''error getting last orders by limit: '' e '''')))
       | None \<Rightarrow> ret (result, None))"

definition SaveOrder ::
  "'st order_storage \<Rightarrow> go_context \<Rightarrow> order \<Rightarrow> (('st, 'ca) world, go_error option) run" where
  "SaveOrder storage ctx order =
     bind_run (on_storage (sp_SaveOrder storage ctx order)) (\<lambda>err.
       case err of
         Some e \<Rightarrow>
           bind_run (say Error ctx ''error saving order''
               ((''key'', ord_OrderUID order) # zap_Error err))
             (\<lambda>_. ret (Some e))
       | None \<Rightarrow>
           bind_run (spawn (CacheTask ctx (ord_OrderUID order) order err)) (\<lambda>_.
           bind_run (say Info ctx ''saved order'' [(''id'', ord_OrderUID order)])
             (\<lambda>_. ret None)))"

text \<open>The closure of \<open>GetOrder\<close> and \<open>SaveOrder\<close>: it tests \<open>err\<close>.\<close>

primrec run_task :: "'ca order_cache \<Rightarrow> go_task \<Rightarrow> (('st, 'ca) world, unit) run" where
  "run_task cache (CacheTask ctx key order err) =
     bind_run (on_cache (cp_Set cache ctx key order)) (\<lambda>cacheErr.
       if err \<noteq> None
       then say Error ctx ''error caching order'' ((''key'', key) # zap_Error cacheErr)
       else ret ())"

text \<open>
  The goroutines of the error group of \<open>CacheLastOrders\<close>, in the order in which they
  get the write lock of the cache. \<open>Wait\<close> returns the first error.
\<close>

primrec cache_group ::
  "'ca order_cache \<Rightarrow> go_context \<Rightarrow> go_error option \<Rightarrow> order list \<Rightarrow>
   (('st, 'ca) world, go_error option) run" where
  "cache_group cache ctx first [] = ret first"
| "cache_group cache ctx first (order # orders) =
     bind_run (on_cache (cp_Set cache ctx (ord_OrderUID order) order)) (\<lambda>err.
       cache_group cache ctx (if first = None then err else first) orders)"

definition CacheLastOrders ::
  "'ca order_cache \<Rightarrow> 'st order_storage \<Rightarrow> (order list \<Rightarrow> order list) \<Rightarrow> go_context \<Rightarrow> go_int \<Rightarrow>
   (('st, 'ca) world, go_error option) run" where
  "CacheLastOrders cache storage schedule ctx limit =
     bind_run (on_storage (sp_GetLastOrders storage ctx limit)) (\<lambda>(lastOrders, err).
       case err of
         Some e \<Rightarrow>
           bind_run (say Error ctx ''error getting last orders to cache''
               ((''limit'', itoa (sint limit)) # zap_Error err))
             (\<lambda>_. ret (Some (Wrap ''error getting last orders to cache: '' e '''')))
       | None \<Rightarrow>
           bind_run (cache_group cache ctx None (schedule lastOrders)) (\<lambda>err.
             case err of
               Some e \<Rightarrow>
                 bind_run (say Error ctx ''error caching last orders to cache''
                     ((''limit'', itoa (sint limit)) # zap_Error err))
                   (\<lambda>_. ret (Some (Wrap ''error caching last orders to cache: '' e '''')))
             | None \<Rightarrow> (\<lambda>w.
                 bind_run (say Info ctx ''cached last orders''
                     [(''count'', itoa (int (length lastOrders))),
                      (''total'', itoa (cp_GetKeysAmount cache (wd_cache w)))])
                   (\<lambda>_. ret None) w)))"

section \<open>What one call does\<close>

lemma on_storage_eq [simp]:
  "f (wd_storage w) = (st, r) \<Longrightarrow> on_storage f w = (w\<lparr>wd_storage := st\<rparr>, r)"
  by (simp add: on_storage_def)

lemma on_cache_eq [simp]:
  "f (wd_cache w) = (ca, r) \<Longrightarrow> on_cache f w = (w\<lparr>wd_cache := ca\<rparr>, r)"
  by (simp add: on_cache_def)

lemma say_ok [simp]:
  assumes "ctx_ok ctx"
  shows "say Debug ctx msg flds w = (w\<lparr>wd_logs := wd_logs w @ [log_rec DebugLevel ctx msg flds]\<rparr>, Returns ())"
    "say Info ctx msg flds w = (w\<lparr>wd_logs := wd_logs w @ [log_rec InfoLevel ctx msg flds]\<rparr>, Returns ())"
    "say Warn ctx msg flds w = (w\<lparr>wd_logs := wd_logs w @ [log_rec WarnLevel ctx msg flds]\<rparr>, Returns ())"
    "say Error ctx msg flds w = (w\<lparr>wd_logs := wd_logs w @ [log_rec ErrorLevel ctx msg flds]\<rparr>, Returns ())"
  using assms by (simp_all add: say_def)

lemma say_frame:
  "say lvl ctx msg flds w = (w', r) \<Longrightarrow> wd_storage w' = wd_storage w \<and> wd_cache w' = wd_cache w \<and>
     wd_tasks w' = wd_tasks w"
  by (auto simp: say_def split: outcome.splits)

lemma GetOrder_lru:
  assumes "lru_rep (wd_cache w) s" "ctx_ok ctx"
  shows "case map_of s uid of
      Some v \<Rightarrow>
        \<exists>c'. GetOrder (lru_order_port z) storage ctx uid w = (w\<lparr>wd_cache := c'\<rparr>, Returns (v, None)) \<and>
          lru_rep c' (spec_get uid s)
    | None \<Rightarrow>
       (case sp_GetOrderByID storage ctx uid (wd_storage w) of
          (st, Returns (v, None)) \<Rightarrow>
            GetOrder (lru_order_port z) storage ctx uid w =
              (w\<lparr>wd_storage := st, wd_tasks := wd_tasks w @ [CacheTask ctx (ord_OrderUID v) v None]\<rparr>,
               Returns (v, None))
        | (st, Returns (_, Some e)) \<Rightarrow>
            GetOrder (lru_order_port z) storage ctx uid w =
              (w\<lparr>wd_storage := st, wd_logs := wd_logs w @
                 [log_rec ErrorLevel ctx ''error retrieving order from storage''
                    [(''key'', uid), (''error'', err_text e)]]\<rparr>,
               Returns (zero_order, Some e))
        | (st, Panics) \<Rightarrow>
            GetOrder (lru_order_port z) storage ctx uid w = (w\<lparr>wd_storage := st\<rparr>, Panics))"
proof (cases "map_of s uid")
  case None
  have "on_cache (cp_Get (lru_order_port z) ctx uid) w = (w, Returns (zero_order, False, None))"
    using Get_miss_rep [OF assms(1) None assms(2), of zero_order "\<lambda>x. x" z]
    by (simp add: lru_order_port_def lru_port_def id_def on_cache_def)
  then show ?thesis using None assms(2)
    by (simp add: GetOrder_def ret_def spawn_def bind_run_def on_storage_def zap_Error_def
        split: prod.split outcome.split option.split)
next
  case (Some v)
  from Get_hit_rep [OF assms(1) this, of zero_order "\<lambda>x. x" z ctx] obtain c'
    where "cp_Get (lru_order_port z) ctx uid (wd_cache w) = (c', Returns (v, True, None))"
      "lru_rep c' (spec_get uid s)"
    by (auto simp: lru_order_port_def lru_port_def id_def)
  then show ?thesis using Some by (auto simp: GetOrder_def ret_def)
qed

text \<open>
  The cache-aside contract of \<open>GetOrder\<close> over the LRU cache, for any storage: a
  cached order is returned without touching the storage; otherwise the order that the storage
  returns is returned and exactly one goroutine is started, which will cache it; and an error
  of the storage is returned as it is, with the zero order and one log record.
\<close>

lemma GetOrder_cache_aside:
  assumes "lru_rep (wd_cache w) s" "ctx_ok ctx"
  shows "case map_of s uid of
      Some v \<Rightarrow>
        \<exists>c'. GetOrder (lru_order_port z) storage ctx uid w = (w\<lparr>wd_cache := c'\<rparr>, Returns (v, None)) \<and>
          lru_rep c' (spec_get uid s)
    | None \<Rightarrow>
       (case sp_GetOrderByID storage ctx uid (wd_storage w) of
          (st, Returns (v, None)) \<Rightarrow>
            GetOrder (lru_order_port z) storage ctx uid w =
              (w\<lparr>wd_storage := st, wd_tasks := wd_tasks w @ [CacheTask ctx (ord_OrderUID v) v None]\<rparr>,
               Returns (v, None))
        | (st, Returns (_, Some e)) \<Rightarrow>
            GetOrder (lru_order_port z) storage ctx uid w =
              (w\<lparr>wd_storage := st, wd_logs := wd_logs w @
                 [log_rec ErrorLevel ctx ''error retrieving order from storage''
                    [(''key'', uid), (''error'', err_text e)]]\<rparr>,
               Returns (zero_order, Some e))
        | (st, Panics) \<Rightarrow>
            GetOrder (lru_order_port z) storage ctx uid w = (w\<lparr>wd_storage := st\<rparr>, Panics))"
  by (rule GetOrder_lru [OF assms])

text \<open>
  A storage whose state is the list of the orders it has stored, used as a concrete port.
\<close>

definition list_storage :: "order list order_storage" where
  "list_storage =
     \<lparr>sp_GetOrderByID = (\<lambda>ctx uid os.
        (os, case filter (\<lambda>x. ord_OrderUID x = uid) os of
               [] \<Rightarrow> Returns (zero_order, Some (Sentinel ErrOrderNotFound))
             | x # _ \<Rightarrow> Returns (x, None))),
      sp_GetLastOrders = (\<lambda>ctx limit os. (os, Returns (take (unat limit) os, None))),
      sp_SaveOrder = (\<lambda>ctx x os. (x # os, Returns None))\<rparr>"

definition sample_world :: "(order list, (string, order) lru) world" where
  "sample_world = \<lparr>wd_storage = [sample_order], wd_cache = NewOrderCacheAdapterInMemoryLRU 2,
     wd_logs = [], wd_tasks = []\<rparr>"

lemma sample_world_rep: "lru_rep (wd_cache sample_world) []"
  using NewCache_rep by (simp add: sample_world_def NewOrderCacheAdapterInMemoryLRU_def)

lemma GetOrder_cache_aside_witness:
  "GetOrder (lru_order_port None) list_storage logged_ctx ''b563'' sample_world =
     (sample_world\<lparr>wd_tasks := [CacheTask logged_ctx ''b563'' sample_order None]\<rparr>,
      Returns (sample_order, None)) \<and>
   snd (GetOrder (lru_order_port None) list_storage logged_ctx ''nope'' sample_world) =
     Returns (zero_order, Some (Sentinel ErrOrderNotFound))"
  using GetOrder_cache_aside [OF sample_world_rep logged_ctx_ok, of None list_storage "''b563''"]
    GetOrder_cache_aside [OF sample_world_rep logged_ctx_ok, of None list_storage "''nope''"]
  by (simp add: list_storage_def sample_world_def sample_order_def)

section \<open>Errors of the caching goroutine\<close>

text \<open>
  C36: The goroutines of \<open>GetOrder\<close> and \<open>SaveOrder\<close> never log a caching
  error: they test the captured \<open>err\<close>, which is nil whenever they are started, and
  not \<open>cacheErr\<close>. So every task that the two methods start leaves the log as it was,
  whatever the cache's \<open>Set\<close> returns.
\<close>

theorem caching_errors_are_never_logged:
  assumes start: "GetOrder cache storage ctx uid w = (w1, r1) \<or> SaveOrder storage ctx order w = (w1, r2)"
    and task: "t \<in> set (wd_tasks w1)" "t \<notin> set (wd_tasks w)"
  shows "\<exists>ca. fst (run_task cache t w2) = w2\<lparr>wd_cache := ca\<rparr>"
proof -
  have "\<exists>k v. t = CacheTask ctx k v None"
    using start task
    by (auto simp: GetOrder_def SaveOrder_def on_cache_def on_storage_def bind_run_def ret_def spawn_def
        dest!: say_frame split: prod.splits outcome.splits option.splits if_splits)
  then obtain k v where "t = CacheTask ctx k v None" by blast
  then show ?thesis by (auto simp: bind_run_def on_cache_def ret_def split: prod.split outcome.split)
qed

text \<open>A cache that refuses every value.\<close>

definition broken_cache :: "unit order_cache" where
  "broken_cache = \<lparr>cp_Set = (\<lambda>ctx k v ca. (ca, Returns (Some (Ext ''cache is down'')))),
     cp_Get = (\<lambda>ctx k ca. (ca, Returns (zero_order, False, None))),
     cp_GetKeys = (\<lambda>ca. Some []), cp_GetKeysAmount = (\<lambda>ca. 0)\<rparr>"

theorem caching_errors_are_never_logged_witness:
  "\<exists>w1. SaveOrder list_storage logged_ctx sample_order
        \<lparr>wd_storage = [], wd_cache = (), wd_logs = [], wd_tasks = []\<rparr> = (w1, Returns None) \<and>
     wd_tasks w1 = [CacheTask logged_ctx ''b563'' sample_order None] \<and>
     (\<exists>ca. fst (run_task broken_cache (CacheTask logged_ctx ''b563'' sample_order None) w1) =
        w1\<lparr>wd_cache := ca\<rparr>)"
proof -
  let ?w = "\<lparr>wd_storage = [], wd_cache = (), wd_logs = [], wd_tasks = []\<rparr>"
  let ?t = "CacheTask logged_ctx ''b563'' sample_order None"
  obtain w1 where w1: "SaveOrder list_storage logged_ctx sample_order ?w = (w1, Returns None)"
    "wd_tasks w1 = [?t]"
    by (simp add: SaveOrder_def list_storage_def on_storage_def bind_run_def spawn_def ret_def
        sample_order_def)
  have "\<exists>ca. fst (run_task broken_cache ?t w1) = w1\<lparr>wd_cache := ca\<rparr>"
    using caching_errors_are_never_logged [of broken_cache list_storage logged_ctx "[]" ?w w1 _
        sample_order "Returns None" ?t w1] w1 by simp
  then show ?thesis using w1 by blast
qed

section \<open>Reachable worlds\<close>

text \<open>
  The calls that the process makes on the service, in any order, with the pending goroutines
  run at any time and in any order. Every call has a context with a logger, and the error
  group of \<open>CacheLastOrders\<close> runs its goroutines in any order.
\<close>

inductive service_reach ::
  "'ca order_cache \<Rightarrow> 'st order_storage \<Rightarrow> ('st, 'ca) world \<Rightarrow> ('st, 'ca) world \<Rightarrow> bool"
  for cache storage w0 where
  start: "service_reach cache storage w0 w0"
| get: "service_reach cache storage w0 w \<Longrightarrow> ctx_ok ctx \<Longrightarrow>
    GetOrder cache storage ctx uid w = (w', r) \<Longrightarrow> service_reach cache storage w0 w'"
| save: "service_reach cache storage w0 w \<Longrightarrow> ctx_ok ctx \<Longrightarrow>
    SaveOrder storage ctx order w = (w', r') \<Longrightarrow> service_reach cache storage w0 w'"
| last: "service_reach cache storage w0 w \<Longrightarrow> ctx_ok ctx \<Longrightarrow>
    GetLastOrders storage ctx limit w = (w', rs) \<Longrightarrow> service_reach cache storage w0 w'"
| warm: "service_reach cache storage w0 w \<Longrightarrow> ctx_ok ctx \<Longrightarrow> (\<forall>xs. mset (schedule xs) = mset xs) \<Longrightarrow>
    CacheLastOrders cache storage schedule ctx limit w = (w', r') \<Longrightarrow> service_reach cache storage w0 w'"
| task: "service_reach cache storage w0 w \<Longrightarrow> i < length (wd_tasks w) \<Longrightarrow>
    run_task cache (wd_tasks w ! i) (w\<lparr>wd_tasks := remove_nth i (wd_tasks w)\<rparr>) = (w', u) \<Longrightarrow>
    service_reach cache storage w0 w'"

text \<open>Orders that the storage has taken or given.\<close>

definition known_to_storage :: "'st order_storage \<Rightarrow> order \<Rightarrow> bool" where
  "known_to_storage storage v \<longleftrightarrow>
     (\<exists>ctx st st'. sp_SaveOrder storage ctx v st = (st', Returns None)) \<or>
     (\<exists>ctx uid st st'. sp_GetOrderByID storage ctx uid st = (st', Returns (v, None))) \<or>
     (\<exists>ctx limit st st' vs. sp_GetLastOrders storage ctx limit st = (st', Returns (vs, None)) \<and> v \<in> set vs)"

definition well_filed :: "'st order_storage \<Rightarrow> string \<Rightarrow> order \<Rightarrow> bool" where
  "well_filed storage k v \<longleftrightarrow> ord_OrderUID v = k \<and> known_to_storage storage v"

definition good_task :: "'st order_storage \<Rightarrow> go_task \<Rightarrow> bool" where
  "good_task storage t \<longleftrightarrow>
     (\<exists>ctx v. t = CacheTask ctx (ord_OrderUID v) v None \<and> ctx_ok ctx \<and> known_to_storage storage v)"

lemma good_task_saved:
  "sp_SaveOrder storage ctx v st = (st', Returns None) \<Longrightarrow> ctx_ok ctx' \<Longrightarrow>
     good_task storage (CacheTask ctx' (ord_OrderUID v) v None)"
  by (auto simp: good_task_def known_to_storage_def)

lemma good_task_read:
  "sp_GetOrderByID storage ctx uid st = (st', Returns (v, None)) \<Longrightarrow> ctx_ok ctx' \<Longrightarrow>
     good_task storage (CacheTask ctx' (ord_OrderUID v) v None)"
  unfolding good_task_def known_to_storage_def by blast

lemma set_remove_nth: "set (remove_nth i xs) \<subseteq> set xs"
  by (auto simp: remove_nth_def dest: in_set_takeD in_set_dropD)

locale order_cache_client =
  bounded_cache ok contents zero_order port capacity
  for ok :: "'ca \<Rightarrow> bool" and contents :: "'ca \<Rightarrow> string \<Rightarrow> order option"
    and port :: "'ca order_cache" and capacity :: "'ca \<Rightarrow> int"
begin

definition inv :: "int \<Rightarrow> 'st order_storage \<Rightarrow> ('st, 'ca) world \<Rightarrow> bool" where
  "inv n storage w \<longleftrightarrow>
     filed n (well_filed storage) (wd_cache w) \<and>
     (\<forall>t \<in> set (wd_tasks w). good_task storage t) \<and>
     (\<forall>r \<in> set (wd_logs w). log_msg r \<noteq> ''error caching order'')"

lemma GetOrder_inv:
  assumes "inv n storage w" "ctx_ok ctx" "GetOrder port storage ctx uid w = (w', r)"
  shows "inv n storage w'"
proof -
  obtain c' v found where c': "cp_Get port ctx uid (wd_cache w) = (c', Returns (v, found, None))"
    "filed n (well_filed storage) c'"
    using filed_get [of n "well_filed storage" "wd_cache w" ctx uid] assms(1,2)
    unfolding inv_def by blast
  show ?thesis
    using assms c' unfolding inv_def
    by (auto simp: GetOrder_def on_storage_def bind_run_def ret_def spawn_def intro: good_task_read
        split: prod.splits outcome.splits option.splits if_splits)
qed

lemma SaveOrder_inv:
  assumes "inv n storage w" "ctx_ok ctx" "SaveOrder storage ctx order w = (w', r)"
  shows "inv n storage w'"
  using assms unfolding inv_def
  by (auto simp: SaveOrder_def on_storage_def bind_run_def ret_def spawn_def intro: good_task_saved
      split: prod.splits outcome.splits option.splits if_splits)

lemma GetLastOrders_inv:
  assumes "inv n storage w" "ctx_ok ctx" "GetLastOrders storage ctx limit w = (w', r)"
  shows "inv n storage w'"
  using assms unfolding inv_def
  by (auto simp: GetLastOrders_def on_storage_def bind_run_def ret_def
      split: prod.splits outcome.splits option.splits if_splits)

lemma cache_group_inv:
  assumes "inv n storage w" "ctx_ok ctx" "\<forall>v \<in> set vs. known_to_storage storage v"
  shows "\<exists>c'. cache_group port ctx first vs w = (w\<lparr>wd_cache := c'\<rparr>, Returns first) \<and>
    inv n storage (w\<lparr>wd_cache := c'\<rparr>)"
  using assms(1,3)
proof (induction vs arbitrary: w)
  case Nil
  then show ?case by (auto simp: ret_def intro!: exI [of _ "wd_cache w"])
next
  case (Cons v vs)
  obtain c' where c': "cp_Set port ctx (ord_OrderUID v) v (wd_cache w) = (c', Returns None)"
    "filed n (well_filed storage) c'"
    using filed_set [of n "well_filed storage" "wd_cache w" ctx "ord_OrderUID v" v] Cons.prems assms(2)
    by (auto simp: inv_def well_filed_def)
  then have "inv n storage (w\<lparr>wd_cache := c'\<rparr>)" using Cons.prems by (simp add: inv_def)
  from Cons.IH [OF this] Cons.prems c' show ?case by auto
qed

lemma CacheLastOrders_inv:
  assumes "inv n storage w" "ctx_ok ctx" "\<forall>xs. mset (schedule xs) = mset xs"
    and "CacheLastOrders port storage schedule ctx limit w = (w', r)"
  shows "inv n storage w'"
proof (cases "sp_GetLastOrders storage ctx limit (wd_storage w)")
  case (Pair st res)
  let ?w = "w\<lparr>wd_storage := st\<rparr>"
  have i: "inv n storage ?w" using assms(1) by (simp add: inv_def)
  show ?thesis
  proof (cases "\<exists>vs. res = Returns (vs, None)")
    case True
    then obtain vs where vs: "res = Returns (vs, None)" by blast
    have "set (schedule vs) = set vs" using assms(3) by (metis set_mset_mset)
    then have "\<forall>v \<in> set (schedule vs). known_to_storage storage v"
      using Pair vs by (force simp: known_to_storage_def)
    from cache_group_inv [OF i assms(2) this, of None] obtain c'
      where "cache_group port ctx None (schedule vs) ?w = (?w\<lparr>wd_cache := c'\<rparr>, Returns None)"
        "inv n storage (?w\<lparr>wd_cache := c'\<rparr>)" by blast
    then show ?thesis using assms(2,4) Pair vs
      by (auto simp: CacheLastOrders_def ret_def inv_def bind_run_def on_storage_def)
  next
    case False
    then show ?thesis using assms(2,4) Pair i
      by (auto simp: CacheLastOrders_def on_storage_def bind_run_def ret_def inv_def
          split: outcome.splits option.splits)
  qed
qed

lemma run_task_inv:
  assumes "inv n storage w" "i < length (wd_tasks w)"
    and "run_task port (wd_tasks w ! i) (w\<lparr>wd_tasks := remove_nth i (wd_tasks w)\<rparr>) = (w', u)"
  shows "inv n storage w'"
proof -
  obtain ctx v where t: "wd_tasks w ! i = CacheTask ctx (ord_OrderUID v) v None" "ctx_ok ctx"
    "known_to_storage storage v"
    using assms(1) nth_mem [OF assms(2)] unfolding inv_def good_task_def by blast
  obtain c' where "cp_Set port ctx (ord_OrderUID v) v (wd_cache w) = (c', Returns None)"
    "filed n (well_filed storage) c'"
    using filed_set [of n "well_filed storage" "wd_cache w" ctx "ord_OrderUID v" v] assms(1) t
    by (auto simp: inv_def well_filed_def)
  then show ?thesis using assms t set_remove_nth [of i "wd_tasks w"]
    by (auto simp: inv_def ret_def)
qed

lemma reach_inv:
  assumes "service_reach port storage w0 w" "inv n storage w0"
  shows "inv n storage w"
  using assms(1)
proof (induction rule: service_reach.induct)
  case start
  then show ?case by (rule assms(2))
qed (blast intro: GetOrder_inv SaveOrder_inv GetLastOrders_inv CacheLastOrders_inv run_task_inv)+

end

interpretation lru_orders: order_cache_client lru_ok lru_data "lru_order_port z" lru_cap for z
  unfolding lru_order_port_def by unfold_locales

lemma lru_orders_start:
  "lru_orders.inv n storage
     \<lparr>wd_storage = st, wd_cache = NewOrderCacheAdapterInMemoryLRU n, wd_logs = [], wd_tasks = []\<rparr>"
  using NewOrderCache_ok [of n]
  by (simp add: lru_orders.inv_def lru_orders.filed_def lru_orders.all_entries_def
      NewOrderCacheAdapterInMemoryLRU_def NewCacheLRUInMemory_def)

text \<open>
  Whatever the storage, and however calls and caching goroutines are interleaved, a
  service that starts with an empty LRU cache of capacity \<open>n\<close> holds at most
  \<open>n\<close> orders, each filed under its own id and known to the storage; the goroutines
  still pending would cache only such orders.
\<close>

lemma service_cache_holds_stored_orders:
  assumes "service_reach (lru_order_port z) storage
      \<lparr>wd_storage = st, wd_cache = NewOrderCacheAdapterInMemoryLRU n, wd_logs = [], wd_tasks = []\<rparr> w"
  shows "\<exists>ks. GetKeys (wd_cache w) = Some ks \<and> distinct ks \<and> int (length ks) \<le> max 0 n \<and>
    (\<forall>k \<in> set ks. \<exists>v. lru_data (wd_cache w) k = Some v \<and> ord_OrderUID v = k \<and>
       known_to_storage storage v) \<and>
    (\<forall>t \<in> set (wd_tasks w). good_task storage t)"
proof -
  have i: "lru_orders.inv n storage w"
    by (rule lru_orders.reach_inv [OF assms lru_orders_start])
  then show ?thesis
    using lru_orders.filed_bound [of n "well_filed storage" "wd_cache w"]
    by (auto simp: lru_orders.inv_def well_filed_def lru_order_port_def lru_port_def)
qed

text \<open>The service that has just started from a storage with one order.\<close>

lemma sample_reach:
  "service_reach (lru_order_port None) list_storage sample_world
     (fst (GetOrder (lru_order_port None) list_storage logged_ctx ''b563'' sample_world))"
  by (rule service_reach.get [OF service_reach.start logged_ctx_ok]) (simp add: prod_eq_iff)

lemma service_cache_holds_stored_orders_witness:
  "\<exists>ks. GetKeys (wd_cache (fst (GetOrder (lru_order_port None) list_storage logged_ctx ''b563'' sample_world)))
     = Some ks \<and> distinct ks \<and> int (length ks) \<le> 2"
  using service_cache_holds_stored_orders [OF sample_reach [unfolded sample_world_def]]
  by (auto simp: sample_world_def)

section \<open>Writing and reading back\<close>

lemma lru_order_set:
  assumes "lru_rep c s" "ctx_ok ctx"
  obtains c' where "cp_Set (lru_order_port z) ctx k v c = (c', Returns None)"
    "lru_rep c' (spec_set (lru_cap c) k v s)" "lru_cap c' = lru_cap c"
  using Set_rep [OF assms, of id k v] by (auto simp: lru_order_port_def lru_port_def)

lemma saved_is_cached:
  assumes rep: "lru_rep (wd_cache w) s" "0 < lru_cap (wd_cache w)" "ctx_ok ctx" "wd_tasks w = []"
    and save: "sp_SaveOrder storage ctx v (wd_storage w) = (st, Returns None)"
  shows "\<exists>w1 t w2 s'. SaveOrder storage ctx v w = (w1, Returns None) \<and> wd_tasks w1 = [t] \<and>
    run_task (lru_order_port z) t (w1\<lparr>wd_tasks := []\<rparr>) = (w2, Returns ()) \<and>
    lru_rep (wd_cache w2) s' \<and> map_of s' (ord_OrderUID v) = Some v \<and>
    wd_storage w1 = st \<and> wd_storage w2 = st \<and> wd_tasks w2 = []"
proof -
  let ?t = "CacheTask ctx (ord_OrderUID v) v None"
  let ?w1 = "w\<lparr>wd_storage := st, wd_tasks := [?t],
    wd_logs := wd_logs w @ [log_rec InfoLevel ctx ''saved order'' [(''id'', ord_OrderUID v)]]\<rparr>"
  have s: "SaveOrder storage ctx v w = (?w1, Returns None)"
    using assms by (simp add: SaveOrder_def spawn_def bind_run_def ret_def)
  obtain c' where c': "cp_Set (lru_order_port z) ctx (ord_OrderUID v) v (wd_cache w) = (c', Returns None)"
    "lru_rep c' (spec_set (lru_cap (wd_cache w)) (ord_OrderUID v) v s)"
    using lru_order_set [OF rep(1,3)] by blast
  let ?w2 = "?w1\<lparr>wd_tasks := [], wd_cache := c'\<rparr>"
  have r: "run_task (lru_order_port z) ?t (?w1\<lparr>wd_tasks := []\<rparr>) = (?w2, Returns ())"
    using c' by (simp add: ret_def)
  have hit: "map_of (spec_set (lru_cap (wd_cache w)) (ord_OrderUID v) v s) (ord_OrderUID v) = Some v"
    using rep(2) by (cases "nat (lru_cap (wd_cache w))") (auto simp: spec_set_def)
  show ?thesis using s r c'(2) hit
    by (intro exI [of _ ?w1] exI [of _ ?t] exI [of _ ?w2] exI [of _ "spec_set (lru_cap (wd_cache w)) (ord_OrderUID v) v s"])
      (simp del: run_task.simps)
qed

text \<open>
  After a successful \<open>SaveOrder\<close> whose caching goroutine has run, \<open>GetOrder\<close>
  of that id returns exactly the saved order and does not ask the storage (for any storage
  that accepts the order and any cache of positive capacity).
\<close>

lemma GetOrder_after_SaveOrder:
  assumes rep: "lru_rep (wd_cache w) s" "0 < lru_cap (wd_cache w)" "ctx_ok ctx" "wd_tasks w = []"
    and save: "sp_SaveOrder storage ctx v (wd_storage w) = (st, Returns None)"
  shows "\<exists>w1 t w2 w3. SaveOrder storage ctx v w = (w1, Returns None) \<and> wd_tasks w1 = [t] \<and>
    run_task (lru_order_port z) t (w1\<lparr>wd_tasks := []\<rparr>) = (w2, Returns ()) \<and>
    GetOrder (lru_order_port z) storage ctx (ord_OrderUID v) w2 = (w3, Returns (v, None)) \<and>
    wd_storage w3 = st \<and> wd_tasks w3 = []"
proof -
  obtain w1 t w2 s' where w: "SaveOrder storage ctx v w = (w1, Returns None)" "wd_tasks w1 = [t]"
    "run_task (lru_order_port z) t (w1\<lparr>wd_tasks := []\<rparr>) = (w2, Returns ())"
    "lru_rep (wd_cache w2) s'" "map_of s' (ord_OrderUID v) = Some v" "wd_storage w2 = st" "wd_tasks w2 = []"
    using saved_is_cached [OF assms, of z] by blast
  obtain c' where "GetOrder (lru_order_port z) storage ctx (ord_OrderUID v) w2 = (w2\<lparr>wd_cache := c'\<rparr>, Returns (v, None))"
    using GetOrder_lru [OF w(4) assms(3), where uid = "ord_OrderUID v" and z = z and storage = storage] w(5) by auto
  then show ?thesis using w
    by (intro exI [of _ w1] exI [of _ t] exI [of _ w2] exI [of _ "w2\<lparr>wd_cache := c'\<rparr>"]) simp
qed

lemma GetOrder_after_SaveOrder_witness:
  "\<exists>w1 t w2 w3. SaveOrder list_storage logged_ctx sample_order sample_world = (w1, Returns None) \<and>
    wd_tasks w1 = [t] \<and>
    run_task (lru_order_port None) t (w1\<lparr>wd_tasks := []\<rparr>) = (w2, Returns ()) \<and>
    GetOrder (lru_order_port None) list_storage logged_ctx ''b563'' w2 = (w3, Returns (sample_order, None))"
proof -
  have "0 < lru_cap (wd_cache sample_world)" "wd_tasks sample_world = []"
    "sp_SaveOrder list_storage logged_ctx sample_order (wd_storage sample_world) =
      ([sample_order, sample_order], Returns None)"
    "ord_OrderUID sample_order = ''b563''"
    by (simp_all add: sample_world_def NewOrderCacheAdapterInMemoryLRU_def NewCacheLRUInMemory_def
        list_storage_def sample_order_def)
  then show ?thesis
    using GetOrder_after_SaveOrder [OF sample_world_rep _ logged_ctx_ok, of list_storage sample_order
        "[sample_order, sample_order]" None] by metis
qed

text \<open>
  A \<open>SaveOrder\<close> that the storage refuses returns the storage's error unchanged,
  starts no goroutine and leaves the cache as it was.
\<close>

lemma failed_save_is_not_cached:
  assumes "ctx_ok ctx" "sp_SaveOrder storage ctx v (wd_storage w) = (st, Returns (Some e))"
  shows "SaveOrder storage ctx v w =
    (w\<lparr>wd_storage := st, wd_logs := wd_logs w @ [log_rec ErrorLevel ctx ''error saving order''
       [(''key'', ord_OrderUID v), (''error'', err_text e)]]\<rparr>, Returns (Some e))"
  using assms by (simp add: SaveOrder_def bind_run_def ret_def zap_Error_def)

definition full_storage :: "nat order_storage" where
  "full_storage =
     \<lparr>sp_GetOrderByID = (\<lambda>ctx uid n. (n, Returns (zero_order, Some (Sentinel ErrOrderNotFound)))),
      sp_GetLastOrders = (\<lambda>ctx limit n. (n, Returns ([], None))),
      sp_SaveOrder = (\<lambda>ctx v n. (Suc n, Returns (Some (Ext ''disk full''))))\<rparr>"

lemma failed_save_is_not_cached_witness:
  "snd (SaveOrder full_storage logged_ctx sample_order
      \<lparr>wd_storage = 0, wd_cache = (), wd_logs = [], wd_tasks = []\<rparr>) =
    Returns (Some (Ext ''disk full''))"
  using failed_save_is_not_cached [OF logged_ctx_ok, of full_storage sample_order
      "\<lparr>wd_storage = 0, wd_cache = (), wd_logs = [], wd_tasks = []\<rparr>" 1 "Ext ''disk full''"]
  by (simp add: full_storage_def)

section \<open>Filling the cache at the start\<close>

definition by_uid :: "order \<Rightarrow> string \<times> order" where
  "by_uid v = (ord_OrderUID v, v)"

lemma spec_set_new:
  "k \<notin> fst ` set s \<Longrightarrow> spec_set cap k v (take (nat cap) s) = take (nat cap) ((k, v) # s)"
proof -
  assume "k \<notin> fst ` set s"
  then have "without k (take (nat cap) s) = take (nat cap) s"
    unfolding without_def by (intro filter_True) (auto dest: in_set_takeD)
  then show ?thesis by (cases "nat cap") (simp_all add: spec_set_def min_def)
qed

lemma cache_group_fills:
  assumes "lru_rep (wd_cache w) (take (nat n) s)" "lru_cap (wd_cache w) = n" "ctx_ok ctx"
    and "distinct (map ord_OrderUID vs)" "\<forall>v \<in> set vs. ord_OrderUID v \<notin> fst ` set s"
  shows "\<exists>c'. cache_group (lru_order_port z) ctx None vs w = (w\<lparr>wd_cache := c'\<rparr>, Returns None) \<and>
    lru_rep c' (take (nat n) (map by_uid (rev vs) @ s)) \<and> lru_cap c' = n"
  using assms(1,2,4,5)
proof (induction vs arbitrary: w s)
  case Nil
  then show ?case by (intro exI [of _ "wd_cache w"]) (simp add: ret_def)
next
  case (Cons v vs)
  obtain c1 where c1: "cp_Set (lru_order_port z) ctx (ord_OrderUID v) v (wd_cache w) = (c1, Returns None)"
    "lru_rep c1 (spec_set n (ord_OrderUID v) v (take (nat n) s))" "lru_cap c1 = n"
    using lru_order_set [OF Cons.prems(1) assms(3)] Cons.prems(2) by metis
  have "lru_rep c1 (take (nat n) (by_uid v # s))"
    using c1(2) Cons.prems(4) by (simp add: spec_set_new by_uid_def)
  moreover have "\<forall>x \<in> set vs. ord_OrderUID x \<notin> fst ` set (by_uid v # s)"
    using Cons.prems(3,4) by (auto simp: by_uid_def) (metis image_eqI)
  ultimately show ?case
    using Cons.IH [of "w\<lparr>wd_cache := c1\<rparr>" "by_uid v # s"] Cons.prems(3) c1 by auto
qed

lemma fills_cache:
  assumes storage: "sp_GetLastOrders storage ctx limit (wd_storage w) = (st, Returns (vs, None))"
    and distinct: "distinct (map ord_OrderUID vs)"
    and cache: "wd_cache w = NewOrderCacheAdapterInMemoryLRU n" and ctx: "ctx_ok ctx"
    and schedule: "mset (schedule vs) = mset vs"
  shows "\<exists>w'. CacheLastOrders (lru_order_port z) storage schedule ctx limit w = (w', Returns None) \<and>
    GetKeys (wd_cache w') = Some (take (nat n) (map ord_OrderUID (rev (schedule vs)))) \<and>
    (length vs \<le> nat n \<longrightarrow> (\<forall>v \<in> set vs. lru_data (wd_cache w') (ord_OrderUID v) = Some v))"
proof -
  let ?w = "w\<lparr>wd_storage := st\<rparr>" and ?vs = "schedule vs"
  have d: "distinct (map ord_OrderUID ?vs)"
    using distinct schedule by (metis mset_map mset_eq_imp_distinct_iff)
  have len: "length ?vs = length vs" and sets: "set ?vs = set vs"
    using schedule by (metis size_mset, metis set_mset_mset)
  obtain c' where c': "cache_group (lru_order_port z) ctx None ?vs ?w = (?w\<lparr>wd_cache := c'\<rparr>, Returns None)"
    "lru_rep c' (take (nat n) (map by_uid (rev ?vs)))"
    using cache_group_fills [of ?w n "[]" ctx ?vs z] NewCache_rep [of n] d ctx cache
    by (auto simp: NewOrderCacheAdapterInMemoryLRU_def NewCacheLRUInMemory_def)
  let ?w' = "?w\<lparr>wd_cache := c', wd_logs := wd_logs w @
    [log_rec InfoLevel ctx ''cached last orders'' [(''count'', itoa (int (length vs))),
      (''total'', itoa (cp_GetKeysAmount (lru_order_port z) c'))]]\<rparr>"
  have "CacheLastOrders (lru_order_port z) storage schedule ctx limit w = (?w', Returns None)"
    using storage c'(1) ctx by (simp add: CacheLastOrders_def bind_run_def ret_def)
  moreover have "GetKeys c' = Some (take (nat n) (map ord_OrderUID (rev ?vs)))"
    using c'(2) by (simp add: lru_rep_def GetKeys_def GetAll_rep take_map by_uid_def o_def)
  moreover have "lru_data c' (ord_OrderUID v) = Some v" if "length vs \<le> nat n" "v \<in> set vs" for v
  proof -
    have "take (nat n) (map by_uid (rev ?vs)) = map by_uid (rev ?vs)" using that len by simp
    then have "lru_data c' = map_of (map by_uid (rev ?vs))" using c'(2) by (simp add: lru_rep_def)
    moreover have "by_uid v \<in> set (map by_uid (rev ?vs))" using that sets by simp
    moreover have "distinct (map fst (map by_uid (rev ?vs)))"
      using d by (simp add: rev_map by_uid_def o_def flip: rev_map)
    ultimately show ?thesis by (simp add: map_of_is_SomeI by_uid_def)
  qed
  ultimately show ?thesis by (intro exI [of _ ?w']) simp
qed

text \<open>
  C32: \<open>CacheLastOrders\<close> on a new LRU cache, when the storage returns orders with
  distinct ids, succeeds under every schedule of its goroutines and leaves \<open>min n m\<close>
  of the \<open>m\<close> orders in a cache of capacity \<open>n\<close>: the last ones in the order
  in which the goroutines ran, so all of them when they fit.
\<close>

theorem CacheLastOrders_fills:
  assumes storage: "sp_GetLastOrders storage ctx limit (wd_storage w) = (st, Returns (vs, None))"
    and distinct: "distinct (map ord_OrderUID vs)"
    and cache: "wd_cache w = NewOrderCacheAdapterInMemoryLRU n" and ctx: "ctx_ok ctx"
    and schedule: "mset (schedule vs) = mset vs"
  shows "\<exists>w'. CacheLastOrders (lru_order_port z) storage schedule ctx limit w = (w', Returns None) \<and>
    GetKeys (wd_cache w') = Some (take (nat n) (map ord_OrderUID (rev (schedule vs)))) \<and>
    (length vs \<le> nat n \<longrightarrow> (\<forall>v \<in> set vs. lru_data (wd_cache w') (ord_OrderUID v) = Some v))"
  using assms by (intro fills_cache)

theorem CacheLastOrders_fills_witness:
  "\<exists>w'. CacheLastOrders (lru_order_port None) list_storage rev logged_ctx 5 sample_world = (w', Returns None) \<and>
    GetKeys (wd_cache w') = Some [''b563'']"
  using CacheLastOrders_fills [of list_storage logged_ctx 5 sample_world "[sample_order]" "[sample_order]" 2
      rev None]
  by (auto simp: list_storage_def sample_world_def sample_order_def)

end
