(* ===== verification/ApiServer.thy ===== *)
theory ApiServer
  imports ApiJson Logger
begin

text \<open>
  The generated server and client of the API: the router (\<open>oas_router_gen.go\<close>), the
  parameter of the operation (\<open>oas_parameters_gen.go\<close>), the validators
  (\<open>oas_validators_gen.go\<close>), writing and reading responses
  (\<open>oas_response_encoders_gen.go\<close>, \<open>oas_response_decoders_gen.go\<close>) and the
  request handler (\<open>oas_handlers_gen.go\<close>) without what it reports to OpenTelemetry, which
  \<open>ApiTelemetry\<close> adds, and the options of the server (\<open>oas_cfg_gen.go\<close>). The functions of the ogen library are the fields of
  \<open>ogen\<close>; \<open>og_DecodeValue\<close> is the path decoder's \<open>DecodeValue\<close> followed by
  \<open>conv.ToString\<close>.
\<close>

record ogen =
  og_NormalizeEscapedPath :: "string \<Rightarrow> string \<times> bool"
  og_escape_error :: "string \<Rightarrow> go_error"
  og_DecodeValue :: "string \<Rightarrow> go_error + string"
  og_ValidateString :: "nat \<Rightarrow> nat \<Rightarrow> string \<Rightarrow> go_error option"
  og_ValidateEmail :: "string \<Rightarrow> go_error option"
  og_ValidateInt :: "int \<Rightarrow> int \<Rightarrow> int \<Rightarrow> go_error option"
  og_ParseMediaType :: "string \<Rightarrow> go_error + string"

section \<open>Router\<close>

definition HasPrefix :: "string \<Rightarrow> string \<Rightarrow> bool" where
  "HasPrefix s p \<longleftrightarrow> take (length p) s = p"

record url =
  url_Path :: string
  url_RawPath :: string

definition cutPrefix :: "string \<Rightarrow> string \<Rightarrow> string \<times> bool" where
  "cutPrefix prefix path =
     (if prefix = [] then (path, True)
      else if \<not> HasPrefix path prefix then ([], False)
      else (drop (length prefix) path, True))"

definition order_prefix :: string where
  "order_prefix = ''/order/''"

text \<open>The unwrapped path search, the same in the server and in \<open>FindPath\<close>: the argument.\<close>

definition match_path :: "string \<Rightarrow> string option" where
  "match_path elem =
     (case elem of
        [] \<Rightarrow> None
      | c # _ \<Rightarrow>
          if c = CHR ''/''
          then (if HasPrefix elem order_prefix
                then (let elem = drop (length order_prefix) elem in
                      if CHR ''/'' \<in> set elem then None else Some elem)
                else None)
          else None)"

datatype dispatch = NotFoundRoute | NotAllowedRoute string | OrderIDGetRoute string bool

definition ServeHTTP :: "ogen \<Rightarrow> string \<Rightarrow> string \<Rightarrow> url \<Rightarrow> dispatch" where
  "ServeHTTP og prefix method u =
     (let (elem, elemIsEscaped) =
        (if url_RawPath u \<noteq> []
         then (case og_NormalizeEscapedPath og (url_RawPath u) of
                 (normalized, True) \<Rightarrow> (normalized, CHR ''%'' \<in> set normalized)
               | (_, False) \<Rightarrow> (url_Path u, False))
         else (url_Path u, False));
          (elem, ok) = cutPrefix prefix elem
      in if \<not> ok \<or> length elem = 0 then NotFoundRoute
         else (case match_path elem of
                 None \<Rightarrow> NotFoundRoute
               | Some arg \<Rightarrow>
                   if method = ''GET'' then OrderIDGetRoute arg elemIsEscaped else NotAllowedRoute ''GET''))"

text \<open>\<open>url.PathUnescape\<close>; \<open>None\<close> for a malformed escape.\<close>

definition hex_value :: "char \<Rightarrow> nat option" where
  "hex_value c =
     (let n = of_char c :: nat in
      if 48 \<le> n \<and> n \<le> 57 then Some (n - 48)
      else if 97 \<le> n \<and> n \<le> 102 then Some (n - 87)
      else if 65 \<le> n \<and> n \<le> 70 then Some (n - 55) else None)"

fun PathUnescape :: "string \<Rightarrow> string option" where
  "PathUnescape [] = Some []"
| "PathUnescape (c # cs) =
     (if c = CHR ''%''
      then (case cs of
              a # b # ds \<Rightarrow>
                (case (hex_value a, hex_value b) of
                   (Some x, Some y) \<Rightarrow> map_option ((#) (char_of (16 * x + y))) (PathUnescape ds)
                 | _ \<Rightarrow> None)
            | _ \<Rightarrow> None)
      else map_option ((#) c) (PathUnescape cs))"

record route =
  rt_name :: string
  rt_summary :: string
  rt_operationID :: string
  rt_pathPattern :: string
  rt_args :: "string list"

definition FindPath :: "ogen \<Rightarrow> string \<Rightarrow> string \<Rightarrow> url \<Rightarrow> route option" where
  "FindPath og prefix method u =
     (let raw = (url_RawPath u \<noteq> []);
          elem = (if raw
                  then (case og_NormalizeEscapedPath og (url_RawPath u) of
                          (normalized, True) \<Rightarrow> normalized | (_, False) \<Rightarrow> url_Path u)
                  else url_Path u);
          (elem, ok) = cutPrefix prefix elem
      in if \<not> ok then None
         else (case match_path elem of
                 None \<Rightarrow> None
               | Some arg \<Rightarrow>
                   if method = ''GET''
                   then Some \<lparr>rt_name = ''OrderIDGet'', rt_summary = ''Get order by ID'', rt_operationID = [],
                          rt_pathPattern = ''/order/{id}'',
                          rt_args = [if raw then (case PathUnescape arg of None \<Rightarrow> arg | Some s \<Rightarrow> s) else arg]\<rparr>
                   else None))"

definition FindRoute :: "ogen \<Rightarrow> string \<Rightarrow> string \<Rightarrow> string \<Rightarrow> route option" where
  "FindRoute og prefix method path = FindPath og prefix method \<lparr>url_Path = path, url_RawPath = []\<rparr>"

section \<open>The parameter\<close>

definition decodeOrderIDGetParams :: "ogen \<Rightarrow> string \<Rightarrow> bool \<Rightarrow> api_error + string" where
  "decodeOrderIDGetParams og arg argsEscaped =
     (let result =
        (case (if argsEscaped
               then (case PathUnescape arg of
                       None \<Rightarrow> Inl (ApiWrap ''unescape path'' (ApiErr (og_escape_error og arg)))
                     | Some unescaped \<Rightarrow> Inr unescaped)
               else Inr arg) of
           Inl err \<Rightarrow> Inl err
         | Inr param \<Rightarrow>
             if length param > 0
             then (case og_DecodeValue og param of
                     Inl err \<Rightarrow> Inl (ApiErr err)
                   | Inr c \<Rightarrow>
                       (case og_ValidateString og 1 50 c of
                          Some err \<Rightarrow> Inl (ApiWrap ''string'' (ApiErr err))
                        | None \<Rightarrow> Inr c))
             else Inl (ApiErr (Sentinel ErrFieldRequired)))
      in case result of
           Inl err \<Rightarrow> Inl (ApiWrap ''decode path parameter id'' err)
         | Inr v \<Rightarrow> Inr v)"

section \<open>Validators\<close>

definition Delivery_Validate :: "ogen \<Rightarrow> api_delivery \<Rightarrow> api_error option" where
  "Delivery_Validate og s =
     (case og_ValidateEmail og (ad_Email s) of
        Some err \<Rightarrow> Some (FieldErrors [(''email'', ApiWrap ''string'' (ApiErr err))])
      | None \<Rightarrow> None)"

definition OrderItem_Validate :: "ogen \<Rightarrow> api_item \<Rightarrow> api_error option" where
  "OrderItem_Validate og s =
     (case og_ValidateInt og 0 100 (sint (ai_Sale s)) of
        Some err \<Rightarrow> Some (FieldErrors [(''sale'', ApiWrap ''int'' (ApiErr err))])
      | None \<Rightarrow> None)"

primrec item_failures :: "ogen \<Rightarrow> nat \<Rightarrow> api_item list \<Rightarrow> (string \<times> api_error) list" where
  "item_failures og i [] = []"
| "item_failures og i (elem # elems) =
     (case OrderItem_Validate og elem of
        Some err \<Rightarrow> [(''['' @ itoa (int i) @ '']'', err)]
      | None \<Rightarrow> []) @ item_failures og (Suc i) elems"

definition items_error :: "ogen \<Rightarrow> api_item list option \<Rightarrow> api_error option" where
  "items_error og items =
     (case items of
        None \<Rightarrow> Some (ApiErr (Errorf ''nil is invalid value''))
      | Some elems \<Rightarrow>
          (let failures = item_failures og 0 elems in
           if length failures > 0 then Some (FieldErrors failures) else None))"

definition OrderResponse_Validate :: "ogen \<Rightarrow> api_order \<Rightarrow> api_error option" where
  "OrderResponse_Validate og s =
     (let failures =
        (case Delivery_Validate og (ao_Delivery s) of Some err \<Rightarrow> [(''delivery'', err)] | None \<Rightarrow> []) @
        (case items_error og (ao_Items s) of Some err \<Rightarrow> [(''items'', err)] | None \<Rightarrow> [])
      in if length failures > 0 then Some (FieldErrors failures) else None)"

section \<open>Writing responses\<close>

text \<open>
  A response: what has been written to an \<open>http.ResponseWriter\<close>, which is the status,
  the headers, and the documents of the body; and, where a client receives it, the error of
  reading its body. A second \<open>WriteHeader\<close> is ignored.
\<close>

record response =
  rs_status :: "int option"
  rs_headers :: "(string \<times> string) list"
  rs_body :: "json list"
  rs_read_err :: "go_error option"

definition empty_response :: response where
  "empty_response = \<lparr>rs_status = None, rs_headers = [], rs_body = [], rs_read_err = None\<rparr>"

definition Header_Set :: "string \<Rightarrow> string \<Rightarrow> response \<Rightarrow> response" where
  "Header_Set k v r = r\<lparr>rs_headers := (k, v) # filter (\<lambda>h. fst h \<noteq> k) (rs_headers r)\<rparr>"

definition WriteHeader :: "int \<Rightarrow> response \<Rightarrow> response" where
  "WriteHeader code r = (if rs_status r = None then r\<lparr>rs_status := Some code\<rparr> else r)"

text \<open>\<open>e.WriteTo(w)\<close> with the error that writing to the connection gives, if any.\<close>

definition WriteTo :: "go_error option \<Rightarrow> json \<Rightarrow> response \<Rightarrow> response \<times> go_error option" where
  "WriteTo write_err doc r =
     (case write_err of
        Some err \<Rightarrow> (r, Some (Wrap ''write: '' err ''''))
      | None \<Rightarrow> (r\<lparr>rs_body := rs_body r @ [doc]\<rparr>, None))"

definition json_content_type :: string where
  "json_content_type = ''application/json; charset=utf-8''"

definition write_json :: "go_error option \<Rightarrow> int \<Rightarrow> json \<Rightarrow> response \<Rightarrow> response \<times> go_error option" where
  "write_json write_err code doc r =
     WriteTo write_err doc (WriteHeader code (Header_Set ''Content-Type'' json_content_type r))"

definition encodeOrderIDGetResponse ::
  "jx \<Rightarrow> go_error option \<Rightarrow> order_id_get_res option \<Rightarrow> response \<Rightarrow> response \<times> go_error option" where
  "encodeOrderIDGetResponse jx write_err res r =
     (case res of
        Some (OrderResponse x) \<Rightarrow> write_json write_err 200 (OrderResponse_Encode jx x) r
      | Some (BadRequestErrorResponse x) \<Rightarrow> write_json write_err 400 (BadRequestErrorResponse_Encode x) r
      | Some (NotFoundErrorResponse x) \<Rightarrow> write_json write_err 404 (NotFoundErrorResponse_Encode x) r
      | Some (ErrorResponse x) \<Rightarrow> write_json write_err 500 (ErrorResponse_Encode x) r
      | None \<Rightarrow> (r, Some (Errorf ''unexpected response type: <nil>'')))"

text \<open>\<open>http.StatusText\<close>.\<close>

definition status_texts :: "(int \<times> string) list" where
  "status_texts =
     [(100, ''Continue''), (101, ''Switching Protocols''), (102, ''Processing''),
      (103, ''Early Hints''), (200, ''OK''), (201, ''Created''), (202, ''Accepted''),
      (203, ''Non-Authoritative Information''), (204, ''No Content''), (205, ''Reset Content''),
      (206, ''Partial Content''), (207, ''Multi-Status''), (208, ''Already Reported''),
      (226, ''IM Used''), (300, ''Multiple Choices''), (301, ''Moved Permanently''),
      (302, ''Found''), (303, ''See Other''), (304, ''Not Modified''), (305, ''Use Proxy''),
      (307, ''Temporary Redirect''), (308, ''Permanent Redirect''), (400, ''Bad Request''),
      (401, ''Unauthorized''), (402, ''Payment Required''), (403, ''Forbidden''),
      (404, ''Not Found''), (405, ''Method Not Allowed''), (406, ''Not Acceptable''),
      (407, ''Proxy Authentication Required''), (408, ''Request Timeout''), (409, ''Conflict''),
      (410, ''Gone''), (411, ''Length Required''), (412, ''Precondition Failed''),
      (413, ''Request Entity Too Large''), (414, ''Request URI Too Long''),
      (415, ''Unsupported Media Type''), (416, ''Requested Range Not Satisfiable''),
      (417, ''Expectation Failed''), (418, ''I'' @ CHR 39 # ''m a teapot''),
      (421, ''Misdirected Request''), (422, ''Unprocessable Entity''), (423, ''Locked''),
      (424, ''Failed Dependency''), (425, ''Too Early''), (426, ''Upgrade Required''),
      (428, ''Precondition Required''), (429, ''Too Many Requests''),
      (431, ''Request Header Fields Too Large''), (451, ''Unavailable For Legal Reasons''),
      (500, ''Internal Server Error''), (501, ''Not Implemented''), (502, ''Bad Gateway''),
      (503, ''Service Unavailable''), (504, ''Gateway Timeout''),
      (505, ''HTTP Version Not Supported''), (506, ''Variant Also Negotiates''),
      (507, ''Insufficient Storage''), (508, ''Loop Detected''), (510, ''Not Extended''),
      (511, ''Network Authentication Required'')]"

definition StatusText :: "int \<Rightarrow> string" where
  "StatusText code = (case map_of status_texts code of None \<Rightarrow> [] | Some t \<Rightarrow> t)"

definition encodeErrorResponse :: "go_error option \<Rightarrow> error_status \<Rightarrow> response \<Rightarrow> response \<times> go_error option" where
  "encodeErrorResponse write_err res r =
     (let code = (if es_StatusCode res = 0 then 200 else es_StatusCode res) in
      case write_json write_err code (ErrorResponse_Encode (es_Response res)) r of
        (r', Some err) \<Rightarrow> (r', Some err)
      | (r', None) \<Rightarrow>
          (r', if code \<ge> 500
               then Some (Wrap (''code: '' @ itoa code @ '', message: '' @ StatusText code @ '': '') (Sentinel ErrInternalServerErrorResponse) '''')
               else None))"

section \<open>Reading responses\<close>

text \<open>The body is decoded into a value; it must be exactly one document.\<close>

definition decode_body ::
  "ogen \<Rightarrow> response \<Rightarrow> (json \<Rightarrow> api_error + 'a) \<Rightarrow> api_error + 'a" where
  "decode_body og r decode =
     (case og_ParseMediaType og (case map_of (rs_headers r) ''Content-Type'' of None \<Rightarrow> [] | Some ct \<Rightarrow> ct) of
        Inl err \<Rightarrow> Inl (ApiWrap ''parse media type'' (ApiErr err))
      | Inr ct \<Rightarrow>
          if ct = ''application/json''
          then (case rs_read_err r of Some err \<Rightarrow> Inl (ApiErr err) | None \<Rightarrow>
               (case rs_body r of
                  [] \<Rightarrow> Inl (ApiWrap ct (ApiErr (Ext ''unexpected EOF'')))
                | doc # rest \<Rightarrow>
                    (case decode doc of
                       Inl err \<Rightarrow> Inl (ApiWrap ct err)
                     | Inr x \<Rightarrow>
                         if rest \<noteq> [] then Inl (ApiWrap ct (ApiErr (Errorf ''unexpected trailing data'')))
                         else Inr x)))
          else Inl (ApiErr (Errorf (''unexpected Content-Type: '' @ ct))))"

definition decoded_as :: "('a \<Rightarrow> order_id_get_res) \<Rightarrow> api_error + 'a \<Rightarrow> (api_error + error_status) + order_id_get_res" where
  "decoded_as f res = (case res of Inl err \<Rightarrow> Inl (Inl err) | Inr x \<Rightarrow> Inr (f x))"

text \<open>The convenient error response for every other status.\<close>

definition decode_default :: "ogen \<Rightarrow> jx \<Rightarrow> int \<Rightarrow> response \<Rightarrow> (api_error + error_status) + order_id_get_res" where
  "decode_default og jx code r =
     (case decode_body og r (ErrorResponse_Decode jx \<lparr>er_Message = []\<rparr>) of
        Inl err \<Rightarrow> Inl (Inl (ApiWrap (''default (code '' @ itoa code @ '')'') err))
      | Inr x \<Rightarrow> Inl (Inr \<lparr>es_StatusCode = code, es_Response = x\<rparr>))"

text \<open>The result of the client: a response of the schema, an error status, or an error.\<close>

definition decodeOrderIDGetResponse ::
  "ogen \<Rightarrow> jx \<Rightarrow> response \<Rightarrow> (api_error + error_status) + order_id_get_res" where
  "decodeOrderIDGetResponse og jx r =
     (let code = (case rs_status r of None \<Rightarrow> 200 | Some c \<Rightarrow> c) in
      if code = 200
      then (case decode_body og r (OrderResponse_Decode jx zero_api_order) of
              Inl err \<Rightarrow> Inl (Inl err)
            | Inr x \<Rightarrow>
                (case OrderResponse_Validate og x of
                   Some err \<Rightarrow> Inl (Inl (ApiWrap ''validate'' err))
                 | None \<Rightarrow> Inr (OrderResponse x)))
      else if code = 400
      then decoded_as BadRequestErrorResponse (decode_body og r (BadRequestErrorResponse_Decode jx \<lparr>br_Message = []\<rparr>))
      else if code = 404
      then decoded_as NotFoundErrorResponse (decode_body og r (NotFoundErrorResponse_Decode jx \<lparr>nf_Message = []\<rparr>))
      else if code = 500
      then decoded_as ErrorResponse (decode_body og r (ErrorResponse_Decode jx \<lparr>er_Message = []\<rparr>))
      else decode_default og jx code r)"

section \<open>Handling a request\<close>

text \<open>An error of a handler: the schema's own error type, or a plain error.\<close>

datatype handler_error = StatusErr error_status | PlainErr go_error

text \<open>What the error handler of the configuration is called with.\<close>

datatype server_error = ParamsErr api_error | NotImplErr handler_error | EncodeErr go_error

type_synonym 'w handle = "go_context \<Rightarrow> ('w, order_id_get_res option \<times> handler_error option) run"

record 'w api_handler =
  h_OrderIDGet :: "string \<Rightarrow> 'w handle"
  h_NewError :: "go_context \<Rightarrow> handler_error \<Rightarrow> error_status"

text \<open>The embedded \<open>UnimplementedHandler\<close> of \<open>oas_unimplemented_gen.go\<close>.\<close>

definition UnimplementedHandler :: "'w api_handler" where
  "UnimplementedHandler =
     \<lparr>h_OrderIDGet = (\<lambda>id ctx. ret (None, Some (PlainErr (Sentinel ErrNotImplemented)))),
      h_NewError = (\<lambda>ctx err. \<lparr>es_StatusCode = 0, es_Response = \<lparr>er_Message = []\<rparr>\<rparr>)\<rparr>"

text \<open>
  The parameters as the middleware sees them: a map to values of any type, from which the
  parameter is taken with a type assertion that panics.
\<close>

record parameter_key =
  pk_Name :: string
  pk_In :: string

definition id_parameter :: parameter_key where
  "id_parameter = \<lparr>pk_Name = ''id'', pk_In = ''path''\<rparr>"

definition packOrderIDGetParams :: "string \<Rightarrow> parameter_key \<rightharpoonup> any_value" where
  "packOrderIDGetParams ID = [id_parameter \<mapsto> VString ID]"

definition unpackOrderIDGetParams :: "(parameter_key \<rightharpoonup> any_value) \<Rightarrow> string outcome" where
  "unpackOrderIDGetParams packed =
     (case packed id_parameter of Some (VString s) \<Rightarrow> Returns s | _ \<Rightarrow> Panics)"

text \<open>
  The innermost function that \<open>middleware.HookMiddleware\<close> gives to the middleware. The
  modelled middlewares pass the request on with its parameters and may change the context.
\<close>

definition hookOrderIDGet :: "(parameter_key \<rightharpoonup> any_value) \<Rightarrow> 'w api_handler \<Rightarrow> 'w handle" where
  "hookOrderIDGet packed h ctx =
     (\<lambda>w. case unpackOrderIDGetParams packed of
        Panics \<Rightarrow> (w, Panics)
      | Returns ID \<Rightarrow> h_OrderIDGet h ID ctx w)"

lemma hookOrderIDGet_packed [simp]: "hookOrderIDGet (packOrderIDGetParams ID) h = h_OrderIDGet h ID"
  by (simp add: fun_eq_iff hookOrderIDGet_def unpackOrderIDGetParams_def packOrderIDGetParams_def)

record 'w server_config =
  sv_NotFound :: "response \<Rightarrow> response"
  sv_MethodNotAllowed :: "string \<Rightarrow> string \<Rightarrow> response \<Rightarrow> response"
  sv_ErrorHandler :: "server_error \<Rightarrow> response \<Rightarrow> response"
  sv_Prefix :: string
  sv_Middleware :: "('w handle \<Rightarrow> 'w handle) option"

text \<open>The method-not-allowed handler of \<open>newServerConfig\<close>.\<close>

definition default_MethodNotAllowed :: "string \<Rightarrow> string \<Rightarrow> response \<Rightarrow> response" where
  "default_MethodNotAllowed method allowed r =
     (if method = ''OPTIONS''
      then WriteHeader 204 (Header_Set ''Access-Control-Allow-Headers'' ''Content-Type''
             (Header_Set ''Access-Control-Allow-Methods'' allowed r))
      else WriteHeader 405 (Header_Set ''Allow'' allowed r))"

definition newServerConfig ::
  "(response \<Rightarrow> response) \<Rightarrow> (server_error \<Rightarrow> response \<Rightarrow> response) \<Rightarrow>
   ('w server_config \<Rightarrow> 'w server_config) list \<Rightarrow> 'w server_config" where
  "newServerConfig http_NotFound ogen_ErrorHandler opts =
     fold (\<lambda>opt cfg. opt cfg) opts
       \<lparr>sv_NotFound = http_NotFound, sv_MethodNotAllowed = default_MethodNotAllowed,
        sv_ErrorHandler = ogen_ErrorHandler, sv_Prefix = [], sv_Middleware = None\<rparr>"

text \<open>The options; \<open>chain\<close> is \<open>middleware.ChainMiddlewares\<close>. A nil handler is no change.\<close>

definition WithNotFound :: "(response \<Rightarrow> response) option \<Rightarrow> 'w server_config \<Rightarrow> 'w server_config" where
  "WithNotFound notFound cfg =
     (case notFound of Some h \<Rightarrow> cfg\<lparr>sv_NotFound := h\<rparr> | None \<Rightarrow> cfg)"

definition WithMethodNotAllowed ::
  "(string \<Rightarrow> string \<Rightarrow> response \<Rightarrow> response) option \<Rightarrow> 'w server_config \<Rightarrow> 'w server_config" where
  "WithMethodNotAllowed methodNotAllowed cfg =
     (case methodNotAllowed of Some h \<Rightarrow> cfg\<lparr>sv_MethodNotAllowed := h\<rparr> | None \<Rightarrow> cfg)"

definition WithErrorHandler ::
  "(server_error \<Rightarrow> response \<Rightarrow> response) option \<Rightarrow> 'w server_config \<Rightarrow> 'w server_config" where
  "WithErrorHandler h cfg = (case h of Some h \<Rightarrow> cfg\<lparr>sv_ErrorHandler := h\<rparr> | None \<Rightarrow> cfg)"

definition WithMiddleware ::
  "(('w handle \<Rightarrow> 'w handle) list \<Rightarrow> 'w handle \<Rightarrow> 'w handle) \<Rightarrow> ('w handle \<Rightarrow> 'w handle) list \<Rightarrow>
   'w server_config \<Rightarrow> 'w server_config" where
  "WithMiddleware chain m cfg =
     (case m of
        [] \<Rightarrow> cfg\<lparr>sv_Middleware := None\<rparr>
      | [m0] \<Rightarrow> cfg\<lparr>sv_Middleware := Some m0\<rparr>
      | _ \<Rightarrow> cfg\<lparr>sv_Middleware := Some (chain m)\<rparr>)"

definition WithPathPrefix :: "string \<Rightarrow> 'w server_config \<Rightarrow> 'w server_config" where
  "WithPathPrefix prefix cfg = cfg\<lparr>sv_Prefix := prefix\<rparr>"

text \<open>
  \<open>NewServer\<close>: \<open>metrics_err\<close> is the error of creating the three metrics of
  \<open>baseServer\<close>.
\<close>

definition NewServer ::
  "(response \<Rightarrow> response) \<Rightarrow> (server_error \<Rightarrow> response \<Rightarrow> response) \<Rightarrow> go_error option \<Rightarrow>
   'w api_handler \<Rightarrow> ('w server_config \<Rightarrow> 'w server_config) list \<Rightarrow> go_error + 'w api_handler \<times> 'w server_config" where
  "NewServer http_NotFound ogen_ErrorHandler metrics_err h opts =
     (case metrics_err of
        Some err \<Rightarrow> Inl err
      | None \<Rightarrow> Inr (h, newServerConfig http_NotFound ogen_ErrorHandler opts))"

text \<open>
  The part of \<open>handleOrderIDGetRequest\<close> after the handler has returned: the response
  and the call of the error handler.
\<close>

definition finish_request ::
  "jx \<Rightarrow> go_error option \<Rightarrow> 'w server_config \<Rightarrow> 'w api_handler \<Rightarrow> go_context \<Rightarrow>
   order_id_get_res option \<Rightarrow> handler_error option \<Rightarrow> response \<Rightarrow> response" where
  "finish_request jx write_err cfg h ctx res err r =
     (case err of
        Some (StatusErr errRes) \<Rightarrow> fst (encodeErrorResponse write_err errRes r)
      | Some (PlainErr e) \<Rightarrow>
          if errors_is e ErrNotImplemented then sv_ErrorHandler cfg (NotImplErr (PlainErr e)) r
          else fst (encodeErrorResponse write_err (h_NewError h ctx (PlainErr e)) r)
      | None \<Rightarrow>
          (case encodeOrderIDGetResponse jx write_err res r of
             (r', Some e) \<Rightarrow>
               if \<not> errors_is e ErrInternalServerErrorResponse then sv_ErrorHandler cfg (EncodeErr e) r' else r'
           | (r', None) \<Rightarrow> r'))"

definition handleOrderIDGetRequest ::
  "ogen \<Rightarrow> jx \<Rightarrow> go_error option \<Rightarrow> 'w server_config \<Rightarrow> 'w api_handler \<Rightarrow> go_context \<Rightarrow>
   string \<Rightarrow> bool \<Rightarrow> response \<Rightarrow> ('w, response) run" where
  "handleOrderIDGetRequest og jx write_err cfg h ctx arg argsEscaped r =
     (case decodeOrderIDGetParams og arg argsEscaped of
        Inl err \<Rightarrow> ret (sv_ErrorHandler cfg (ParamsErr err) r)
      | Inr ID \<Rightarrow>
          bind_run
            (case sv_Middleware cfg of
               Some m \<Rightarrow> m (hookOrderIDGet (packOrderIDGetParams ID) h) ctx
             | None \<Rightarrow> h_OrderIDGet h ID ctx)
            (\<lambda>(res, err). ret (finish_request jx write_err cfg h ctx res err r)))"

text \<open>\<open>ServeHTTP\<close> with the handlers it dispatches to.\<close>

definition serve ::
  "ogen \<Rightarrow> jx \<Rightarrow> go_error option \<Rightarrow> 'w server_config \<Rightarrow> 'w api_handler \<Rightarrow> go_context \<Rightarrow>
   string \<Rightarrow> url \<Rightarrow> ('w, response) run" where
  "serve og jx write_err cfg h ctx method u =
     (case ServeHTTP og (sv_Prefix cfg) method u of
        NotFoundRoute \<Rightarrow> ret (sv_NotFound cfg empty_response)
      | NotAllowedRoute allowed \<Rightarrow> ret (sv_MethodNotAllowed cfg method allowed empty_response)
      | OrderIDGetRoute arg escaped \<Rightarrow>
          handleOrderIDGetRequest og jx write_err cfg h ctx arg escaped empty_response)"

text \<open>A library whose escapes, media types and checks are simple ones.\<close>

definition plain_ogen :: ogen where
  "plain_ogen =
     \<lparr>og_NormalizeEscapedPath = (\<lambda>s. (s, True)), og_escape_error = (\<lambda>s. Ext ''invalid URL escape''),
      og_DecodeValue = (\<lambda>s. Inr s),
      og_ValidateString = (\<lambda>lo hi s. if length s < lo \<or> length s > hi then Some (Ext ''bad length'') else None),
      og_ValidateEmail = (\<lambda>s. if CHR ''@'' \<in> set s then None else Some (Ext ''bad email'')),
      og_ValidateInt = (\<lambda>lo hi i. if i < lo \<or> i > hi then Some (Ext ''out of range'') else None),
      og_ParseMediaType = (\<lambda>s. if s = json_content_type then Inr ''application/json'' else Inl (Ext ''bad type''))\<rparr>"

end
