(* ===== verification/HttpHandler.thy ===== *)
theory HttpHandler
  imports OrderService ApiServer ApiJsonProps
begin

text \<open>
  The handler of the API (\<open>internal/handlers/httphandlers/handler.go\<close>) over the order
  service, and the logging middleware (\<open>middlewares.go\<close>). First what the router and the
  response codec guarantee, then the handler, then whole requests.
\<close>

section \<open>The router\<close>

lemma match_path_iff: "match_path elem = Some arg \<longleftrightarrow> elem = order_prefix @ arg \<and> CHR ''/'' \<notin> set arg"
proof (cases "HasPrefix elem order_prefix")
  case True
  then obtain rest where "elem = order_prefix @ rest"
    by (metis HasPrefix_def append_take_drop_id)
  then show ?thesis by (auto simp: match_path_def HasPrefix_def order_prefix_def)
next
  case False
  then show ?thesis by (auto simp: match_path_def HasPrefix_def Let_def split: list.split)
qed

text \<open>
  A request is dispatched to the operation exactly when its method is \<open>GET\<close> and its
  path is the configured prefix, \<open>/order/\<close> and an argument without a slash; another method
  on such a path is refused with the allowed one, and every other path is not found. (For
  a URL without an encoded path.)
\<close>

lemma ServeHTTP_dispatch:
  assumes "url_RawPath u = []"
  shows "ServeHTTP og prefix method u =
    (if \<exists>arg. url_Path u = prefix @ order_prefix @ arg \<and> CHR ''/'' \<notin> set arg
     then (if method = ''GET''
           then OrderIDGetRoute (drop (length prefix + length order_prefix) (url_Path u)) False
           else NotAllowedRoute ''GET'')
     else NotFoundRoute)"
proof -
  have cut: "cutPrefix prefix (url_Path u) = (elem, True) \<longleftrightarrow> url_Path u = prefix @ elem" for elem
    by (auto simp: cutPrefix_def HasPrefix_def append_eq_conv_conj) (metis append_take_drop_id)+
  show ?thesis
  proof (cases "cutPrefix prefix (url_Path u)")
    case (Pair elem ok)
    let ?P = "\<lambda>arg. url_Path u = prefix @ order_prefix @ arg \<and> CHR ''/'' \<notin> set arg"
    have route: "ServeHTTP og prefix method u =
      (if \<not> ok then NotFoundRoute
       else (case match_path elem of
               None \<Rightarrow> NotFoundRoute
             | Some arg \<Rightarrow> if method = ''GET'' then OrderIDGetRoute arg False else NotAllowedRoute ''GET''))"
      using Pair assms by (simp add: ServeHTTP_def match_path_def)
    have ex: "(\<exists>arg. ?P arg) \<longleftrightarrow> ok \<and> (\<exists>arg. match_path elem = Some arg)"
    proof (cases ok)
      case True
      then have "url_Path u = prefix @ elem" using cut [of elem] Pair by simp
      then show ?thesis using True by (simp add: match_path_iff)
    next
      case False
      then have "url_Path u \<noteq> prefix @ rest" for rest using cut [of rest] Pair by simp
      then show ?thesis using False by blast
    qed
    show ?thesis
    proof (cases "\<exists>arg. ?P arg")
      case True
      then obtain arg where arg: "ok" "match_path elem = Some arg" using ex by blast
      then have "url_Path u = prefix @ order_prefix @ arg"
        using cut [of elem] Pair by (simp add: match_path_iff)
      then have "drop (length prefix + length order_prefix) (url_Path u) = arg" by simp
      then show ?thesis using route arg True by simp
    next
      case False
      then have "ok \<Longrightarrow> match_path elem = None" using ex by (cases "match_path elem") auto
      then show ?thesis using route False by simp
    qed
  qed
qed

lemma ServeHTTP_dispatch_witness:
  "ServeHTTP plain_ogen [] ''GET'' \<lparr>url_Path = ''/order/b563'', url_RawPath = []\<rparr> = OrderIDGetRoute ''b563'' False \<and>
   ServeHTTP plain_ogen [] ''GET'' \<lparr>url_Path = ''/order/b/3'', url_RawPath = []\<rparr> = NotFoundRoute"
  using ServeHTTP_dispatch [of "\<lparr>url_Path = ''/order/b563'', url_RawPath = []\<rparr>" plain_ogen "[]" "''GET''"]
    ServeHTTP_dispatch [of "\<lparr>url_Path = ''/order/b/3'', url_RawPath = []\<rparr>" plain_ogen "[]" "''GET''"]
  by (auto simp: order_prefix_def)

text \<open>
  \<open>FindPath\<close> finds a route exactly for the requests that the server dispatches to
  the operation: its argument is the one the handler gets, unescaped when the URL has an
  encoded path.
\<close>

lemma FindPath_agrees_with_ServeHTTP:
  "FindPath og prefix method u =
     (case ServeHTTP og prefix method u of
        OrderIDGetRoute arg escaped \<Rightarrow>
          Some \<lparr>rt_name = ''OrderIDGet'', rt_summary = ''Get order by ID'', rt_operationID = [],
            rt_pathPattern = ''/order/{id}'',
            rt_args = [if url_RawPath u = [] then arg
                       else (case PathUnescape arg of None \<Rightarrow> arg | Some s \<Rightarrow> s)]\<rparr>
      | _ \<Rightarrow> None)"
proof -
  have nil: "match_path [] = None" by (simp add: match_path_def)
  show ?thesis
    by (auto simp: FindPath_def ServeHTTP_def Let_def nil split: prod.split bool.split option.split)
qed

section \<open>Writing and reading a response\<close>

text \<open>What ogen's media type parser does with the content type that the server writes.\<close>

definition parses_own_type :: "ogen \<Rightarrow> bool" where
  "parses_own_type og \<longleftrightarrow> og_ParseMediaType og json_content_type = Inr ''application/json''"

primrec res_ok :: "ogen \<Rightarrow> jx \<Rightarrow> order_id_get_res \<Rightarrow> bool" where
  "res_ok og jx (OrderResponse x) \<longleftrightarrow> codec_ok jx x \<and> OrderResponse_Validate og x = None"
| "res_ok og jx (BadRequestErrorResponse x) \<longleftrightarrow> True"
| "res_ok og jx (NotFoundErrorResponse x) \<longleftrightarrow> True"
| "res_ok og jx (ErrorResponse x) \<longleftrightarrow> True"

lemma message_roundtrips:
  "BadRequestErrorResponse_Decode jx \<lparr>br_Message = []\<rparr> (BadRequestErrorResponse_Encode b) = Inr b"
  "NotFoundErrorResponse_Decode jx \<lparr>nf_Message = []\<rparr> (NotFoundErrorResponse_Encode n) = Inr n"
  "ErrorResponse_Decode jx \<lparr>er_Message = []\<rparr> (ErrorResponse_Encode e) = Inr e"
proof -
  note [simp] = decode_object_def in_field_def set_bit8_def missed_bits.simps
  show "BadRequestErrorResponse_Decode jx \<lparr>br_Message = []\<rparr> (BadRequestErrorResponse_Encode b) = Inr b"
    by (cases b) (simp add: BadRequestErrorResponse_Decode_def BadRequestErrorResponse_Encode_def
      BadRequestErrorResponse_encodeFields_def BadRequestErrorResponse_field_def)
  show "NotFoundErrorResponse_Decode jx \<lparr>nf_Message = []\<rparr> (NotFoundErrorResponse_Encode n) = Inr n"
    by (cases n) (simp add: NotFoundErrorResponse_Decode_def
      NotFoundErrorResponse_Encode_def NotFoundErrorResponse_encodeFields_def NotFoundErrorResponse_field_def)
  show "ErrorResponse_Decode jx \<lparr>er_Message = []\<rparr> (ErrorResponse_Encode e) = Inr e"
    by (cases e) (simp add: ErrorResponse_Decode_def ErrorResponse_Encode_def ErrorResponse_encodeFields_def ErrorResponse_field_def)
qed

lemma decode_body_json:
  "parses_own_type og \<Longrightarrow> decode doc = Inr x \<Longrightarrow>
    decode_body og \<lparr>rs_status = st, rs_headers = [(''Content-Type'', json_content_type)], rs_body = [doc], rs_read_err = None\<rparr> decode = Inr x"
  by (simp add: decode_body_def parses_own_type_def)

lemma write_json_ok: "write_json None code doc empty_response =
    (\<lparr>rs_status = Some code, rs_headers = [(''Content-Type'', json_content_type)], rs_body = [doc], rs_read_err = None\<rparr>, None)"
  by (simp add: write_json_def WriteTo_def WriteHeader_def Header_Set_def empty_response_def)

lemma response_roundtrip:
  assumes "parses_own_type og" "res_ok og jx res"
  shows "\<exists>r. encodeOrderIDGetResponse jx None (Some res) empty_response = (r, None) \<and>
    decodeOrderIDGetResponse og jx r = Inr res"
proof (cases res)
  case (OrderResponse x)
  then have "OrderResponse_Decode jx zero_api_order (OrderResponse_Encode jx x) = Inr x"
    using assms by (simp add: OrderResponse_roundtrip)
  then show ?thesis using OrderResponse assms
    by (simp add: encodeOrderIDGetResponse_def decodeOrderIDGetResponse_def write_json_ok decode_body_json)
qed (use assms in \<open>simp_all add: encodeOrderIDGetResponse_def decodeOrderIDGetResponse_def write_json_ok
       decode_body_json message_roundtrips decoded_as_def\<close>)

text \<open>
  What the server writes, the client reads back: for every response of the schema,
  the encoder writes a response that the client's decoder turns into that same value, with the
  status choosing the type. An order must have a date that the date format keeps, its optional
  fields either set or zero, a list of items, and pass the validation that only the client
  does; every error message is kept whatever it is.
\<close>

lemma client_reads_what_server_writes:
  assumes "parses_own_type og" "res_ok og jx res"
  shows "\<exists>r. encodeOrderIDGetResponse jx None (Some res) empty_response = (r, None) \<and>
    decodeOrderIDGetResponse og jx r = Inr res"
  by (rule response_roundtrip [OF assms])

lemma plain_ogen_type: "parses_own_type plain_ogen"
  by (simp add: parses_own_type_def plain_ogen_def)

lemma client_reads_what_server_writes_witness:
  "\<exists>r. encodeOrderIDGetResponse plain_jx None (Some (NotFoundErrorResponse \<lparr>nf_Message = ''order not found''\<rparr>)) empty_response = (r, None) \<and>
     rs_status r = Some 404 \<and>
     decodeOrderIDGetResponse plain_ogen plain_jx r = Inr (NotFoundErrorResponse \<lparr>nf_Message = ''order not found''\<rparr>)"
  using client_reads_what_server_writes [OF plain_ogen_type,
      of plain_jx "NotFoundErrorResponse \<lparr>nf_Message = ''order not found''\<rparr>"]
  by (simp add: encodeOrderIDGetResponse_def write_json_ok)

section \<open>The handler of the service\<close>

text \<open>The loop over the items and the struct literal of \<open>OrderIDGet\<close>.\<close>

definition api_item_of :: "order_item \<Rightarrow> api_item" where
  "api_item_of item =
     \<lparr>ai_ChrtID = itm_ChrtID item, ai_TrackNumber = itm_TrackNumber item, ai_Price = itm_Price item,
      ai_Rid = itm_RID item, ai_Name = itm_Name item, ai_Sale = itm_Sale item, ai_Size = itm_Size item,
      ai_TotalPrice = itm_TotalPrice item, ai_NmID = itm_NmID item, ai_Brand = itm_Brand item,
      ai_Status = itm_Status item\<rparr>"

definition api_order_of :: "order \<Rightarrow> api_order" where
  "api_order_of result =
     \<lparr>ao_OrderUID = ord_OrderUID result, ao_TrackNumber = ord_TrackNumber result, ao_Entry = ord_Entry result,
      ao_Delivery =
        (let d = ord_Delivery result in
         \<lparr>ad_Name = dlv_Name d, ad_Phone = dlv_Phone d, ad_Zip = dlv_Zip d, ad_City = dlv_City d,
          ad_Address = dlv_Address d, ad_Region = dlv_Region d, ad_Email = dlv_Email d\<rparr>),
      ao_Payment =
        (let p = ord_Payment result in
         \<lparr>ap_Transaction = pay_Transaction p,
          ap_RequestID = \<lparr>os_Value = pay_RequestID p, os_Set = True\<rparr>,
          ap_Currency = pay_Currency p, ap_Provider = pay_Provider p, ap_Amount = pay_Amount p,
          ap_PaymentDt = pay_PaymentDt p, ap_Bank = pay_Bank p, ap_DeliveryCost = pay_DeliveryCost p,
          ap_GoodsTotal = pay_GoodsTotal p, ap_CustomFee = pay_CustomFee p\<rparr>),
      ao_Items = Some (map api_item_of (ord_Items result)), ao_Locale = ord_Locale result,
      ao_InternalSignature = \<lparr>os_Value = ord_InternalSignature result, os_Set = True\<rparr>,
      ao_CustomerID = ord_CustomerID result, ao_DeliveryService = ord_DeliveryService result,
      ao_Shardkey = ord_ShardKey result, ao_SmID = ord_SmID result,
      ao_DateCreated = ord_DateCreated result, ao_OofShard = ord_OofShard result\<rparr>"

text \<open>\<open>logger.GetOrCreateLoggerFromCtx(ctx).Level(ctx, msg, fields)\<close>, with the record kept.\<close>

definition say_or_create ::
  "go_error option \<Rightarrow> (logger_ptr \<Rightarrow> go_context \<Rightarrow> string \<Rightarrow> log_field list \<Rightarrow> log_record outcome) \<Rightarrow>
   go_context \<Rightarrow> string \<Rightarrow> log_field list \<Rightarrow> (('st, 'ca) world, unit) run" where
  "say_or_create z level ctx msg flds w =
     (case ctx_log_or_create z level ctx msg flds of
        Panics \<Rightarrow> (w, Panics)
      | Returns r \<Rightarrow> (w\<lparr>wd_logs := wd_logs w @ [r]\<rparr>, Returns ()))"

definition OrderIDGet ::
  "go_error option \<Rightarrow> 'ca order_cache \<Rightarrow> 'st order_storage \<Rightarrow> string \<Rightarrow> ('st, 'ca) world handle" where
  "OrderIDGet z cache storage orderUID ctx =
     bind_run (GetOrder cache storage ctx orderUID) (\<lambda>(result, err).
       case err of
         Some e \<Rightarrow>
           if errors_is e ErrOrderNotFound
           then ret (Some (NotFoundErrorResponse \<lparr>nf_Message = err_text e\<rparr>), None)
           else ret (Some (ErrorResponse
                  \<lparr>er_Message = err_text (Wrap (''couldn'' @ CHR 39 # ''t get order: '') e '''')\<rparr>), None)
       | None \<Rightarrow>
           bind_run (say_or_create z Info ctx ''read order by id'' [(''order_uid'', orderUID)])
             (\<lambda>_. ret (Some (OrderResponse (api_order_of result)), None)))"

text \<open>The methods \<open>Error\<close> and \<open>Is\<close> of the errors that a handler returns.\<close>

primrec handler_err_text :: "handler_error \<Rightarrow> string" where
  "handler_err_text (StatusErr s) =
     ''code '' @ itoa (es_StatusCode s) @ '': {Message:'' @ er_Message (es_Response s) @ ''}''"
| "handler_err_text (PlainErr e) = err_text e"

primrec handler_err_is :: "handler_error \<Rightarrow> sentinel \<Rightarrow> bool" where
  "handler_err_is (StatusErr s) t = False"
| "handler_err_is (PlainErr e) t = errors_is e t"

definition NewError :: "go_context \<Rightarrow> handler_error \<Rightarrow> error_status" where
  "NewError ctx err =
     (if handler_err_is err ErrOrderNotFound
      then \<lparr>es_StatusCode = 404, es_Response = \<lparr>er_Message = handler_err_text err\<rparr>\<rparr>
      else \<lparr>es_StatusCode = 500, es_Response = \<lparr>er_Message = handler_err_text err\<rparr>\<rparr>)"

definition NewOrderServiceHTTPHandler ::
  "go_error option \<Rightarrow> 'ca order_cache \<Rightarrow> 'st order_storage \<Rightarrow> ('st, 'ca) world api_handler" where
  "NewOrderServiceHTTPHandler z cache storage =
     \<lparr>h_OrderIDGet = OrderIDGet z cache storage, h_NewError = NewError\<rparr>"

text \<open>
  The middleware: \<open>new_err\<close> is the error of \<open>zap.NewProduction\<close> in
  \<open>logger.New\<close>, \<open>z\<close> the one of a later call. A failed \<open>logger.New\<close>
  has replaced the request's context by nil before it is used for the log.
\<close>

definition LoggingMiddleware ::
  "go_error option \<Rightarrow> go_error option \<Rightarrow> ('st, 'ca) world handle \<Rightarrow> ('st, 'ca) world handle" where
  "LoggingMiddleware new_err z nxt ctx w =
     (case New_logger_ctx new_err ctx of
        Panics \<Rightarrow> (w, Panics)
      | Returns (ctx', err) \<Rightarrow>
          bind_run
            (case err of
               Some e \<Rightarrow> say_or_create z Error ctx' ''error creating logger for request'' (zap_Error err)
             | None \<Rightarrow> ret ())
            (\<lambda>_. bind_run (nxt ctx') (\<lambda>(resp, err).
               case err of
                 Some e \<Rightarrow>
                   bind_run (say_or_create z Error ctx' ''response with error''
                       [(''error'', handler_err_text e)])
                     (\<lambda>_. ret (resp, Some e))
               | None \<Rightarrow> ret (resp, None))) w)"

section \<open>Whole requests\<close>

text \<open>
  What a lookup of an order should give a client: the order, a 404 response with the error's
  text, or a 500 one.
\<close>

definition order_answer :: "order \<times> go_error option \<Rightarrow> order_id_get_res" where
  "order_answer a =
     (case snd a of
        None \<Rightarrow> OrderResponse (api_order_of (fst a))
      | Some e \<Rightarrow>
          if errors_is e ErrOrderNotFound then NotFoundErrorResponse \<lparr>nf_Message = err_text e\<rparr>
          else ErrorResponse \<lparr>er_Message = ''couldn'' @ CHR 39 # ''t get order: '' @ err_text e\<rparr>)"

primrec res_status :: "order_id_get_res \<Rightarrow> int" where
  "res_status (OrderResponse x) = 200"
| "res_status (BadRequestErrorResponse x) = 400"
| "res_status (NotFoundErrorResponse x) = 404"
| "res_status (ErrorResponse x) = 500"

text \<open>Where the answer comes from: the cache, or else the storage.\<close>

definition lookup_answer ::
  "(string, order) recency \<Rightarrow> 'st order_storage \<Rightarrow> go_context \<Rightarrow> string \<Rightarrow> 'st \<Rightarrow>
   (order \<times> go_error option) outcome" where
  "lookup_answer s storage ctx uid st =
     (case map_of s uid of
        Some v \<Rightarrow> Returns (v, None)
      | None \<Rightarrow> snd (sp_GetOrderByID storage ctx uid st))"

lemma GetOrder_answers:
  assumes "lru_rep (wd_cache w) s" "ctx_ok ctx"
    "lookup_answer s storage ctx uid (wd_storage w) = Returns a"
  shows "\<exists>w' v. GetOrder (lru_order_port zc) storage ctx uid w = (w', Returns (v, snd a)) \<and>
    (snd a = None \<longrightarrow> v = fst a) \<and> (\<exists>s'. lru_rep (wd_cache w') s')"
proof (cases "map_of s uid")
  case (Some v)
  then show ?thesis using GetOrder_lru [OF assms(1,2), where uid = uid and z = zc and storage = storage] assms(3)
    by (auto simp: lookup_answer_def)
next
  case None
  obtain st where st: "sp_GetOrderByID storage ctx uid (wd_storage w) = (st, Returns a)"
    using assms(3) None by (cases "sp_GetOrderByID storage ctx uid (wd_storage w)") (auto simp: lookup_answer_def)
  then show ?thesis using GetOrder_lru [OF assms(1,2), where uid = uid and z = zc and storage = storage] None assms(1)
    by (cases a; cases "snd a") auto
qed

lemma say_or_create_ok [simp]:
  assumes "ctx_ok ctx"
  shows "say_or_create z Info ctx msg flds w = (w\<lparr>wd_logs := wd_logs w @ [log_rec InfoLevel ctx msg flds]\<rparr>, Returns ())"
    "say_or_create z Error ctx msg flds w = (w\<lparr>wd_logs := wd_logs w @ [log_rec ErrorLevel ctx msg flds]\<rparr>, Returns ())"
  using assms by (simp_all add: say_or_create_def)

lemma OrderIDGet_answers:
  assumes "lru_rep (wd_cache w) s" "ctx_ok ctx"
    "lookup_answer s storage ctx uid (wd_storage w) = Returns a"
  shows "\<exists>w'. OrderIDGet z (lru_order_port zc) storage uid ctx w = (w', Returns (Some (order_answer a), None)) \<and>
    (\<exists>s'. lru_rep (wd_cache w') s')"
proof -
  obtain w' v s' where g: "GetOrder (lru_order_port zc) storage ctx uid w = (w', Returns (v, snd a))"
    "snd a = None \<longrightarrow> v = fst a" "lru_rep (wd_cache w') s'"
    using GetOrder_answers [OF assms] by blast
  show ?thesis
  proof (cases "snd a")
    case None
    then show ?thesis using g assms(2) by (auto simp: OrderIDGet_def order_answer_def ret_def)
  next
    case (Some e)
    then show ?thesis using g by (auto simp: OrderIDGet_def order_answer_def ret_def)
  qed
qed

text \<open>The context that the middleware makes from a request's.\<close>

definition with_logger :: "ctx_values \<Rightarrow> go_context" where
  "with_logger m = Some (m(KeyForLogger \<mapsto> VLogger LoggerPtr))"

lemma LoggingMiddleware_ok:
  assumes "nxt (with_logger m) w = (w', Returns (resp, None))"
  shows "LoggingMiddleware None z nxt (Some m) w = (w', Returns (resp, None))"
  using assms by (simp add: LoggingMiddleware_def New_logger_ctx_def NewLogger_def WithValue_def with_logger_def
      bind_run_def ret_def)

lemma with_logger_ok: "m KeyForRequestID = None \<Longrightarrow> ctx_ok (with_logger m)"
  by (simp add: ctx_ok_def with_logger_def KeyForLogger_def KeyForRequestID_def)

text \<open>A URL of the operation whose identifier the library accepts.\<close>

definition good_url :: "ogen \<Rightarrow> string \<Rightarrow> string \<Rightarrow> url \<Rightarrow> bool" where
  "good_url og prefix uid u \<longleftrightarrow>
     url_RawPath u = [] \<and> (\<exists>arg. arg \<noteq> [] \<and> url_Path u = prefix @ order_prefix @ arg \<and> CHR ''/'' \<notin> set arg \<and>
       og_DecodeValue og arg = Inr uid \<and> og_ValidateString og 1 50 uid = None)"

lemma decode_params_iff:
  "decodeOrderIDGetParams og arg False = Inr uid \<longleftrightarrow>
     arg \<noteq> [] \<and> og_DecodeValue og arg = Inr uid \<and> og_ValidateString og 1 50 uid = None"
  by (auto simp: decodeOrderIDGetParams_def split: option.splits sum.splits)

lemma good_url_dispatch:
  assumes "good_url og prefix uid u"
  shows "\<exists>arg. ServeHTTP og prefix ''GET'' u = OrderIDGetRoute arg False \<and>
    decodeOrderIDGetParams og arg False = Inr uid"
proof -
  obtain arg where u: "url_RawPath u = []" "url_Path u = prefix @ order_prefix @ arg"
    "CHR ''/'' \<notin> set arg" and arg: "arg \<noteq> []" "og_DecodeValue og arg = Inr uid" "og_ValidateString og 1 50 uid = None"
    using assms by (auto simp: good_url_def)
  have "cutPrefix prefix (url_Path u) = (order_prefix @ arg, True)"
    using u by (auto simp: cutPrefix_def HasPrefix_def)
  then have "ServeHTTP og prefix ''GET'' u = OrderIDGetRoute arg False"
    using u match_path_iff [of "order_prefix @ arg" arg] by (simp add: ServeHTTP_def order_prefix_def)
  then show ?thesis using arg by (auto simp: decode_params_iff)
qed

lemma serve_good_url:
  assumes "good_url og (sv_Prefix cfg) uid u"
  shows "serve og jx we cfg h ctx ''GET'' u =
    bind_run
      (case sv_Middleware cfg of
         Some m \<Rightarrow> m (h_OrderIDGet h uid) ctx
       | None \<Rightarrow> h_OrderIDGet h uid ctx)
      (\<lambda>(res, err). ret (finish_request jx we cfg h ctx res err empty_response))"
  using good_url_dispatch [OF assms] by (auto simp: serve_def handleOrderIDGetRequest_def split: option.split)

lemma write_res:
  "encodeOrderIDGetResponse jx None (Some res) empty_response = (r, None) \<Longrightarrow> rs_status r = Some (res_status res)"
  by (cases res) (auto simp: encodeOrderIDGetResponse_def write_json_ok)

lemma serve_order:
  assumes "good_url og (sv_Prefix cfg) uid u" "sv_Middleware cfg = Some (LoggingMiddleware None z)"
    "m KeyForRequestID = None" "lru_rep (wd_cache w) s"
    "lookup_answer s storage (with_logger m) uid (wd_storage w) = Returns a"
    "parses_own_type og"
  shows "\<exists>w' r. serve og jx None cfg (NewOrderServiceHTTPHandler z (lru_order_port zc) storage) (Some m) ''GET'' u w =
      (w', Returns r) \<and> (\<exists>s'. lru_rep (wd_cache w') s') \<and>
    rs_status r = Some (res_status (order_answer a)) \<and>
    (res_ok og jx (order_answer a) \<longrightarrow> decodeOrderIDGetResponse og jx r = Inr (order_answer a))"
proof -
  obtain w' s' where h: "OrderIDGet z (lru_order_port zc) storage uid (with_logger m) w =
      (w', Returns (Some (order_answer a), None))" "lru_rep (wd_cache w') s'"
    using OrderIDGet_answers [OF assms(4) _ assms(5)] with_logger_ok [of m, OF assms(3)] by blast
  obtain r where r: "encodeOrderIDGetResponse jx None (Some (order_answer a)) empty_response = (r, None)"
    by (cases "order_answer a") (simp_all add: encodeOrderIDGetResponse_def write_json_ok)
  have "serve og jx None cfg (NewOrderServiceHTTPHandler z (lru_order_port zc) storage) (Some m) ''GET'' u w =
      (w', Returns r)"
    using serve_good_url [OF assms(1)] LoggingMiddleware_ok [where nxt = "OrderIDGet z (lru_order_port zc) storage uid" and m = m, OF h(1)] assms(2) r
    by (simp add: NewOrderServiceHTTPHandler_def finish_request_def ret_def)
  then show ?thesis
    using h(2) write_res [OF r] response_roundtrip [OF assms(6), of jx "order_answer a"] r by auto
qed

text \<open>
  C5: A request for an order, from the URL to the client: behind the logging
  middleware, the server writes status 200 with the order when the cache or else the storage
  has it, 404 with the error's text when the storage does not find it, and 500 for every other
  error of the storage, and the cache stays well formed; what the client decodes is the order
  (mapped field by field) or that error. The client's half needs an order that its validation
  and date format accept.
\<close>

theorem get_order_end_to_end:
  assumes "good_url og (sv_Prefix cfg) uid u" "sv_Middleware cfg = Some (LoggingMiddleware None z)"
    "m KeyForRequestID = None" "lru_rep (wd_cache w) s"
    "lookup_answer s storage (with_logger m) uid (wd_storage w) = Returns a"
    "parses_own_type og"
  shows "\<exists>w' r. serve og jx None cfg (NewOrderServiceHTTPHandler z (lru_order_port zc) storage) (Some m) ''GET'' u w =
      (w', Returns r) \<and> (\<exists>s'. lru_rep (wd_cache w') s') \<and>
    rs_status r = Some (res_status (order_answer a)) \<and>
    (res_ok og jx (order_answer a) \<longrightarrow> decodeOrderIDGetResponse og jx r = Inr (order_answer a))"
  by (rule serve_order [OF assms])

definition sample_config :: "('st, 'ca) world server_config" where
  "sample_config = newServerConfig (WriteHeader 404) (\<lambda>e. WriteHeader 400) [WithMiddleware hd [LoggingMiddleware None None]]"

lemma sample_config_fields [simp]:
  "sv_Prefix sample_config = []" "sv_Middleware sample_config = Some (LoggingMiddleware None None)"
  by (simp_all add: sample_config_def newServerConfig_def WithMiddleware_def)

definition order_url :: "string \<Rightarrow> url" where
  "order_url uid = \<lparr>url_Path = ''/order/'' @ uid, url_RawPath = []\<rparr>"

lemma order_url_good:
  "uid \<noteq> [] \<Longrightarrow> length uid \<le> 50 \<Longrightarrow> CHR ''/'' \<notin> set uid \<Longrightarrow> good_url plain_ogen [] uid (order_url uid)"
  by (cases uid) (auto simp: good_url_def order_url_def plain_ogen_def order_prefix_def)

theorem get_order_end_to_end_witness:
  "\<exists>w' r. serve plain_ogen plain_jx None sample_config
        (NewOrderServiceHTTPHandler None (lru_order_port None) list_storage) Background ''GET''
        (order_url ''b563'') sample_world = (w', Returns r) \<and>
    rs_status r = Some 200 \<and>
    decodeOrderIDGetResponse plain_ogen plain_jx r = Inr (OrderResponse (api_order_of sample_order))"
proof -
  have a: "lookup_answer [] list_storage (with_logger (\<lambda>_. None)) ''b563'' (wd_storage sample_world) =
      Returns (sample_order, None)"
    by (simp add: lookup_answer_def list_storage_def sample_world_def sample_order_def)
  have ok: "res_ok plain_ogen plain_jx (order_answer (sample_order, None))"
    by (simp add: order_answer_def codec_ok_def opt_ok_def api_order_of_def sample_order_def plain_jx_def itoa_def
        nat_digits.simps digit_char_def OrderResponse_Validate_def Delivery_Validate_def items_error_def
        OrderItem_Validate_def plain_ogen_def api_item_of_def sample_item_def char_of_def bit_0)
  have url: "good_url plain_ogen (sv_Prefix sample_config) ''b563'' (order_url ''b563'')"
    using order_url_good [of "''b563''"] by simp
  show ?thesis
    using get_order_end_to_end [where m = "\<lambda>_. None" and jx = plain_jx and zc = None,
        OF url sample_config_fields(2) refl sample_world_rep a plain_ogen_type] ok
    by (auto simp: Background_def order_answer_def)
qed

section \<open>The middleware without a logger\<close>

lemma nil_context_panics: "say_or_create z lvl None msg flds w = (w, Panics)"
  by (simp add: say_or_create_def GetOrCreateLoggerFromCtx_def GetLoggerFromCtx_def ctx_Value_def)

text \<open>
  C37: When \<open>logger.New\<close> fails, the middleware does not log the error and go on, as it
  means to: it has put the nil context of the failed call into the request, so its own attempt
  to log panics. No request for an order is answered then, whatever handler is served, and the
  handler is never called.
\<close>

theorem middleware_panics_without_logger:
  assumes "good_url og (sv_Prefix cfg) uid u" "sv_Middleware cfg = Some (LoggingMiddleware (Some e) z)"
  shows "serve og jx we cfg h ctx ''GET'' u w = (w, Panics)"
  using serve_good_url [OF assms(1)] assms(2)
  by (simp add: LoggingMiddleware_def New_logger_ctx_def NewLogger_def nil_context_panics)

theorem middleware_panics_without_logger_witness:
  "serve plain_ogen plain_jx None
      (WithMiddleware hd [LoggingMiddleware (Some (Ext ''open sink'')) None] sample_config)
      (NewOrderServiceHTTPHandler None (lru_order_port None) list_storage) Background ''GET''
      (order_url ''b563'') sample_world = (sample_world, Panics)"
proof -
  have url: "good_url plain_ogen (sv_Prefix
      (WithMiddleware hd [LoggingMiddleware (Some (Ext ''open sink'')) None] sample_config)) ''b563'' (order_url ''b563'')"
    using order_url_good [of "''b563''"] by (simp add: WithMiddleware_def)
  show ?thesis
    by (rule middleware_panics_without_logger [OF url]) (simp add: WithMiddleware_def)
qed

section \<open>Requests that do not reach the handler\<close>

text \<open>
  A request whose plain URL is not one of an acceptable order identifier, or whose
  method is not \<open>GET\<close>, is answered without touching the service: no cache, storage,
  log or goroutine changes, whatever the handler and the middleware do.
\<close>

lemma refused_requests_touch_nothing:
  assumes "url_RawPath u = []" "method \<noteq> ''GET'' \<or> (\<nexists>uid. good_url og (sv_Prefix cfg) uid u)"
  shows "\<exists>r. serve og jx we cfg h ctx method u w = (w, Returns r)"
proof (cases "ServeHTTP og (sv_Prefix cfg) method u")
  case (OrderIDGetRoute arg escaped)
  obtain elem ok where c: "cutPrefix (sv_Prefix cfg) (url_Path u) = (elem, ok)" by fastforce
  from OrderIDGetRoute c assms(1) have d: "ok" "method = ''GET''" "match_path elem = Some arg" "\<not> escaped"
    by (auto simp: ServeHTTP_def split: option.splits if_splits)
  then have "url_Path u = sv_Prefix cfg @ elem"
    using c by (auto simp: cutPrefix_def HasPrefix_def append_eq_conv_conj split: if_splits)
       (metis append_take_drop_id)
  then have p: "url_Path u = sv_Prefix cfg @ order_prefix @ arg" "CHR ''/'' \<notin> set arg"
    using d(3) by (simp_all add: match_path_iff)
  have "decodeOrderIDGetParams og arg False \<noteq> Inr uid" for uid
  proof
    assume "decodeOrderIDGetParams og arg False = Inr uid"
    then have "good_url og (sv_Prefix cfg) uid u"
      using p assms(1) by (auto simp: good_url_def decode_params_iff)
    then show False using assms(2) d(2) by blast
  qed
  then obtain e where "decodeOrderIDGetParams og arg False = Inl e"
    by (cases "decodeOrderIDGetParams og arg False") auto
  then show ?thesis using OrderIDGetRoute d(4)
    by (simp add: serve_def handleOrderIDGetRequest_def ret_def)
qed (simp_all add: serve_def ret_def)

lemma refused_requests_touch_nothing_witness:
  "\<exists>r. serve plain_ogen plain_jx None sample_config
      (NewOrderServiceHTTPHandler None (lru_order_port None) list_storage) Background ''DELETE''
      (order_url ''b563'') sample_world = (sample_world, Returns r)"
  by (rule refused_requests_touch_nothing) (simp_all add: order_url_def)

end
