(* ===== verification/ApiConformance.thy ===== *)
theory ApiConformance
  imports ApiSchemaTypes HttpHandler
begin

text \<open>
  Conformance to the OpenAPI document, with the formats and bounds that the generated
  validators check: the client takes a successful answer exactly when its body conforms.
\<close>

section \<open>Conforming documents\<close>

definition conforming :: "ogen \<Rightarrow> jx \<Rightarrow> schema \<Rightarrow> json \<Rightarrow> bool" where
  "conforming og =
     conforms (\<lambda>s. og_ValidateEmail og s = None) (\<lambda>(lo, hi) i. og_ValidateInt og lo hi i = None)"

definition check_free :: "ogen \<Rightarrow> jx \<Rightarrow> schema \<Rightarrow> bool" where
  "check_free og jx t \<longleftrightarrow> (\<forall>v. conforming og jx t v = well_typed jx t v)"

lemma check_free_simps:
  "check_free og jx TString" "check_free og jx TDateTime" "check_free og jx (TInteger None)"
  by (simp_all add: check_free_def conforming_def split: json.split)

lemma conforming_object:
  assumes "list_all (\<lambda>(n, t). n \<in> set ns \<or> check_free og jx t) ps"
  shows "conforming og jx (TObject ps req) (JObj kvs) \<longleftrightarrow> well_typed jx (TObject ps req) (JObj kvs) \<and>
    (\<forall>(n, v) \<in> set kvs. n \<in> set ns \<longrightarrow> list_all (\<lambda>(n', t). n' = n \<longrightarrow> conforming og jx t v) ps)"
proof -
  have "(\<forall>(n, t) \<in> set ps. \<forall>v. (n, v) \<in> set kvs \<longrightarrow> conforming og jx t v) \<longleftrightarrow>
      (\<forall>(n, t) \<in> set ps. \<forall>v. (n, v) \<in> set kvs \<longrightarrow> well_typed jx t v) \<and>
      (\<forall>(n, t) \<in> set ps. n \<in> set ns \<longrightarrow> (\<forall>v. (n, v) \<in> set kvs \<longrightarrow> conforming og jx t v))"
    using assms conforms_well_typed unfolding conforming_def check_free_def list_all_iff by fast
  moreover have "list_all (\<lambda>(n, t). list_all (\<lambda>kv. fst kv = n \<longrightarrow> P t (snd kv)) kvs) ps \<longleftrightarrow>
      (\<forall>(n, t) \<in> set ps. \<forall>v. (n, v) \<in> set kvs \<longrightarrow> P t v)" for P
    by (fastforce simp: list_all_iff)
  moreover have "(\<forall>(n, v) \<in> set kvs. n \<in> set ns \<longrightarrow> list_all (\<lambda>(n', t). n' = n \<longrightarrow> conforming og jx t v) ps) \<longleftrightarrow>
      (\<forall>(n, t) \<in> set ps. n \<in> set ns \<longrightarrow> (\<forall>v. (n, v) \<in> set kvs \<longrightarrow> conforming og jx t v))"
    by (fastforce simp: list_all_iff)
  ultimately show ?thesis by (simp add: conforming_def)
qed

lemma check_free_Payment: "check_free og jx schema_Payment"
proof -
  have "conforming og jx schema_Payment (JObj kvs) = well_typed jx schema_Payment (JObj kvs)" for kvs
    unfolding schema_Payment_def by (subst conforming_object [where ns = "[]"]) (simp_all add: check_free_simps)
  then have "conforming og jx schema_Payment v = well_typed jx schema_Payment v" for v
    by (cases v) (simp_all add: conforming_def schema_Payment_def del: conforms.simps(1-5,7))
  then show ?thesis unfolding check_free_def by blast
qed

lemma conforming_Delivery:
  "conforming og jx schema_Delivery (JObj kvs) \<longleftrightarrow> well_typed jx schema_Delivery (JObj kvs) \<and>
     (\<forall>(n, v) \<in> set kvs. n = ''email'' \<longrightarrow> conforming og jx TEmail v)"
  unfolding schema_Delivery_def
  by (subst conforming_object [where ns = "[''email'']"]) (auto simp add: check_free_simps simp del: conforms.simps)

lemma conforming_OrderItem:
  "conforming og jx schema_OrderItem (JObj kvs) \<longleftrightarrow> well_typed jx schema_OrderItem (JObj kvs) \<and>
     (\<forall>(n, v) \<in> set kvs. n = ''sale'' \<longrightarrow> conforming og jx (TInteger (Some (0, 100))) v)"
  unfolding schema_OrderItem_def
  by (subst conforming_object [where ns = "[''sale'']"]) (auto simp add: check_free_simps simp del: conforms.simps)

lemma conforming_OrderResponse:
  "conforming og jx schema_OrderResponse (JObj kvs) \<longleftrightarrow> well_typed jx schema_OrderResponse (JObj kvs) \<and>
     (\<forall>(n, v) \<in> set kvs. (n = ''delivery'' \<longrightarrow> conforming og jx schema_Delivery v) \<and>
       (n = ''items'' \<longrightarrow> conforming og jx (TArray schema_OrderItem) v))"
  unfolding schema_OrderResponse_def
  by (subst conforming_object [where ns = "[''delivery'', ''items'']"])
    (auto simp add: check_free_simps check_free_Payment simp del: conforms.simps)


lemma sole_value:
  "(key, e) \<in> set kvs \<Longrightarrow> (\<And>v. (key, v) \<in> set kvs \<Longrightarrow> v = x) \<Longrightarrow>
     (\<forall>(n, v) \<in> set kvs. n = key \<longrightarrow> P v) \<longleftrightarrow> P x"
  by fastforce

lemma Delivery_email:
  assumes "Delivery_Decode jx s (JObj kvs) = Inr d" "distinct (map fst kvs)" "(''email'', v) \<in> set kvs"
  shows "v = JStr (ad_Email d)"
proof -
  obtain bits where o: "obj_fields (Delivery_field jx) kvs (s, [0]) = Inr (d, bits)"
    using assms(1) by (auto simp: Delivery_Decode_def decode_object_def Let_def split: sum.splits if_splits)
  show ?thesis
    by (rule obj_fields_value [where field = "Delivery_field jx" and key = "''email''" and get = ad_Email
          and R = "\<lambda>v x. v = JStr x", OF _ _ o assms(2,3)])
      (auto simp: Delivery_field_def in_field_Inr d_Str_def split: if_splits json.splits)
qed

lemma OrderItem_sale:
  assumes "OrderItem_Decode jx s (JObj kvs) = Inr d" "distinct (map fst kvs)" "(''sale'', v) \<in> set kvs"
  shows "v = JInt (sint (ai_Sale d))"
proof -
  obtain bits where o: "obj_fields (OrderItem_field jx) kvs (s, [0, 0]) = Inr (d, bits)"
    using assms(1) by (auto simp: OrderItem_Decode_def decode_object_def Let_def numeral_2_eq_2 split: sum.splits if_splits)
  have int: "d_Int jx v = Inr x \<Longrightarrow> v = JInt (sint x)" for v x
    by (auto simp: d_Int64_def sint_small split: json.splits if_splits)
  show ?thesis
    by (rule obj_fields_value [where field = "OrderItem_field jx" and key = "''sale''" and get = ai_Sale
          and R = "\<lambda>v x. v = JInt (sint x)", OF _ _ o assms(2,3)])
      (auto simp: OrderItem_field_def in_field_Inr dest!: int split: if_splits)
qed


lemma Delivery_decodes_conforming:
  assumes "no_repeats v"
  shows "(\<exists>d. Delivery_Decode jx s v = Inr d) \<and>
      (\<forall>d. Delivery_Decode jx s v = Inr d \<longrightarrow> Delivery_Validate og d = None) \<longleftrightarrow>
    conforming og jx schema_Delivery v"
proof (cases v)
  case (JObj kvs)
  show ?thesis
  proof (cases "Delivery_Decode jx s v")
    case (Inl e)
    then have "\<not> well_typed jx schema_Delivery v" using Delivery_decodes [of jx s v] by simp
    then show ?thesis using Inl conforms_well_typed by (auto simp: conforming_def)
  next
    case (Inr d)
    then have t: "well_typed jx schema_Delivery v" using Delivery_decodes by blast
    then obtain e where e: "(''email'', e) \<in> set kvs" using JObj by (auto simp: schema_Delivery_def)
    have val: "(''email'', v') \<in> set kvs \<Longrightarrow> v' = JStr (ad_Email d)" for v'
      using Delivery_email [of jx s kvs d] Inr JObj assms by simp
    have "conforming og jx schema_Delivery v \<longleftrightarrow> conforming og jx TEmail (JStr (ad_Email d))"
      using t sole_value [OF e val, of "conforming og jx TEmail"] unfolding JObj conforming_Delivery by blast
    then have "conforming og jx schema_Delivery v \<longleftrightarrow> og_ValidateEmail og (ad_Email d) = None"
      by (simp add: conforming_def)
    then show ?thesis using Inr by (simp add: Delivery_Validate_def split: option.split)
  qed
qed (simp_all add: Delivery_Decode_def decode_object_def conforming_def schema_Delivery_def)

lemma OrderItem_decodes_conforming:
  assumes "no_repeats v"
  shows "(\<exists>d. OrderItem_Decode jx s v = Inr d) \<and>
      (\<forall>d. OrderItem_Decode jx s v = Inr d \<longrightarrow> OrderItem_Validate og d = None) \<longleftrightarrow>
    conforming og jx schema_OrderItem v"
proof (cases v)
  case (JObj kvs)
  show ?thesis
  proof (cases "OrderItem_Decode jx s v")
    case (Inl e)
    then have "\<not> well_typed jx schema_OrderItem v" using OrderItem_decodes [of jx s v] by simp
    then show ?thesis using Inl conforms_well_typed by (auto simp: conforming_def)
  next
    case (Inr d)
    then have t: "well_typed jx schema_OrderItem v" using OrderItem_decodes by blast
    then obtain e where e: "(''sale'', e) \<in> set kvs" using JObj by (auto simp: schema_OrderItem_def)
    have val: "(''sale'', v') \<in> set kvs \<Longrightarrow> v' = JInt (sint (ai_Sale d))" for v'
      using OrderItem_sale [of jx s kvs d] Inr JObj assms by simp
    have "conforming og jx schema_OrderItem v \<longleftrightarrow>
        conforming og jx (TInteger (Some (0, 100))) (JInt (sint (ai_Sale d)))"
      using t sole_value [OF e val, of "conforming og jx (TInteger (Some (0, 100)))"]
      unfolding JObj conforming_OrderItem by blast
    then have "conforming og jx schema_OrderItem v \<longleftrightarrow> og_ValidateInt og 0 100 (sint (ai_Sale d)) = None"
      using sint_range_size [of "ai_Sale d"] by (simp add: conforming_def word_size)
    then show ?thesis using Inr by (simp add: OrderItem_Validate_def split: option.split)
  qed
qed (simp_all add: OrderItem_Decode_def decode_object_def conforming_def schema_OrderItem_def)


lemma item_failures_None:
  "item_failures og i items = [] \<longleftrightarrow> list_all (\<lambda>it. OrderItem_Validate og it = None) items"
  by (induction items arbitrary: i) (auto split: option.split)

lemma elems_decode_conforming:
  assumes "list_all no_repeats vs"
  shows "(\<exists>its. decode_elems jx vs = Inr its) \<and>
      (\<forall>its. decode_elems jx vs = Inr its \<longrightarrow> items_error og (Some its) = None) \<longleftrightarrow>
    list_all (conforming og jx schema_OrderItem) vs"
  using assms
proof (induction vs)
  case Nil
  then show ?case by (simp add: items_error_def)
next
  case (Cons v vs)
  then show ?case using OrderItem_decodes_conforming [of v jx zero_api_item og]
    by (cases "OrderItem_Decode jx zero_api_item v"; cases "decode_elems jx vs")
      (auto simp: items_error_def Let_def item_failures_None)
qed

lemma items_decode_conforming:
  assumes "no_repeats v"
  shows "(\<exists>its. decode_items jx v = Inr its) \<and>
      (\<forall>its. decode_items jx v = Inr its \<longrightarrow> items_error og (Some its) = None) \<longleftrightarrow>
    conforming og jx (TArray schema_OrderItem) v"
proof (cases v)
  case (JArr vs)
  then show ?thesis using elems_decode_conforming [of vs jx og] assms
    by (simp add: decode_items_def conforming_def)
qed (simp_all add: decode_items_def conforming_def)

lemma OrderResponse_delivery:
  assumes "OrderResponse_Decode jx s (JObj kvs) = Inr d" "distinct (map fst kvs)"
  shows "(''delivery'', v) \<in> set kvs \<Longrightarrow> \<exists>d0. Delivery_Decode jx d0 v = Inr (ao_Delivery d)"
    "(''items'', v) \<in> set kvs \<Longrightarrow> \<exists>its. decode_items jx v = Inr its \<and> ao_Items d = Some its"
proof -
  obtain bits where o: "obj_fields (OrderResponse_field jx) kvs (s, [0, 0]) = Inr (d, bits)"
    using assms(1) by (auto simp: OrderResponse_Decode_def decode_object_def Let_def numeral_2_eq_2 split: sum.splits if_splits)
  show "\<exists>d0. Delivery_Decode jx d0 v = Inr (ao_Delivery d)" if "(''delivery'', v) \<in> set kvs"
    by (rule obj_fields_value [where field = "OrderResponse_field jx" and key = "''delivery''" and get = ao_Delivery
          and R = "\<lambda>v x. \<exists>d0. Delivery_Decode jx d0 v = Inr x", OF _ _ o assms(2) that])
      (auto simp: OrderResponse_field_def in_field_Inr split: if_splits)
  show "\<exists>its. decode_items jx v = Inr its \<and> ao_Items d = Some its" if "(''items'', v) \<in> set kvs"
    by (rule obj_fields_value [where field = "OrderResponse_field jx" and key = "''items''" and get = ao_Items
          and R = "\<lambda>v x. \<exists>its. decode_items jx v = Inr its \<and> x = Some its", OF _ _ o assms(2) that])
      (auto simp: OrderResponse_field_def in_field_Inr split: if_splits)
qed


text \<open>Decoding and validation together accept exactly the conforming documents.\<close>

lemma OrderResponse_decodes_conforming:
  assumes "no_repeats v"
  shows "(\<exists>d. OrderResponse_Decode jx s v = Inr d \<and> OrderResponse_Validate og d = None) \<longleftrightarrow>
    conforming og jx schema_OrderResponse v"
proof (cases v)
  case (JObj kvs)
  show ?thesis
  proof (cases "OrderResponse_Decode jx s v")
    case (Inl e)
    then have "\<not> well_typed jx schema_OrderResponse v" using OrderResponse_decodes [of jx s v] by simp
    then show ?thesis using Inl conforms_well_typed by (auto simp: conforming_def)
  next
    case (Inr d)
    then have t: "well_typed jx schema_OrderResponse v" using OrderResponse_decodes by blast
    obtain dv iv where m: "(''delivery'', dv) \<in> set kvs" "(''items'', iv) \<in> set kvs"
      using t JObj by (auto simp: schema_OrderResponse_def simp del: conforms.simps(1-5,7))
    have nr: "distinct (map fst kvs)" "no_repeats dv" "no_repeats iv"
      using assms m JObj by (auto simp: list_all_iff)
    note Inr' = Inr [unfolded JObj]
    obtain d0 its where f: "Delivery_Decode jx d0 dv = Inr (ao_Delivery d)" "decode_items jx iv = Inr its"
      "ao_Items d = Some its"
      using OrderResponse_delivery [OF Inr' nr(1)] m by blast
    have "conforming og jx schema_Delivery dv \<longleftrightarrow> Delivery_Validate og (ao_Delivery d) = None"
      using Delivery_decodes_conforming [OF nr(2), of jx d0 og] f(1) by auto
    moreover have "conforming og jx (TArray schema_OrderItem) iv \<longleftrightarrow> items_error og (ao_Items d) = None"
      using items_decode_conforming [OF nr(3), of jx og] f(2,3) by auto
    moreover have "(n, v') \<in> set kvs \<Longrightarrow> (n = ''delivery'' \<longrightarrow> v' = dv) \<and> (n = ''items'' \<longrightarrow> v' = iv)" for n v'
      using nr(1) m by (auto dest: eq_key_imp_eq_value)
    then have "conforming og jx schema_OrderResponse v \<longleftrightarrow>
        conforming og jx schema_Delivery dv \<and> conforming og jx (TArray schema_OrderItem) iv"
      using t m unfolding JObj conforming_OrderResponse by blast
    ultimately show ?thesis using Inr
      by (auto simp: OrderResponse_Validate_def Let_def split: option.splits)
  qed
qed (simp_all add: OrderResponse_Decode_def decode_object_def conforming_def schema_OrderResponse_def)

section \<open>The client and the OpenAPI document\<close>

text \<open>
  C16: The client takes a successful answer of the server exactly when its body conforms to
  the OpenAPI document, with the formats and bounds of the schema (the delivery's e-mail
  address, and the sale of each item between 0 and 100): decoding rejects what has another type or
  lacks a required property, validation exactly what is out of its bounds, and neither anything else.
  (For a body in which no key is repeated, which JSON leaves undefined.)
\<close>

theorem client_accepts_conforming_answers:
  assumes "rs_status r = Some 200" "rs_read_err r = None" "rs_body r = [doc]"
    "map_of (rs_headers r) ''Content-Type'' = Some ct" "og_ParseMediaType og ct = Inr ''application/json''"
    "no_repeats doc"
  shows "(\<exists>x. decodeOrderIDGetResponse og jx r = Inr x) \<longleftrightarrow> conforming og jx schema_OrderResponse doc"
  using OrderResponse_decodes_conforming [OF assms(6), of jx zero_api_order og] assms(1-5)
  by (auto simp: decodeOrderIDGetResponse_def decode_body_def Let_def split: sum.splits option.splits)

text \<open>An answer with an item on sale for \<open>percent\<close>.\<close>

definition sale_answer :: "64 word \<Rightarrow> response" where
  "sale_answer percent = \<lparr>rs_status = Some 200, rs_headers = [(''Content-Type'', json_content_type)],
     rs_body = [OrderResponse_Encode plain_jx (api_order_of (sample_order\<lparr>ord_Items := [sample_item\<lparr>itm_Sale := percent\<rparr>]\<rparr>))],
     rs_read_err = None\<rparr>"

theorem client_accepts_conforming_answers_witness:
  "(\<exists>x. decodeOrderIDGetResponse plain_ogen plain_jx (sale_answer 100) = Inr x) \<and>
   (\<nexists>x. decodeOrderIDGetResponse plain_ogen plain_jx (sale_answer 101) = Inr x)"
proof -
  have iff: "(\<exists>x. decodeOrderIDGetResponse plain_ogen plain_jx (sale_answer p) = Inr x) \<longleftrightarrow>
      conforming plain_ogen plain_jx schema_OrderResponse (hd (rs_body (sale_answer p)))"
    if "no_repeats (hd (rs_body (sale_answer p)))" for p
    by (rule client_accepts_conforming_answers [where ct = json_content_type])
      (use that in \<open>simp_all add: sale_answer_def plain_ogen_def\<close>)
  have "no_repeats (hd (rs_body (sale_answer 100)))" "no_repeats (hd (rs_body (sale_answer 101)))"
    "conforming plain_ogen plain_jx schema_OrderResponse (hd (rs_body (sale_answer 100)))"
    "\<not> conforming plain_ogen plain_jx schema_OrderResponse (hd (rs_body (sale_answer 101)))"
    by code_simp+
  then show ?thesis using iff by blast
qed

end
