(* ===== verification/ApiMarshal.thy ===== *)
theory ApiMarshal
  imports HttpHandler
begin

text \<open>
  \<open>MarshalJSON\<close> and \<open>UnmarshalJSON\<close> of the generated types
  (\<open>internal/api/oas_json_gen.go\<close>). The text of a document comes from outside:
  \<open>bytes\<close> is what \<open>e.Bytes()\<close> gives after the document has been written, and
  \<open>read decode data\<close> what \<open>decode\<close> gives over \<open>jx.DecodeBytes(data)\<close>, its
  own errors of a malformed text included. A receiver is a pointer, \<open>None\<close> when it is nil.
\<close>

type_synonym 'a decoder_run = "(json \<Rightarrow> api_error + 'a) \<Rightarrow> string \<Rightarrow> api_error + 'a"

text \<open>A nil receiver is dereferenced when its fields are written, and refused when it is decoded into.\<close>

definition marshal :: "('a \<Rightarrow> json) \<Rightarrow> (json \<Rightarrow> string) \<Rightarrow> 'a option \<Rightarrow> (go_error + string) outcome" where
  "marshal encode bytes s = (case s of None \<Rightarrow> Panics | Some x \<Rightarrow> Returns (Inr (bytes (encode x))))"

definition unmarshal ::
  "string \<Rightarrow> ('a \<Rightarrow> json \<Rightarrow> api_error + 'a) \<Rightarrow> 'a decoder_run \<Rightarrow> 'a option \<Rightarrow> string \<Rightarrow> api_error + 'a" where
  "unmarshal type_name decode read s data =
     (case s of
        None \<Rightarrow> Inl (ApiErr (Errorf (''invalid: unable to decode '' @ type_name @ '' to nil'')))
      | Some x \<Rightarrow> read (decode x) data)"

section \<open>The types of the API\<close>

definition BadRequestErrorResponse_MarshalJSON :: "(json \<Rightarrow> string) \<Rightarrow> bad_request_response option \<Rightarrow> (go_error + string) outcome" where
  "BadRequestErrorResponse_MarshalJSON = marshal BadRequestErrorResponse_Encode"

definition BadRequestErrorResponse_UnmarshalJSON ::
  "jx \<Rightarrow> bad_request_response decoder_run \<Rightarrow> bad_request_response option \<Rightarrow> string \<Rightarrow> api_error + bad_request_response" where
  "BadRequestErrorResponse_UnmarshalJSON jx = unmarshal ''BadRequestErrorResponse'' (BadRequestErrorResponse_Decode jx)"

definition Delivery_MarshalJSON :: "(json \<Rightarrow> string) \<Rightarrow> api_delivery option \<Rightarrow> (go_error + string) outcome" where
  "Delivery_MarshalJSON = marshal Delivery_Encode"

definition Delivery_UnmarshalJSON ::
  "jx \<Rightarrow> api_delivery decoder_run \<Rightarrow> api_delivery option \<Rightarrow> string \<Rightarrow> api_error + api_delivery" where
  "Delivery_UnmarshalJSON jx = unmarshal ''Delivery'' (Delivery_Decode jx)"

definition ErrorResponse_MarshalJSON :: "(json \<Rightarrow> string) \<Rightarrow> error_response option \<Rightarrow> (go_error + string) outcome" where
  "ErrorResponse_MarshalJSON = marshal ErrorResponse_Encode"

definition ErrorResponse_UnmarshalJSON ::
  "jx \<Rightarrow> error_response decoder_run \<Rightarrow> error_response option \<Rightarrow> string \<Rightarrow> api_error + error_response" where
  "ErrorResponse_UnmarshalJSON jx = unmarshal ''ErrorResponse'' (ErrorResponse_Decode jx)"

definition NotFoundErrorResponse_MarshalJSON :: "(json \<Rightarrow> string) \<Rightarrow> not_found_response option \<Rightarrow> (go_error + string) outcome" where
  "NotFoundErrorResponse_MarshalJSON = marshal NotFoundErrorResponse_Encode"

definition NotFoundErrorResponse_UnmarshalJSON ::
  "jx \<Rightarrow> not_found_response decoder_run \<Rightarrow> not_found_response option \<Rightarrow> string \<Rightarrow> api_error + not_found_response" where
  "NotFoundErrorResponse_UnmarshalJSON jx = unmarshal ''NotFoundErrorResponse'' (NotFoundErrorResponse_Decode jx)"

definition OrderItem_MarshalJSON :: "(json \<Rightarrow> string) \<Rightarrow> api_item option \<Rightarrow> (go_error + string) outcome" where
  "OrderItem_MarshalJSON = marshal OrderItem_Encode"

definition OrderItem_UnmarshalJSON ::
  "jx \<Rightarrow> api_item decoder_run \<Rightarrow> api_item option \<Rightarrow> string \<Rightarrow> api_error + api_item" where
  "OrderItem_UnmarshalJSON jx = unmarshal ''OrderItem'' (OrderItem_Decode jx)"

definition OrderResponse_MarshalJSON :: "jx \<Rightarrow> (json \<Rightarrow> string) \<Rightarrow> api_order option \<Rightarrow> (go_error + string) outcome" where
  "OrderResponse_MarshalJSON jx = marshal (OrderResponse_Encode jx)"

definition OrderResponse_UnmarshalJSON ::
  "jx \<Rightarrow> api_order decoder_run \<Rightarrow> api_order option \<Rightarrow> string \<Rightarrow> api_error + api_order" where
  "OrderResponse_UnmarshalJSON jx = unmarshal ''OrderResponse'' (OrderResponse_Decode jx)"

definition Payment_MarshalJSON :: "(json \<Rightarrow> string) \<Rightarrow> api_payment option \<Rightarrow> (go_error + string) outcome" where
  "Payment_MarshalJSON = marshal Payment_Encode"

definition Payment_UnmarshalJSON ::
  "jx \<Rightarrow> api_payment decoder_run \<Rightarrow> api_payment option \<Rightarrow> string \<Rightarrow> api_error + api_payment" where
  "Payment_UnmarshalJSON jx = unmarshal ''Payment'' (Payment_Decode jx)"

text \<open>The receiver of \<open>OptString\<close>'s \<open>MarshalJSON\<close> is a value; one that is not set writes nothing.\<close>

definition OptString_MarshalJSON :: "(json \<Rightarrow> string) \<Rightarrow> opt_string \<Rightarrow> (go_error + string) outcome" where
  "OptString_MarshalJSON bytes s = Returns (Inr (if os_Set s then bytes (OptString_Encode s) else []))"

definition OptString_UnmarshalJSON ::
  "jx \<Rightarrow> opt_string decoder_run \<Rightarrow> opt_string option \<Rightarrow> string \<Rightarrow> api_error + opt_string" where
  "OptString_UnmarshalJSON jx = unmarshal ''OptString'' (OptString_Decode jx)"

section \<open>Round trips through the text\<close>

text \<open>
  A codec: a fresh value decodes what was encoded. With a library that reads the documents it
  has written, the text then gives the value back, and never into a nil pointer.
\<close>

locale json_codec =
  fixes type_name :: string
    and encode :: "'a \<Rightarrow> json"
    and decode :: "'a \<Rightarrow> json \<Rightarrow> api_error + 'a"
    and fresh :: 'a
    and ok :: "'a \<Rightarrow> bool"
  assumes decode_encode: "ok x \<Longrightarrow> decode fresh (encode x) = Inr x"
begin

lemma unmarshal_marshal:
  assumes "ok x" "\<And>doc. read (decode fresh) (bytes doc) = decode fresh doc"
  shows "\<exists>data. marshal encode bytes (Some x) = Returns (Inr data) \<and>
    unmarshal type_name decode read (Some fresh) data = Inr x"
  by (simp add: marshal_def unmarshal_def assms decode_encode)

lemma unmarshal_nil: "\<exists>e. unmarshal type_name decode read None data = Inl e"
  by (simp add: unmarshal_def)

text \<open>Two values with the same text are the same.\<close>

lemma marshal_inj:
  assumes "ok x" "ok y" "\<And>doc. read (decode fresh) (bytes doc) = decode fresh doc"
    "marshal encode bytes (Some x) = marshal encode bytes (Some y)"
  shows "x = y"
  using unmarshal_marshal [of x read bytes] unmarshal_marshal [of y read bytes] assms by auto

end

interpretation bad_request_json: json_codec "''BadRequestErrorResponse''" "BadRequestErrorResponse_Encode" "BadRequestErrorResponse_Decode jx"
    "\<lparr>br_Message = []\<rparr>" "\<lambda>_. True" for jx
  by unfold_locales (simp add: message_roundtrips)

interpretation delivery_json: json_codec "''Delivery''" "Delivery_Encode" "Delivery_Decode jx"
    "zero_api_delivery" "\<lambda>_. True" for jx
  by unfold_locales (simp add: Delivery_roundtrip)

interpretation error_json: json_codec "''ErrorResponse''" "ErrorResponse_Encode" "ErrorResponse_Decode jx"
    "\<lparr>er_Message = []\<rparr>" "\<lambda>_. True" for jx
  by unfold_locales (simp add: message_roundtrips)

interpretation not_found_json: json_codec "''NotFoundErrorResponse''" "NotFoundErrorResponse_Encode" "NotFoundErrorResponse_Decode jx"
    "\<lparr>nf_Message = []\<rparr>" "\<lambda>_. True" for jx
  by unfold_locales (simp add: message_roundtrips)

interpretation item_json: json_codec "''OrderItem''" "OrderItem_Encode" "OrderItem_Decode jx"
    "zero_api_item" "\<lambda>_. True" for jx
  by unfold_locales (simp add: OrderItem_roundtrip)

interpretation order_json: json_codec "''OrderResponse''" "OrderResponse_Encode jx" "OrderResponse_Decode jx"
    "zero_api_order" "codec_ok jx" for jx
  by unfold_locales (simp add: OrderResponse_roundtrip)

interpretation payment_json: json_codec "''Payment''" "Payment_Encode" "Payment_Decode jx"
    "zero_api_payment" "\<lambda>p. opt_ok (ap_RequestID p)" for jx
  by unfold_locales (simp add: Payment_roundtrip zero_api_payment_def)

interpretation opt_json: json_codec "''OptString''" OptString_Encode "OptString_Decode jx" zero_opt os_Set for jx
  by unfold_locales (simp add: OptString_roundtrip)

lemma OrderResponse_text_roundtrip:
  assumes "codec_ok jx r" "\<And>doc. read (OrderResponse_Decode jx zero_api_order) (bytes doc) = OrderResponse_Decode jx zero_api_order doc"
  shows "\<exists>data. OrderResponse_MarshalJSON jx bytes (Some r) = Returns (Inr data) \<and>
    OrderResponse_UnmarshalJSON jx read (Some zero_api_order) data = Inr r"
  unfolding OrderResponse_MarshalJSON_def OrderResponse_UnmarshalJSON_def
  by (rule order_json.unmarshal_marshal [where jx = jx and x = r and read = read and bytes = bytes, OF assms])

text \<open>
  An optional string that is not set has no text, so that no text reads it back: decoding
  sets it or fails.
\<close>

lemma OptString_text:
  assumes "\<And>doc. read (OptString_Decode jx zero_opt) (bytes doc) = OptString_Decode jx zero_opt doc"
  shows "os_Set s \<Longrightarrow> \<exists>data. OptString_MarshalJSON bytes s = Returns (Inr data) \<and>
      OptString_UnmarshalJSON jx read (Some zero_opt) data = Inr s"
    "\<not> os_Set s \<Longrightarrow> OptString_MarshalJSON bytes s = Returns (Inr [])"
    "OptString_UnmarshalJSON jx read (Some zero_opt) (bytes doc) = Inr s' \<Longrightarrow> os_Set s'"
  using opt_json.unmarshal_marshal [of s read jx bytes] assms
  by (auto simp: OptString_MarshalJSON_def OptString_UnmarshalJSON_def marshal_def unmarshal_def
      OptString_Decode_def split: sum.splits)

end
