(* ===== verification/ApiClient.thy ===== *)
theory ApiClient
  imports HttpHandler
begin

text \<open>
  The generated client (\<open>internal/api/oas_client_gen.go\<close>) without what it reports to
  OpenTelemetry, which \<open>ApiTelemetry\<close> adds. The functions of ogen's \<open>uri\<close> and \<open>http\<close> packages are the fields of
  \<open>client_lib\<close>, and \<open>ac_Do\<close> is the HTTP client's \<open>Do\<close>. The last section
  connects the client to the server of the service.
\<close>

section \<open>The client\<close>

text \<open>
  \<open>cl_EncodePath\<close> is the path encoder's \<open>EncodeValue\<close> and \<open>Result\<close>, whose
  errors the client wraps in the same way; a request is its method and its URL.
\<close>

record client_lib =
  cl_Parse :: "string \<Rightarrow> go_error + url"
  cl_EncodePath :: "string \<Rightarrow> go_error + string"
  cl_AddPathParts :: "url \<Rightarrow> string list \<Rightarrow> url"
  cl_NewRequest :: "string \<Rightarrow> url \<Rightarrow> go_error + string \<times> url"

type_synonym 'w http_do = "string \<times> url \<Rightarrow> ('w, go_error + response) run"

record 'w api_client =
  ac_serverURL :: url
  ac_Do :: "'w http_do"

definition TrimRight :: "string \<Rightarrow> char \<Rightarrow> string" where
  "TrimRight s c = rev (dropWhile (\<lambda>x. x = c) (rev s))"

definition trimTrailingSlashes :: "url \<Rightarrow> url" where
  "trimTrailingSlashes u =
     u\<lparr>url_Path := TrimRight (url_Path u) (CHR ''/''), url_RawPath := TrimRight (url_RawPath u) (CHR ''/'')\<rparr>"

text \<open>\<open>http_client\<close> is the HTTP client of the configuration, \<open>metrics_err\<close> the error of creating its metrics.\<close>

definition NewClient ::
  "client_lib \<Rightarrow> 'w http_do \<Rightarrow> go_error option \<Rightarrow> string \<Rightarrow> go_error + 'w api_client" where
  "NewClient cl http_client metrics_err serverURL =
     (case cl_Parse cl serverURL of
        Inl err \<Rightarrow> Inl err
      | Inr u \<Rightarrow>
          (case metrics_err of
             Some err \<Rightarrow> Inl err
           | None \<Rightarrow> Inr \<lparr>ac_serverURL = trimTrailingSlashes u, ac_Do = http_client\<rparr>))"

text \<open>
  What the context holds under \<open>serverURLKey\<close> is \<open>override\<close>: the URL that
  \<open>WithServerURL\<close> has put there, which then is the request's, or else the client's own.
\<close>

definition WithServerURL :: "url \<Rightarrow> url option \<Rightarrow> url option" where
  "WithServerURL u override = Some u"

definition requestURL :: "'w api_client \<Rightarrow> url option \<Rightarrow> url" where
  "requestURL c override = (case override of None \<Rightarrow> ac_serverURL c | Some u \<Rightarrow> u)"

datatype client_error = ClientErr go_error | DecodeResponseErr "api_error + error_status"

definition sendOrderIDGet ::
  "client_lib \<Rightarrow> ogen \<Rightarrow> jx \<Rightarrow> 'w api_client \<Rightarrow> url option \<Rightarrow> string \<Rightarrow>
   ('w, client_error + order_id_get_res) run" where
  "sendOrderIDGet cl og jx c override ID =
     (case cl_EncodePath cl ID of
        Inl err \<Rightarrow> ret (Inl (ClientErr (Wrap ''encode path: '' err '''')))
      | Inr encoded \<Rightarrow>
          (let u = cl_AddPathParts cl (requestURL c override) [''/order/'', encoded] in
           case cl_NewRequest cl ''GET'' u of
             Inl err \<Rightarrow> ret (Inl (ClientErr (Wrap ''create request: '' err '''')))
           | Inr r \<Rightarrow>
               bind_run (ac_Do c r) (\<lambda>resp.
                 case resp of
                   Inl err \<Rightarrow> ret (Inl (ClientErr (Wrap ''do request: '' err '''')))
                 | Inr resp \<Rightarrow>
                     (case decodeOrderIDGetResponse og jx resp of
                        Inl err \<Rightarrow> ret (Inl (DecodeResponseErr err))
                      | Inr result \<Rightarrow> ret (Inr result)))))"

section \<open>Client and server\<close>

text \<open>An HTTP client that is connected to a server, whose requests have the values \<open>m\<close> in their context.\<close>

definition connected ::
  "ogen \<Rightarrow> jx \<Rightarrow> 'w server_config \<Rightarrow> 'w api_handler \<Rightarrow> ctx_values \<Rightarrow> 'w http_do" where
  "connected og jx cfg h m req =
     bind_run (serve og jx None cfg h (Some m) (fst req) (snd req)) (\<lambda>r. ret (Inr r))"

text \<open>
  C15: The generated client calling the service gets what the service looked up: the order
  that the cache or else the storage has, mapped field by field, or the not-found or internal
  error with its text, and never an error of encoding, transport or decoding. The library must
  encode the identifier into a URL that the router and the path decoder take back, and the
  answer must be one that the client's own validation accepts.
\<close>

theorem client_gets_what_the_service_found:
  assumes "cl_EncodePath cl uid = Inr enc"
    "cl_NewRequest cl ''GET'' (cl_AddPathParts cl (requestURL c override) [''/order/'', enc]) = Inr (''GET'', u)"
    "good_url og (sv_Prefix cfg) uid u"
    "sv_Middleware cfg = Some (LoggingMiddleware None z)"
    "ac_Do c = connected og jx cfg (NewOrderServiceHTTPHandler z (lru_order_port zc) storage) m"
    "m KeyForRequestID = None" "lru_rep (wd_cache w) s"
    "lookup_answer s storage (with_logger m) uid (wd_storage w) = Returns a"
    "parses_own_type og" "res_ok og jx (order_answer a)"
  shows "\<exists>w'. sendOrderIDGet cl og jx c override uid w = (w', Returns (Inr (order_answer a)))"
proof -
  obtain w' r where "serve og jx None cfg (NewOrderServiceHTTPHandler z (lru_order_port zc) storage) (Some m) ''GET'' u w =
      (w', Returns r)" "decodeOrderIDGetResponse og jx r = Inr (order_answer a)"
    using serve_order [where jx = jx and zc = zc, OF assms(3,4,6,7,8,9)] assms(10) by blast
  then show ?thesis using assms(1,2,5)
    by (simp add: sendOrderIDGet_def connected_def ret_def)
qed

definition plain_client_lib :: client_lib where
  "plain_client_lib =
     \<lparr>cl_Parse = (\<lambda>s. Inr \<lparr>url_Path = s, url_RawPath = []\<rparr>), cl_EncodePath = Inr,
      cl_AddPathParts = (\<lambda>u parts. u\<lparr>url_Path := url_Path u @ concat parts\<rparr>),
      cl_NewRequest = (\<lambda>m u. Inr (m, u))\<rparr>"

theorem client_gets_what_the_service_found_witness:
  "\<exists>c w'. NewClient plain_client_lib
        (connected plain_ogen plain_jx sample_config (NewOrderServiceHTTPHandler None (lru_order_port None) list_storage)
           (\<lambda>_. None)) None ''/'' = Inr c \<and>
     sendOrderIDGet plain_client_lib plain_ogen plain_jx c None ''nope'' sample_world =
       (w', Returns (Inr (NotFoundErrorResponse \<lparr>nf_Message = ''order not found''\<rparr>)))"
proof -
  let ?do = "connected plain_ogen plain_jx sample_config
    (NewOrderServiceHTTPHandler None (lru_order_port None) list_storage) (\<lambda>_. None)"
  let ?c = "\<lparr>ac_serverURL = \<lparr>url_Path = [], url_RawPath = []\<rparr>, ac_Do = ?do\<rparr>"
  have url: "good_url plain_ogen (sv_Prefix sample_config) ''nope'' (order_url ''nope'')"
    using order_url_good [of "''nope''"] by simp
  have a: "lookup_answer [] list_storage (with_logger (\<lambda>_. None)) ''nope'' (wd_storage sample_world) =
      Returns (zero_order, Some (Sentinel ErrOrderNotFound))"
    by (simp add: lookup_answer_def list_storage_def sample_world_def sample_order_def)
  have "\<exists>w'. sendOrderIDGet plain_client_lib plain_ogen plain_jx ?c None ''nope'' sample_world =
      (w', Returns (Inr (order_answer (zero_order, Some (Sentinel ErrOrderNotFound)))))"
  proof (rule client_gets_what_the_service_found [OF _ _ url sample_config_fields(2) _ _ sample_world_rep a plain_ogen_type])
    show "res_ok plain_ogen plain_jx (order_answer (zero_order, Some (Sentinel ErrOrderNotFound)))"
      by (simp add: order_answer_def)
  qed (simp_all add: plain_client_lib_def requestURL_def order_url_def)
  then show ?thesis
    by (simp add: NewClient_def plain_client_lib_def trimTrailingSlashes_def TrimRight_def order_answer_def)
qed

end
