(* ===== verification/ApiTelemetry.thy ===== *)
theory ApiTelemetry
  imports ApiClient
begin

text \<open>
  The request handler and the client with what they report to OpenTelemetry: the span of each
  request, its status and errors, and the counters of requests and errors and the histogram of
  durations (\<open>oas_handlers_gen.go\<close>, \<open>oas_client_gen.go\<close>,
  \<open>oas_labeler_gen.go\<close> and \<open>oas_response_encoders_gen.go\<close>). The span and the
  instruments come from outside; the calls on them are events, in the order they are made,
  appended to a list that is part of the state. Deferred calls run last in first
  out, after a panic too.
\<close>

section \<open>Events\<close>

datatype attribute = AString string string | AInt string int

datatype span_kind = SpanKindClient | SpanKindServer

datatype span_code = CodeOk | CodeError

text \<open>\<open>DurationRecorded\<close> has the nanoseconds of which the code records the milliseconds as a float.\<close>

datatype 'e otel_event =
    SpanStarted string "attribute list" span_kind
  | SpanStatus span_code string
  | SpanRecordedError 'e
  | SpanAttributes "attribute list"
  | SpanEnded
  | RequestsAdded "attribute list"
  | ErrorsAdded "attribute list"
  | DurationRecorded int "attribute list"
  | BodyClosed

type_synonym ('w, 'e) measured = "'w \<times> 'e otel_event list"

text \<open>
  What OpenTelemetry decides: the context that the tracer's \<open>Start\<close> makes (never a nil
  one), the set of some attributes as a slice, and the time elapsed when the stopwatch is read.
\<close>

record otel =
  ot_Start :: "go_context \<Rightarrow> ctx_values"
  ot_NewSet :: "attribute list \<Rightarrow> attribute list"
  ot_elapsed :: int

definition OrderIDGetOperation :: string where
  "OrderIDGetOperation = ''OrderIDGet''"

definition otelAttrs :: "attribute list" where
  "otelAttrs = [AString ''http.request.method'' ''GET'', AString ''http.route'' ''/order/{id}'']"

text \<open>The labeler, and the context that holds it.\<close>

record labeler =
  lb_attrs :: "attribute list"

definition Labeler_Add :: "attribute list \<Rightarrow> labeler \<Rightarrow> labeler" where
  "Labeler_Add attrs l = l\<lparr>lb_attrs := lb_attrs l @ attrs\<rparr>"

definition AttributeSet :: "otel \<Rightarrow> labeler \<Rightarrow> attribute list" where
  "AttributeSet ot l = ot_NewSet ot (lb_attrs l)"

definition labelerContextKey :: string where
  "labelerContextKey = ''api.labelerContextKey''"

text \<open>What the context holds under this key, or a new labeler whose attributes nobody reads.\<close>

definition LabelerFromContext :: "labeler option \<Rightarrow> labeler \<times> bool" where
  "LabelerFromContext held = (case held of Some l \<Rightarrow> (l, True) | None \<Rightarrow> (\<lparr>lb_attrs = []\<rparr>, False))"

definition contextWithLabeler :: "go_context \<Rightarrow> go_context outcome" where
  "contextWithLabeler ctx = WithValue ctx labelerContextKey VOther"

section \<open>The recording response writer\<close>

text \<open>The status is the last code that a handler asked for; \<open>0\<close> for none.\<close>

record codeRecorder =
  cr_writer :: response
  cr_status :: int

definition rec_WriteHeader :: "int \<Rightarrow> codeRecorder \<Rightarrow> codeRecorder" where
  "rec_WriteHeader status c = c\<lparr>cr_status := status, cr_writer := WriteHeader status (cr_writer c)\<rparr>"

definition rec_Header_Set :: "string \<Rightarrow> string \<Rightarrow> codeRecorder \<Rightarrow> codeRecorder" where
  "rec_Header_Set k v c = c\<lparr>cr_writer := Header_Set k v (cr_writer c)\<rparr>"

text \<open>Writing a response: the writer, the events on the span, and the error.\<close>

type_synonym 'e written = "codeRecorder \<times> 'e otel_event list \<times> go_error option"

definition rec_write_json ::
  "go_error option \<Rightarrow> int \<Rightarrow> span_code \<Rightarrow> json \<Rightarrow> codeRecorder \<Rightarrow> 'e written" where
  "rec_write_json write_err code st doc c =
     (let c = rec_WriteHeader code (rec_Header_Set ''Content-Type'' json_content_type c);
          (r, err) = WriteTo write_err doc (cr_writer c)
      in (c\<lparr>cr_writer := r\<rparr>, [SpanStatus st (StatusText code)], err))"

definition rec_encodeOrderIDGetResponse ::
  "jx \<Rightarrow> go_error option \<Rightarrow> order_id_get_res option \<Rightarrow> codeRecorder \<Rightarrow> 'e written" where
  "rec_encodeOrderIDGetResponse jx write_err res c =
     (case res of
        Some (OrderResponse x) \<Rightarrow> rec_write_json write_err 200 CodeOk (OrderResponse_Encode jx x) c
      | Some (BadRequestErrorResponse x) \<Rightarrow>
          rec_write_json write_err 400 CodeError (BadRequestErrorResponse_Encode x) c
      | Some (NotFoundErrorResponse x) \<Rightarrow>
          rec_write_json write_err 404 CodeError (NotFoundErrorResponse_Encode x) c
      | Some (ErrorResponse x) \<Rightarrow> rec_write_json write_err 500 CodeError (ErrorResponse_Encode x) c
      | None \<Rightarrow> (c, [], Some (Errorf ''unexpected response type: <nil>'')))"

definition rec_encodeErrorResponse :: "go_error option \<Rightarrow> error_status \<Rightarrow> codeRecorder \<Rightarrow> 'e written" where
  "rec_encodeErrorResponse write_err res c =
     (let code = (if es_StatusCode res = 0 then 200 else es_StatusCode res) in
      case rec_write_json write_err code (if code \<ge> 400 then CodeError else CodeOk)
             (ErrorResponse_Encode (es_Response res)) c of
        (c', evs, Some err) \<Rightarrow> (c', evs, Some err)
      | (c', evs, None) \<Rightarrow>
          (c', evs, if code \<ge> 500
             then Some (Wrap (''code: '' @ itoa code @ '', message: '' @ StatusText code @ '': '')
                    (Sentinel ErrInternalServerErrorResponse) '''')
             else None))"

section \<open>The request handler\<close>

definition code_attrs :: "codeRecorder \<Rightarrow> attribute list" where
  "code_attrs c = (if cr_status c \<noteq> 0 then [AInt ''http.response.status_code'' (cr_status c)] else [])"

definition recordError ::
  "otel \<Rightarrow> labeler \<Rightarrow> codeRecorder \<Rightarrow> string \<times> 'e \<Rightarrow> 'e otel_event list" where
  "recordError ot labeler c = (\<lambda>(stage, err).
     [SpanRecordedError err] @
     (if cr_status c \<ge> 100 \<and> cr_status c < 500 then [SpanStatus CodeError stage] else []) @
     [ErrorsAdded (AttributeSet ot labeler @ code_attrs c)])"

definition stopwatch :: "otel \<Rightarrow> labeler \<Rightarrow> codeRecorder \<Rightarrow> 'e otel_event list" where
  "stopwatch ot labeler c =
     (let attrs = AttributeSet ot labeler @ code_attrs c in
      (if cr_status c \<noteq> 0 then [SpanAttributes (code_attrs c)] else []) @
      [RequestsAdded attrs, DurationRecorded (ot_elapsed ot) attrs])"

text \<open>The deferred calls: an error to record, the stopwatch, the end of the span.\<close>

definition run_deferred ::
  "otel \<Rightarrow> labeler \<Rightarrow> codeRecorder \<Rightarrow> (string \<times> 'e) option \<Rightarrow> 'e otel_event list" where
  "run_deferred ot labeler c failed =
     (case failed of None \<Rightarrow> [] | Some f \<Rightarrow> recordError ot labeler c f) @ stopwatch ot labeler c @ [SpanEnded]"

text \<open>
  After the handler has returned: the response, the events, and the error to record with its
  stage. \<open>eh\<close> is the error handler of the configuration on the recording writer.
\<close>

definition rec_finish_request ::
  "(server_error \<Rightarrow> codeRecorder \<Rightarrow> codeRecorder) \<Rightarrow> jx \<Rightarrow> go_error option \<Rightarrow> 'w api_handler \<Rightarrow> go_context \<Rightarrow>
   order_id_get_res option \<Rightarrow> handler_error option \<Rightarrow> codeRecorder \<Rightarrow>
   codeRecorder \<times> server_error otel_event list \<times> (string \<times> server_error) option" where
  "rec_finish_request eh jx write_err h ctx res err c =
     (let internal = (\<lambda>(c', evs, err). (c', evs, map_option (\<lambda>e. (''Internal'', EncodeErr e)) err)) in
      case err of
        Some (StatusErr errRes) \<Rightarrow> internal (rec_encodeErrorResponse write_err errRes c)
      | Some (PlainErr e) \<Rightarrow>
          if errors_is e ErrNotImplemented then (eh (NotImplErr (PlainErr e)) c, [], None)
          else internal (rec_encodeErrorResponse write_err (h_NewError h ctx (PlainErr e)) c)
      | None \<Rightarrow>
          (case rec_encodeOrderIDGetResponse jx write_err res c of
             (c', evs, Some e) \<Rightarrow>
               (if \<not> errors_is e ErrInternalServerErrorResponse then eh (EncodeErr e) c' else c', evs,
                Some (''EncodeResponse'', EncodeErr e))
           | (c', evs, None) \<Rightarrow> (c', evs, None)))"

definition rec_handleOrderIDGetRequest ::
  "otel \<Rightarrow> (server_error \<Rightarrow> codeRecorder \<Rightarrow> codeRecorder) \<Rightarrow> ogen \<Rightarrow> jx \<Rightarrow> go_error option \<Rightarrow>
   'w server_config \<Rightarrow> 'w api_handler \<Rightarrow> go_context \<Rightarrow> string \<Rightarrow> bool \<Rightarrow> response \<Rightarrow>
   (('w, server_error) measured, response) run" where
  "rec_handleOrderIDGetRequest ot eh og jx write_err cfg h ctx arg argsEscaped r = (\<lambda>(w, evs).
     (let c = \<lparr>cr_writer = r, cr_status = 0\<rparr>;
          started = evs @ [SpanStarted OrderIDGetOperation otelAttrs SpanKindServer];
          labeler = \<lparr>lb_attrs = otelAttrs\<rparr>
      in case contextWithLabeler (Some (ot_Start ot ctx)) of
           Panics \<Rightarrow> ((w, started @ [SpanEnded]), Panics)
         | Returns ctx \<Rightarrow>
             (case decodeOrderIDGetParams og arg argsEscaped of
                Inl err \<Rightarrow>
                  (let c' = eh (ParamsErr err) c
                   in ((w, started @ run_deferred ot labeler c' (Some (''DecodeParams'', ParamsErr err))),
                       Returns (cr_writer c')))
              | Inr ID \<Rightarrow>
                  (case (case sv_Middleware cfg of
                           Some m \<Rightarrow> m (hookOrderIDGet (packOrderIDGetParams ID) h) ctx
                         | None \<Rightarrow> h_OrderIDGet h ID ctx) w of
                     (w', Panics) \<Rightarrow> ((w', started @ run_deferred ot labeler c None), Panics)
                   | (w', Returns (res, err)) \<Rightarrow>
                       (let (c', es, failed) = rec_finish_request eh jx write_err h ctx res err c
                        in ((w', started @ es @ run_deferred ot labeler c' failed), Returns (cr_writer c')))))))"

text \<open>The dispatch of \<open>ServeHTTP\<close>: what is not an operation is not measured.\<close>

definition rec_serve ::
  "otel \<Rightarrow> (server_error \<Rightarrow> codeRecorder \<Rightarrow> codeRecorder) \<Rightarrow> ogen \<Rightarrow> jx \<Rightarrow> go_error option \<Rightarrow>
   'w server_config \<Rightarrow> 'w api_handler \<Rightarrow> go_context \<Rightarrow> string \<Rightarrow> url \<Rightarrow>
   (('w, server_error) measured, response) run" where
  "rec_serve ot eh og jx write_err cfg h ctx method u =
     (case ServeHTTP og (sv_Prefix cfg) method u of
        NotFoundRoute \<Rightarrow> ret (sv_NotFound cfg empty_response)
      | NotAllowedRoute allowed \<Rightarrow> ret (sv_MethodNotAllowed cfg method allowed empty_response)
      | OrderIDGetRoute arg escaped \<Rightarrow>
          rec_handleOrderIDGetRequest ot eh og jx write_err cfg h ctx arg escaped empty_response)"

section \<open>The client\<close>

text \<open>
  The stages of \<open>sendOrderIDGet\<close>: the stage it ends in, whether it has a response whose
  body it must close, and its result.
\<close>

definition send_stages ::
  "client_lib \<Rightarrow> ogen \<Rightarrow> jx \<Rightarrow> 'w api_client \<Rightarrow> url option \<Rightarrow> string \<Rightarrow>
   ('w, string \<times> bool \<times> (client_error + order_id_get_res)) run" where
  "send_stages cl og jx c override ID =
     (let stage = ''BuildURL'' in
      case cl_EncodePath cl ID of
        Inl err \<Rightarrow> ret (stage, False, Inl (ClientErr (Wrap ''encode path: '' err '''')))
      | Inr encoded \<Rightarrow>
          (let u = cl_AddPathParts cl (requestURL c override) [''/order/'', encoded]; stage = ''EncodeRequest'' in
           case cl_NewRequest cl ''GET'' u of
             Inl err \<Rightarrow> ret (stage, False, Inl (ClientErr (Wrap ''create request: '' err '''')))
           | Inr r \<Rightarrow>
               (let stage = ''SendRequest'' in
                bind_run (ac_Do c r) (\<lambda>resp.
                  case resp of
                    Inl err \<Rightarrow> ret (stage, False, Inl (ClientErr (Wrap ''do request: '' err '''')))
                  | Inr resp \<Rightarrow>
                      (let stage = ''DecodeResponse'' in
                       case decodeOrderIDGetResponse og jx resp of
                         Inl err \<Rightarrow> ret (stage, True, Inl (DecodeResponseErr err))
                       | Inr result \<Rightarrow> ret (stage, True, Inr result))))))"

text \<open>
  The deferred calls: closing the body, the end of the span with the error that is returned,
  the stopwatch. The span's attributes and those of the instruments are \<open>otelAttrs\<close>.
\<close>

definition rec_sendOrderIDGet ::
  "otel \<Rightarrow> client_lib \<Rightarrow> ogen \<Rightarrow> jx \<Rightarrow> 'w api_client \<Rightarrow> url option \<Rightarrow> string \<Rightarrow>
   (('w, client_error) measured, client_error + order_id_get_res) run" where
  "rec_sendOrderIDGet ot cl og jx c override ID = (\<lambda>(w, evs).
     (let started = evs @ [RequestsAdded otelAttrs, SpanStarted OrderIDGetOperation otelAttrs SpanKindClient];
          stopped = [SpanEnded, DurationRecorded (ot_elapsed ot) otelAttrs]
      in case send_stages cl og jx c override ID w of
           (w', Panics) \<Rightarrow> ((w', started @ stopped), Panics)
         | (w', Returns (stage, has_body, res)) \<Rightarrow>
             ((w', started @ (if has_body then [BodyClosed] else []) @
                 (case res of
                    Inl err \<Rightarrow> [SpanRecordedError err, SpanStatus CodeError stage, ErrorsAdded otelAttrs]
                  | Inr result \<Rightarrow> []) @ stopped),
              Returns res)))"

definition Client_OrderIDGet ::
  "otel \<Rightarrow> client_lib \<Rightarrow> ogen \<Rightarrow> jx \<Rightarrow> 'w api_client \<Rightarrow> url option \<Rightarrow> string \<Rightarrow>
   (('w, client_error) measured, client_error + order_id_get_res) run" where
  "Client_OrderIDGet ot cl og jx c override params =
     bind_run (rec_sendOrderIDGet ot cl og jx c override params) (\<lambda>res. ret res)"

end
