(* ===== verification/ApiTelemetryProps.thy ===== *)
theory ApiTelemetryProps
  imports ApiTelemetry
begin

text \<open>
  What holds of the measured handler and client: without the events they are the handler and
  the client of \<open>ApiServer\<close> and \<open>ApiClient\<close>, every request is measured exactly once
  whatever happens, and what the service reports for a request for an order.
\<close>

section \<open>Erasing the events\<close>

text \<open>An outcome without the events.\<close>

definition unmeasured :: "('w, 'e) measured \<times> 'a outcome \<Rightarrow> 'w \<times> 'a outcome" where
  "unmeasured res = (fst (fst res), snd res)"

lemma unmeasured_simps [simp]:
  "unmeasured ((w, evs), out) = (w, out)" "unmeasured (ret a (w, evs)) = ret a w"
  by (simp_all add: unmeasured_def ret_def)

text \<open>An error handler that uses the recording writer as the writer that it wraps.\<close>

definition writes_through ::
  "(server_error \<Rightarrow> codeRecorder \<Rightarrow> codeRecorder) \<Rightarrow> 'w server_config \<Rightarrow> bool" where
  "writes_through eh cfg \<longleftrightarrow> (\<forall>e c. cr_writer (eh e c) = sv_ErrorHandler cfg e (cr_writer c))"

lemma rec_write_json_writer:
  "write_json we code doc (cr_writer c) =
     (case rec_write_json we code st doc c of (c', evs, err) \<Rightarrow> (cr_writer c', err))"
  by (simp add: write_json_def rec_write_json_def rec_WriteHeader_def rec_Header_Set_def Let_def split: prod.split)

lemma rec_encodeOrderIDGetResponse_writer:
  "encodeOrderIDGetResponse jx we res (cr_writer c) =
     (case rec_encodeOrderIDGetResponse jx we res c of (c', evs, err) \<Rightarrow> (cr_writer c', err))"
  by (simp add: encodeOrderIDGetResponse_def rec_encodeOrderIDGetResponse_def
      rec_write_json_writer [symmetric] split: option.split order_id_get_res.split)

lemma rec_encodeErrorResponse_writer:
  "encodeErrorResponse we res (cr_writer c) =
     (case rec_encodeErrorResponse we res c of (c', evs, err) \<Rightarrow> (cr_writer c', err))"
proof -
  let ?code = "if es_StatusCode res = 0 then 200 else es_StatusCode res"
  obtain c' evs err where r: "rec_write_json we ?code (if ?code \<ge> 400 then CodeError else CodeOk)
      (ErrorResponse_Encode (es_Response res)) c = (c', evs :: 'a otel_event list, err)"
    using prod_cases3 by blast
  have "write_json we ?code (ErrorResponse_Encode (es_Response res)) (cr_writer c) = (cr_writer c', err)"
    unfolding rec_write_json_writer [where st = "if ?code \<ge> 400 then CodeError else CodeOk" and 'a = 'a] r by simp
  then show ?thesis using r
    by (simp add: encodeErrorResponse_def rec_encodeErrorResponse_def Let_def split: option.split)
qed

lemma rec_finish_request_writer:
  assumes "writes_through eh cfg"
  shows "finish_request jx we cfg h ctx res err (cr_writer c) =
    cr_writer (fst (rec_finish_request eh jx we h ctx res err c))"
proof (cases err)
  case None
  obtain c' evs e where r: "rec_encodeOrderIDGetResponse jx we res c = (c', evs :: server_error otel_event list, e)"
    using prod_cases3 by blast
  then show ?thesis
    using None assms rec_encodeOrderIDGetResponse_writer [of jx we res c, where 'a = server_error]
    by (simp add: finish_request_def rec_finish_request_def writes_through_def split: option.split)
next
  case (Some he)
  have enc: "fst (encodeErrorResponse we es (cr_writer c)) =
      cr_writer (fst (rec_encodeErrorResponse we es c :: server_error written))" for es
    unfolding rec_encodeErrorResponse_writer [where 'a = server_error] by (simp add: split_beta)
  show ?thesis
    by (cases he) (use Some assms in \<open>simp_all add: finish_request_def rec_finish_request_def writes_through_def
        enc Let_def split_beta\<close>)
qed

lemma contextWithLabeler_Some:
  "contextWithLabeler (Some m) = Returns (Some (m(labelerContextKey \<mapsto> VOther)))"
  by (simp add: contextWithLabeler_def WithValue_def)

text \<open>The context in which the handler is called.\<close>

definition measured_ctx :: "otel \<Rightarrow> go_context \<Rightarrow> ctx_values" where
  "measured_ctx ot ctx = (ot_Start ot ctx)(labelerContextKey \<mapsto> VOther)"

text \<open>A tracer that adds nothing to the context, and a clock, for the examples.\<close>

definition plain_otel :: otel where
  "plain_otel = \<lparr>ot_Start = (\<lambda>ctx. case ctx of None \<Rightarrow> \<lambda>_. None | Some m \<Rightarrow> m), ot_NewSet = id, ot_elapsed = 7\<rparr>"

lemma rec_handle_unmeasured:
  assumes "writes_through eh cfg"
  shows "unmeasured (rec_handleOrderIDGetRequest ot eh og jx we cfg h ctx arg esc r (w, evs)) =
    handleOrderIDGetRequest og jx we cfg h (Some (measured_ctx ot ctx)) arg esc r w"
  using assms rec_finish_request_writer [OF assms, where c = "\<lparr>cr_writer = r, cr_status = 0\<rparr>"]
  by (auto simp: rec_handleOrderIDGetRequest_def handleOrderIDGetRequest_def contextWithLabeler_Some
      measured_ctx_def Let_def ret_def bind_run_def writes_through_def split_beta split: sum.split prod.split outcome.split)

text \<open>
  C17: Measuring a request does not change it: without the events, the generated handler with
  its span, counters and recording writer leaves the same world, answers with the same response and
  panics for the same requests as the handler without them, called in the context that
  the tracer and the labeler have extended. (For an error handler that writes through
  the recording writer.)
\<close>

theorem measured_server_refines_plain:
  assumes "writes_through eh cfg"
  shows "unmeasured (rec_serve ot eh og jx we cfg h ctx method u (w, evs)) =
    serve og jx we cfg h (Some (measured_ctx ot ctx)) method u w"
  by (simp add: rec_serve_def serve_def rec_handle_unmeasured [OF assms] split: dispatch.split)

theorem measured_server_refines_plain_witness:
  "unmeasured (rec_serve plain_otel (\<lambda>e. rec_WriteHeader 400) plain_ogen plain_jx None sample_config
      (NewOrderServiceHTTPHandler None (lru_order_port None) list_storage) Background ''GET'' (order_url ''nope'')
      (sample_world, [])) =
   serve plain_ogen plain_jx None sample_config (NewOrderServiceHTTPHandler None (lru_order_port None) list_storage)
     (Some (measured_ctx plain_otel Background)) ''GET'' (order_url ''nope'') sample_world"
proof (rule measured_server_refines_plain)
  show "writes_through (\<lambda>e. rec_WriteHeader 400) sample_config"
    by (simp add: writes_through_def rec_WriteHeader_def sample_config_def newServerConfig_def WithMiddleware_def)
qed

lemma send_stages_result:
  "sendOrderIDGet cl og jx c override ID =
     bind_run (send_stages cl og jx c override ID) (\<lambda>(stage, has_body, res). ret res)"
  by (auto simp: sendOrderIDGet_def send_stages_def bind_run_def ret_def fun_eq_iff Let_def
      split: sum.split prod.split outcome.split)

text \<open>The same for the client.\<close>

lemma rec_send_unmeasured:
  "unmeasured (rec_sendOrderIDGet ot cl og jx c override ID (w, evs)) = sendOrderIDGet cl og jx c override ID w"
  by (auto simp: rec_sendOrderIDGet_def send_stages_result bind_run_def ret_def Let_def split: prod.split outcome.split)

section \<open>Every request is measured once\<close>

text \<open>A span is started, used and ended in this order, and is not left open.\<close>

fun span_ok :: "bool \<Rightarrow> 'e otel_event list \<Rightarrow> bool" where
  "span_ok started [] \<longleftrightarrow> \<not> started"
| "span_ok started (e # evs) \<longleftrightarrow>
     (case e of
        SpanStarted name attrs kind \<Rightarrow> \<not> started \<and> span_ok True evs
      | SpanEnded \<Rightarrow> started \<and> span_ok False evs
      | SpanStatus code text \<Rightarrow> started \<and> span_ok started evs
      | SpanRecordedError err \<Rightarrow> started \<and> span_ok started evs
      | SpanAttributes attrs \<Rightarrow> started \<and> span_ok started evs
      | _ \<Rightarrow> span_ok started evs)"

definition is_request :: "'e otel_event \<Rightarrow> bool" where
  "is_request e = (case e of RequestsAdded attrs \<Rightarrow> True | _ \<Rightarrow> False)"

definition is_duration :: "'e otel_event \<Rightarrow> bool" where
  "is_duration e = (case e of DurationRecorded t attrs \<Rightarrow> True | _ \<Rightarrow> False)"

definition is_error :: "'e otel_event \<Rightarrow> bool" where
  "is_error e = (case e of ErrorsAdded attrs \<Rightarrow> True | _ \<Rightarrow> False)"

definition is_recorded :: "'e otel_event \<Rightarrow> bool" where
  "is_recorded e = (case e of SpanRecordedError err \<Rightarrow> True | _ \<Rightarrow> False)"

definition is_start :: "'e otel_event \<Rightarrow> bool" where
  "is_start e = (case e of SpanStarted name attrs kind \<Rightarrow> True | _ \<Rightarrow> False)"

definition occurrences :: "('e otel_event \<Rightarrow> bool) \<Rightarrow> 'e otel_event list \<Rightarrow> nat" where
  "occurrences p evs = length (filter p evs)"

definition measured_once :: "'e otel_event list \<Rightarrow> bool" where
  "measured_once evs \<longleftrightarrow> span_ok False evs \<and> occurrences is_start evs = 1 \<and> occurrences is_request evs = 1 \<and>
     occurrences is_duration evs = 1 \<and> occurrences is_error evs = occurrences is_recorded evs \<and>
     occurrences is_error evs \<le> 1"

lemmas event_defs = is_request_def is_duration_def is_error_def is_recorded_def is_start_def

lemma occurrences_simps [simp]:
  "occurrences p [] = 0"
  "occurrences p (e # evs) = (if p e then Suc (occurrences p evs) else occurrences p evs)"
  "occurrences p (evs @ evs') = occurrences p evs + occurrences p evs'"
  by (simp_all add: occurrences_def)

text \<open>While a response is written, only the status of the span is set.\<close>

definition only_status :: "'e otel_event list \<Rightarrow> bool" where
  "only_status evs \<longleftrightarrow> list_all (\<lambda>e. case e of SpanStatus code text \<Rightarrow> True | _ \<Rightarrow> False) evs"

lemma rec_write_json_status: "rec_write_json we code st doc c = (c', evs, err) \<Longrightarrow> only_status evs"
  by (auto simp: rec_write_json_def only_status_def Let_def split: prod.splits)

lemma rec_encode_status:
  "rec_encodeOrderIDGetResponse jx we res c = (c', evs, err) \<Longrightarrow> only_status evs"
  "rec_encodeErrorResponse we es c = (c', evs, err) \<Longrightarrow> only_status evs"
  by (auto simp: rec_encodeOrderIDGetResponse_def rec_encodeErrorResponse_def only_status_def [of "[]"] Let_def
      dest: rec_write_json_status split: option.splits order_id_get_res.splits prod.splits)

lemma rec_finish_status:
  assumes "rec_finish_request eh jx we h ctx res err c = (c', evs, failed)"
  shows "only_status evs"
  using assms by (auto simp: rec_finish_request_def only_status_def [of "[]"] Let_def dest: rec_encode_status
      split: option.splits handler_error.splits if_splits prod.splits)

lemma only_status_occurrences:
  assumes "only_status evs"
  shows "occurrences is_start evs = 0" "occurrences is_request evs = 0" "occurrences is_duration evs = 0"
    "occurrences is_error evs = 0" "occurrences is_recorded evs = 0"
    "span_ok True (evs @ evs') = span_ok True evs'"
  using assms by (induction evs) (auto simp: only_status_def event_defs split: otel_event.splits)

lemma run_deferred_measured:
  assumes "only_status evs"
  shows "measured_once (SpanStarted name attrs kind # evs @ run_deferred ot labeler c failed)"
  using only_status_occurrences [OF assms]
  by (auto simp: measured_once_def run_deferred_def stopwatch_def recordError_def event_defs Let_def
      split: option.split prod.split)

lemma rec_handle_measured:
  "\<exists>new. snd (fst (rec_handleOrderIDGetRequest ot eh og jx we cfg h ctx arg esc r (w, evs))) = evs @ new \<and>
     measured_once new"
  using run_deferred_measured [of "[]"]
  by (auto simp: rec_handleOrderIDGetRequest_def contextWithLabeler_Some Let_def only_status_def [of "[]"]
      dest: rec_finish_status intro: run_deferred_measured split: sum.split prod.split outcome.split)

lemma rec_send_measured:
  "\<exists>new. snd (fst (rec_sendOrderIDGet ot cl og jx c override ID (w, evs))) = evs @ new \<and> measured_once new"
  by (auto simp: rec_sendOrderIDGet_def Let_def measured_once_def event_defs split: sum.split prod.split outcome.split)


section \<open>What the client reports\<close>

text \<open>The stage in which a call of the client fails.\<close>

definition failed_stage :: "client_lib \<Rightarrow> 'w api_client \<Rightarrow> url option \<Rightarrow> string \<Rightarrow> client_error \<Rightarrow> string" where
  "failed_stage cl c override ID err =
     (case cl_EncodePath cl ID of
        Inl e \<Rightarrow> ''BuildURL''
      | Inr encoded \<Rightarrow>
          (case cl_NewRequest cl ''GET'' (cl_AddPathParts cl (requestURL c override) [''/order/'', encoded]) of
             Inl e \<Rightarrow> ''EncodeRequest''
           | Inr r \<Rightarrow> (case err of ClientErr e \<Rightarrow> ''SendRequest'' | DecodeResponseErr e \<Rightarrow> ''DecodeResponse'')))"

text \<open>
  C34: The client's telemetry tells the truth about the call and does not change it. The
  measured client does what the client does; its span is marked as failed, with the error that the caller
  gets and the stage in which the call failed, and the errors are counted, exactly when the
  caller gets an error; and the body of a response is closed exactly when there was one, before
  the span ends.
\<close>

theorem client_reports_its_outcome:
  assumes "sendOrderIDGet cl og jx c override ID w = (w', Returns res)"
  shows "\<exists>body. rec_sendOrderIDGet ot cl og jx c override ID (w, evs) =
      ((w', evs @ [RequestsAdded otelAttrs, SpanStarted OrderIDGetOperation otelAttrs SpanKindClient] @ body @
         (case res of
            Inr r \<Rightarrow> []
          | Inl err \<Rightarrow> [SpanRecordedError err, SpanStatus CodeError (failed_stage cl c override ID err),
              ErrorsAdded otelAttrs]) @
         [SpanEnded, DurationRecorded (ot_elapsed ot) otelAttrs]), Returns res) \<and>
    body = (case res of Inl (ClientErr e) \<Rightarrow> [] | _ \<Rightarrow> [BodyClosed])"
  using assms
  by (auto simp: sendOrderIDGet_def rec_sendOrderIDGet_def send_stages_def failed_stage_def bind_run_def ret_def Let_def
      split: sum.splits prod.splits outcome.splits client_error.splits)

definition unreachable_client :: "unit api_client" where
  "unreachable_client = \<lparr>ac_serverURL = \<lparr>url_Path = [], url_RawPath = []\<rparr>, ac_Do = (\<lambda>r. ret (Inl (Ext ''refused'')))\<rparr>"

theorem client_reports_its_outcome_witness:
  "\<exists>e. rec_sendOrderIDGet plain_otel plain_client_lib plain_ogen plain_jx unreachable_client None ''b563'' ((), []) =
     (((), [RequestsAdded otelAttrs, SpanStarted OrderIDGetOperation otelAttrs SpanKindClient,
        SpanRecordedError (ClientErr e), SpanStatus CodeError ''SendRequest'', ErrorsAdded otelAttrs,
        SpanEnded, DurationRecorded 7 otelAttrs]), Returns (Inl (ClientErr e)))"
proof -
  have "sendOrderIDGet plain_client_lib plain_ogen plain_jx unreachable_client None ''b563'' () =
      ((), Returns (Inl (ClientErr (Wrap ''do request: '' (Ext ''refused'') ''''))))"
    by (simp add: sendOrderIDGet_def plain_client_lib_def unreachable_client_def bind_run_def ret_def)
  from client_reports_its_outcome [OF this, of plain_otel "[]"]
  show ?thesis by (simp add: failed_stage_def plain_client_lib_def plain_otel_def)
qed

section \<open>What the service reports\<close>

text \<open>What a request reports that is answered with \<open>code\<close> and without an error.\<close>

definition answered_events :: "otel \<Rightarrow> int \<Rightarrow> server_error otel_event list" where
  "answered_events ot code =
     (let code_attr = AInt ''http.response.status_code'' code;
          attrs = ot_NewSet ot otelAttrs @ [code_attr] in
      [SpanStarted OrderIDGetOperation otelAttrs SpanKindServer,
       SpanStatus (if code = 200 then CodeOk else CodeError) (StatusText code),
       SpanAttributes [code_attr], RequestsAdded attrs, DurationRecorded (ot_elapsed ot) attrs, SpanEnded])"

text \<open>
  C33: What the service reports of a request for an order: whether the cache or the storage has
  the order, the storage does not find it or fails, the client gets status 200, 404 or 500 and
  the span and the instruments have this same status. The counter of errors is never
  increased, not for a failure of the storage either: the handler returns its 500 answer as
  a response and not as an error.
\<close>

theorem service_requests_reported:
  assumes "good_url og (sv_Prefix cfg) uid u" "sv_Middleware cfg = Some (LoggingMiddleware None z)"
    "measured_ctx ot ctx KeyForRequestID = None" "lru_rep (wd_cache w) s"
    "lookup_answer s storage (with_logger (measured_ctx ot ctx)) uid (wd_storage w) = Returns a"
  shows "\<exists>w' r. rec_serve ot eh og jx None cfg (NewOrderServiceHTTPHandler z (lru_order_port zc) storage) ctx ''GET'' u
      (w, evs) = ((w', evs @ answered_events ot (res_status (order_answer a))), Returns r) \<and>
    rs_status r = Some (res_status (order_answer a))"
proof -
  let ?h = "NewOrderServiceHTTPHandler z (lru_order_port zc) storage"
  obtain arg where arg: "rec_serve ot eh og jx None cfg ?h ctx ''GET'' u =
      rec_handleOrderIDGetRequest ot eh og jx None cfg ?h ctx arg False empty_response"
    "decodeOrderIDGetParams og arg False = Inr uid"
    using good_url_dispatch [OF assms(1)] by (auto simp: rec_serve_def)
  obtain w' where "OrderIDGet z (lru_order_port zc) storage uid (with_logger (measured_ctx ot ctx)) w =
      (w', Returns (Some (order_answer a), None))"
    using OrderIDGet_answers [OF assms(4) _ assms(5)] with_logger_ok [of "measured_ctx ot ctx", OF assms(3)] by blast
  then have h: "LoggingMiddleware None z (h_OrderIDGet ?h uid) (Some (measured_ctx ot ctx)) w =
      (w', Returns (Some (order_answer a), None))"
    by (intro LoggingMiddleware_ok) (simp add: NewOrderServiceHTTPHandler_def)
  show ?thesis
    unfolding arg(1) using h arg(2) assms(2)
    by (cases "order_answer a") (simp_all add: rec_handleOrderIDGetRequest_def contextWithLabeler_Some
        measured_ctx_def rec_finish_request_def rec_encodeOrderIDGetResponse_def rec_write_json_def rec_WriteHeader_def
        rec_Header_Set_def WriteTo_def WriteHeader_def Header_Set_def empty_response_def run_deferred_def stopwatch_def
        code_attrs_def AttributeSet_def answered_events_def Let_def)
qed

theorem service_requests_reported_witness:
  "\<exists>w' r. rec_serve plain_otel (\<lambda>e. rec_WriteHeader 400) plain_ogen plain_jx None sample_config
      (NewOrderServiceHTTPHandler None (lru_order_port None) list_storage) Background ''GET'' (order_url ''nope'')
      (sample_world, []) = ((w', answered_events plain_otel 404), Returns r) \<and> rs_status r = Some 404"
proof -
  have url: "good_url plain_ogen (sv_Prefix sample_config) ''nope'' (order_url ''nope'')"
    using order_url_good [of "''nope''"] by simp
  have a: "lookup_answer [] list_storage (with_logger (measured_ctx plain_otel Background)) ''nope'' (wd_storage sample_world) =
      Returns (zero_order, Some (Sentinel ErrOrderNotFound))"
    by (simp add: lookup_answer_def list_storage_def sample_world_def sample_order_def)
  have k: "measured_ctx plain_otel Background KeyForRequestID = None"
    by (simp add: measured_ctx_def plain_otel_def Background_def KeyForRequestID_def labelerContextKey_def)
  show ?thesis
    using service_requests_reported [where eh = "\<lambda>e. rec_WriteHeader 400" and jx = plain_jx and zc = None and evs = "[]",
        OF url sample_config_fields(2) k sample_world_rep a]
    by (simp add: order_answer_def)
qed

text \<open>
  A response whose body cannot be written: the status has been sent, but the error handler's
  second \<open>WriteHeader\<close>, which the connection ignores, is the one that is recorded.
\<close>

lemma recorded_status_of_failed_write:
  assumes "\<not> errors_is (Wrap ''write: '' e '''') ErrInternalServerErrorResponse"
    "rec_finish_request (\<lambda>_. rec_WriteHeader 500) jx (Some e) h ctx (Some res) None
       \<lparr>cr_writer = empty_response, cr_status = 0\<rparr> = (c, evs, failed)"
  shows "cr_status c = 500" "rs_status (cr_writer c) = Some (res_status res)"
  using assms
  by (cases res; auto simp: rec_finish_request_def rec_encodeOrderIDGetResponse_def rec_write_json_def
      rec_WriteHeader_def rec_Header_Set_def WriteTo_def WriteHeader_def Header_Set_def empty_response_def Let_def)+

end
