(* ===== verification/ApiConfig.thy ===== *)
theory ApiConfig
  imports ApiClient
begin

text \<open>
  The configuration of the generated server and client (\<open>oas_cfg_gen.go\<close>,
  \<open>oas_server_gen.go\<close>): the options as values, what applying them gives, the
  OpenTelemetry providers with their fallback, and the instruments that the constructors create. The
  providers, tracers, meters and instruments of OpenTelemetry are opaque, of type \<open>'o\<close>.
  The server's own fields are those of \<open>server_config\<close>.
\<close>

section \<open>OpenTelemetry\<close>

record 'o otel_lib =
  ol_GetTracerProvider :: 'o
  ol_GetMeterProvider :: 'o
  ol_Tracer :: "'o \<Rightarrow> 'o"
  ol_Meter :: "'o \<Rightarrow> 'o"
  ol_ServerRequestCount :: "'o \<Rightarrow> go_error + 'o"
  ol_ServerErrorsCount :: "'o \<Rightarrow> go_error + 'o"
  ol_ServerDuration :: "'o \<Rightarrow> go_error + 'o"
  ol_ClientRequestCount :: "'o \<Rightarrow> go_error + 'o"
  ol_ClientErrorsCount :: "'o \<Rightarrow> go_error + 'o"
  ol_ClientDuration :: "'o \<Rightarrow> go_error + 'o"

text \<open>A nil interface is \<open>None\<close>.\<close>

record 'o otelConfig =
  oc_TracerProvider :: "'o option"
  oc_Tracer :: "'o option"
  oc_MeterProvider :: "'o option"
  oc_Meter :: "'o option"

definition initOTEL :: "'o otel_lib \<Rightarrow> 'o otelConfig \<Rightarrow> 'o otelConfig" where
  "initOTEL ol cfg =
     (let tp = (case oc_TracerProvider cfg of None \<Rightarrow> ol_GetTracerProvider ol | Some p \<Rightarrow> p);
          mp = (case oc_MeterProvider cfg of None \<Rightarrow> ol_GetMeterProvider ol | Some p \<Rightarrow> p)
      in \<lparr>oc_TracerProvider = Some tp, oc_Tracer = Some (ol_Tracer ol tp),
          oc_MeterProvider = Some mp, oc_Meter = Some (ol_Meter ol mp)\<rparr>)"

definition no_otel :: "'o otelConfig" where
  "no_otel = \<lparr>oc_TracerProvider = None, oc_Tracer = None, oc_MeterProvider = None, oc_Meter = None\<rparr>"

section \<open>Options\<close>

text \<open>The whole configurations: the embedded \<open>otelConfig\<close> and the fields of their own.\<close>

record ('w, 'o) serverConfig =
  sc_otel :: "'o otelConfig"
  sc_server :: "'w server_config"
  sc_MaxMultipartMemory :: go_int64

record ('w, 'o) clientConfig =
  cc_otel :: "'o otelConfig"
  cc_Client :: "'w http_do"

text \<open>The two kinds of options: on a configuration, or on what both configurations embed.\<close>

datatype ('c, 'o) config_option = OptionFunc "'c \<Rightarrow> 'c" | OtelOptionFunc "'o otelConfig \<Rightarrow> 'o otelConfig"

primrec applyServer ::
  "(('w, 'o) serverConfig, 'o) config_option \<Rightarrow> ('w, 'o) serverConfig \<Rightarrow> ('w, 'o) serverConfig" where
  "applyServer (OptionFunc f) c = f c"
| "applyServer (OtelOptionFunc f) c = c\<lparr>sc_otel := f (sc_otel c)\<rparr>"

primrec applyClient ::
  "(('w, 'o) clientConfig, 'o) config_option \<Rightarrow> ('w, 'o) clientConfig \<Rightarrow> ('w, 'o) clientConfig" where
  "applyClient (OptionFunc f) c = f c"
| "applyClient (OtelOptionFunc f) c = c\<lparr>cc_otel := f (cc_otel c)\<rparr>"

text \<open>An option of \<open>ApiServer\<close>, on the fields of the server.\<close>

definition server_option ::
  "('w server_config \<Rightarrow> 'w server_config) \<Rightarrow> (('w, 'o) serverConfig, 'o) config_option" where
  "server_option f = OptionFunc (\<lambda>cfg. cfg\<lparr>sc_server := f (sc_server cfg)\<rparr>)"

definition WithTracerProvider :: "'o option \<Rightarrow> ('c, 'o) config_option" where
  "WithTracerProvider provider =
     OtelOptionFunc (\<lambda>cfg. if provider \<noteq> None then cfg\<lparr>oc_TracerProvider := provider\<rparr> else cfg)"

definition WithMeterProvider :: "'o option \<Rightarrow> ('c, 'o) config_option" where
  "WithMeterProvider provider =
     OtelOptionFunc (\<lambda>cfg. if provider \<noteq> None then cfg\<lparr>oc_MeterProvider := provider\<rparr> else cfg)"

definition WithClient :: "'w http_do option \<Rightarrow> (('w, 'o) clientConfig, 'o) config_option" where
  "WithClient client =
     OptionFunc (\<lambda>cfg. case client of Some c \<Rightarrow> cfg\<lparr>cc_Client := c\<rparr> | None \<Rightarrow> cfg)"

definition WithMaxMultipartMemory :: "go_int64 \<Rightarrow> (('w, 'o) serverConfig, 'o) config_option" where
  "WithMaxMultipartMemory limit =
     OptionFunc (\<lambda>cfg. if sint limit > 0 then cfg\<lparr>sc_MaxMultipartMemory := limit\<rparr> else cfg)"

section \<open>Constructors\<close>

definition full_newServerConfig ::
  "'o otel_lib \<Rightarrow> (response \<Rightarrow> response) \<Rightarrow> (server_error \<Rightarrow> response \<Rightarrow> response) \<Rightarrow>
   (('w, 'o) serverConfig, 'o) config_option list \<Rightarrow> ('w, 'o) serverConfig" where
  "full_newServerConfig ol http_NotFound ogen_ErrorHandler opts =
     (let cfg = \<lparr>sc_otel = no_otel, sc_server = newServerConfig http_NotFound ogen_ErrorHandler [],
            sc_MaxMultipartMemory = push_bit 20 32\<rparr>;
          cfg = fold applyServer opts cfg
      in cfg\<lparr>sc_otel := initOTEL ol (sc_otel cfg)\<rparr>)"

definition newClientConfig ::
  "'o otel_lib \<Rightarrow> 'w http_do \<Rightarrow> (('w, 'o) clientConfig, 'o) config_option list \<Rightarrow> ('w, 'o) clientConfig" where
  "newClientConfig ol DefaultClient opts =
     (let cfg = fold applyClient opts \<lparr>cc_otel = no_otel, cc_Client = DefaultClient\<rparr>
      in cfg\<lparr>cc_otel := initOTEL ol (cc_otel cfg)\<rparr>)"

text \<open>The instruments of a server or a client, each created with the meter; the first error is returned.\<close>

record ('c, 'o) base =
  bs_cfg :: 'c
  bs_requests :: 'o
  bs_errors :: 'o
  bs_duration :: 'o

definition new_base ::
  "('o \<Rightarrow> go_error + 'o) \<Rightarrow> ('o \<Rightarrow> go_error + 'o) \<Rightarrow> ('o \<Rightarrow> go_error + 'o) \<Rightarrow> 'o \<Rightarrow> 'c \<Rightarrow>
   go_error + ('c, 'o) base" where
  "new_base requests errors duration meter cfg =
     (case requests meter of
        Inl err \<Rightarrow> Inl err
      | Inr rs \<Rightarrow>
          (case errors meter of
             Inl err \<Rightarrow> Inl err
           | Inr es \<Rightarrow>
               (case duration meter of
                  Inl err \<Rightarrow> Inl err
                | Inr d \<Rightarrow> Inr \<lparr>bs_cfg = cfg, bs_requests = rs, bs_errors = es, bs_duration = d\<rparr>)))"

text \<open>The meter is that of the configuration, on which a nil one would panic.\<close>

definition baseServer ::
  "'o otel_lib \<Rightarrow> ('w, 'o) serverConfig \<Rightarrow> (go_error + (('w, 'o) serverConfig, 'o) base) outcome" where
  "baseServer ol cfg =
     (case oc_Meter (sc_otel cfg) of
        None \<Rightarrow> Panics
      | Some meter \<Rightarrow>
          Returns (new_base (ol_ServerRequestCount ol) (ol_ServerErrorsCount ol) (ol_ServerDuration ol) meter cfg))"

definition baseClient ::
  "'o otel_lib \<Rightarrow> ('w, 'o) clientConfig \<Rightarrow> (go_error + (('w, 'o) clientConfig, 'o) base) outcome" where
  "baseClient ol cfg =
     (case oc_Meter (cc_otel cfg) of
        None \<Rightarrow> Panics
      | Some meter \<Rightarrow>
          Returns (new_base (ol_ClientRequestCount ol) (ol_ClientErrorsCount ol) (ol_ClientDuration ol) meter cfg))"

definition base_notFound :: "(('w, 'o) serverConfig, 'o) base \<Rightarrow> response \<Rightarrow> response" where
  "base_notFound s w = sv_NotFound (sc_server (bs_cfg s)) w"

definition base_notAllowed ::
  "(('w, 'o) serverConfig, 'o) base \<Rightarrow> string \<Rightarrow> string \<Rightarrow> response \<Rightarrow> response" where
  "base_notAllowed s method allowed w = sv_MethodNotAllowed (sc_server (bs_cfg s)) method allowed w"

definition full_NewServer ::
  "'o otel_lib \<Rightarrow> (response \<Rightarrow> response) \<Rightarrow> (server_error \<Rightarrow> response \<Rightarrow> response) \<Rightarrow> 'w api_handler \<Rightarrow>
   (('w, 'o) serverConfig, 'o) config_option list \<Rightarrow>
   (go_error + 'w api_handler \<times> (('w, 'o) serverConfig, 'o) base) outcome" where
  "full_NewServer ol http_NotFound ogen_ErrorHandler h opts =
     bind_outcome (baseServer ol (full_newServerConfig ol http_NotFound ogen_ErrorHandler opts))
       (\<lambda>s. case s of Inl err \<Rightarrow> Returns (Inl err) | Inr s \<Rightarrow> Returns (Inr (h, s)))"

definition full_NewClient ::
  "client_lib \<Rightarrow> 'o otel_lib \<Rightarrow> 'w http_do \<Rightarrow> string \<Rightarrow> (('w, 'o) clientConfig, 'o) config_option list \<Rightarrow>
   (go_error + url \<times> (('w, 'o) clientConfig, 'o) base) outcome" where
  "full_NewClient cl ol DefaultClient serverURL opts =
     (case cl_Parse cl serverURL of
        Inl err \<Rightarrow> Returns (Inl err)
      | Inr u \<Rightarrow>
          bind_outcome (baseClient ol (newClientConfig ol DefaultClient opts))
            (\<lambda>c. case c of Inl err \<Rightarrow> Returns (Inl err) | Inr c \<Rightarrow> Returns (Inr (trimTrailingSlashes u, c))))"

section \<open>Options and constructors\<close>

text \<open>The error of the three instruments: the first one.\<close>

definition first_error :: "(go_error + 'o) list \<Rightarrow> go_error option" where
  "first_error rs = (case filter (\<lambda>r. case r of Inl e \<Rightarrow> True | Inr x \<Rightarrow> False) rs of
     Inl e # _ \<Rightarrow> Some e | _ \<Rightarrow> None)"

lemma new_base_cases:
  "case first_error [requests meter, errors meter, duration meter] of
     Some e \<Rightarrow> new_base requests errors duration meter cfg = Inl e
   | None \<Rightarrow> \<exists>b. new_base requests errors duration meter cfg = Inr b \<and> bs_cfg b = cfg"
  by (auto simp: new_base_def first_error_def split: sum.split)

lemma initOTEL_complete:
  "oc_Tracer (initOTEL ol cfg) = map_option (ol_Tracer ol) (oc_TracerProvider (initOTEL ol cfg))"
  "oc_Meter (initOTEL ol cfg) = map_option (ol_Meter ol) (oc_MeterProvider (initOTEL ol cfg))"
  "oc_MeterProvider (initOTEL ol cfg) =
     Some (case oc_MeterProvider cfg of None \<Rightarrow> ol_GetMeterProvider ol | Some p \<Rightarrow> p)"
  "oc_TracerProvider (initOTEL ol cfg) =
     Some (case oc_TracerProvider cfg of None \<Rightarrow> ol_GetTracerProvider ol | Some p \<Rightarrow> p)"
  by (simp_all add: initOTEL_def Let_def)

text \<open>The two kinds of options in any order: each kind sees only its own part.\<close>

definition mixed_options ::
  "(('w server_config \<Rightarrow> 'w server_config) + ('o otelConfig \<Rightarrow> 'o otelConfig)) list \<Rightarrow>
   (('w, 'o) serverConfig, 'o) config_option list" where
  "mixed_options opts = map (\<lambda>opt. case opt of Inl f \<Rightarrow> server_option f | Inr f \<Rightarrow> OtelOptionFunc f) opts"

definition lefts :: "('a + 'b) list \<Rightarrow> 'a list" where
  "lefts opts = concat (map (\<lambda>opt. case opt of Inl f \<Rightarrow> [f] | Inr _ \<Rightarrow> []) opts)"

definition rights :: "('a + 'b) list \<Rightarrow> 'b list" where
  "rights opts = concat (map (\<lambda>opt. case opt of Inl _ \<Rightarrow> [] | Inr f \<Rightarrow> [f]) opts)"

lemma apply_mixed:
  "fold applyServer (mixed_options opts) cfg =
     cfg\<lparr>sc_server := fold (\<lambda>f. f) (lefts opts) (sc_server cfg), sc_otel := fold (\<lambda>f. f) (rights opts) (sc_otel cfg)\<rparr>"
proof (induction opts arbitrary: cfg)
  case Nil
  then show ?case by (simp add: mixed_options_def lefts_def rights_def)
next
  case (Cons opt opts)
  then show ?case
    by (cases opt) (simp_all add: mixed_options_def lefts_def rights_def server_option_def)
qed

lemma full_newServerConfig_mixed:
  "full_newServerConfig ol nf eh (mixed_options opts) =
     \<lparr>sc_otel = initOTEL ol (fold (\<lambda>f. f) (rights opts) no_otel), sc_server = newServerConfig nf eh (lefts opts),
      sc_MaxMultipartMemory = 33554432\<rparr>"
  by (simp add: full_newServerConfig_def Let_def apply_mixed newServerConfig_def)

definition server_meter :: "'o otel_lib \<Rightarrow> ('o otelConfig \<Rightarrow> 'o otelConfig) list \<Rightarrow> 'o" where
  "server_meter ol fs =
     ol_Meter ol (case oc_MeterProvider (fold (\<lambda>f. f) fs no_otel) of None \<Rightarrow> ol_GetMeterProvider ol | Some p \<Rightarrow> p)"

text \<open>
  \<open>NewServer\<close> with options of both kinds, in any order. It never panics on a missing meter:
  without a provider the global one is used. It fails exactly with the first error of its three
  instruments, and otherwise its handlers, prefix and middleware are those of the
  server's own options applied in their order to the defaults, whatever telemetry options
  stand between them, and the limit of multipart memory is 32 MB.
\<close>

lemma NewServer_options:
  "\<exists>res. full_NewServer ol nf eh h (mixed_options opts) = Returns res \<and>
     map_sum id (\<lambda>(h', s). (h', sc_server (bs_cfg s))) res =
       NewServer nf eh
         (let meter = server_meter ol (rights opts) in
          first_error [ol_ServerRequestCount ol meter, ol_ServerErrorsCount ol meter, ol_ServerDuration ol meter])
         h (lefts opts) \<and>
     pred_sum (\<lambda>e. True) (\<lambda>(h', s). sc_MaxMultipartMemory (bs_cfg s) = 33554432) res"
proof -
  let ?m = "server_meter ol (rights opts)"
  let ?rs = "[ol_ServerRequestCount ol ?m, ol_ServerErrorsCount ol ?m, ol_ServerDuration ol ?m]"
  let ?cfg = "full_newServerConfig ol nf eh (mixed_options opts)"
  have "oc_Meter (sc_otel ?cfg) = Some ?m"
    by (simp add: full_newServerConfig_mixed initOTEL_def server_meter_def Let_def)
  then have b: "baseServer ol ?cfg = Returns (new_base (ol_ServerRequestCount ol) (ol_ServerErrorsCount ol)
      (ol_ServerDuration ol) ?m ?cfg)"
    by (simp add: baseServer_def)
  show ?thesis
    using new_base_cases [of "ol_ServerRequestCount ol" "ol_ServerErrorsCount ol" "ol_ServerDuration ol" ?m ?cfg]
    by (cases "first_error ?rs") (auto simp: full_NewServer_def b [unfolded full_newServerConfig_mixed] NewServer_def
        full_newServerConfig_mixed Let_def)
qed

text \<open>
  A nil option changes nothing, of several providers the last counts, and a limit that is not
  positive is ignored.
\<close>

lemma telemetry_options:
  "applyServer (WithTracerProvider None) cfg = cfg" "applyServer (WithMeterProvider None) cfg = cfg"
  "applyClient (WithClient None) c = c" "sint limit \<le> 0 \<Longrightarrow> applyServer (WithMaxMultipartMemory limit) cfg = cfg"
  "oc_TracerProvider (sc_otel (full_newServerConfig ol nf eh (opts @ [WithTracerProvider (Some p)]))) = Some p"
  "oc_TracerProvider (cc_otel (newClientConfig ol dc (copts @ [WithTracerProvider (Some p)]))) = Some p"
  "oc_MeterProvider (sc_otel (full_newServerConfig ol nf eh (opts @ [WithMeterProvider (Some p)]))) = Some p"
  "cc_Client (newClientConfig ol dc (copts @ [WithClient (Some c')])) = c'"
  by (simp_all add: WithTracerProvider_def WithMeterProvider_def WithClient_def WithMaxMultipartMemory_def
      full_newServerConfig_def newClientConfig_def initOTEL_def Let_def)

text \<open>The client's constructor, likewise.\<close>

lemma NewClient_refines:
  "\<exists>res. full_NewClient cl ol dc serverURL [WithClient (Some http)] = Returns res \<and>
     map_sum id (\<lambda>(u, b). \<lparr>ac_serverURL = u, ac_Do = cc_Client (bs_cfg b)\<rparr>) res =
       NewClient cl http
         (let meter = ol_Meter ol (ol_GetMeterProvider ol) in
          first_error [ol_ClientRequestCount ol meter, ol_ClientErrorsCount ol meter, ol_ClientDuration ol meter])
         serverURL"
proof -
  let ?m = "ol_Meter ol (ol_GetMeterProvider ol)"
  let ?cfg = "newClientConfig ol dc [WithClient (Some http)]"
  have c: "oc_Meter (cc_otel ?cfg) = Some ?m" "cc_Client ?cfg = http"
    by (simp_all add: newClientConfig_def WithClient_def initOTEL_def no_otel_def Let_def)
  show ?thesis
    using new_base_cases [of "ol_ClientRequestCount ol" "ol_ClientErrorsCount ol" "ol_ClientDuration ol" ?m ?cfg] c
    by (cases "cl_Parse cl serverURL";
        cases "first_error [ol_ClientRequestCount ol ?m, ol_ClientErrorsCount ol ?m, ol_ClientDuration ol ?m]")
      (auto simp: full_NewClient_def NewClient_def baseClient_def Let_def)
qed

end
