(* ===== verification/KafkaReceiver.thy ===== *)
theory KafkaReceiver
  imports Ports
begin

text \<open>
  The Kafka receiver of \<open>pkg/pkgports/adapters/receiver/kafka.go\<close>: messages with
  their number of tries and the time before which they must not be retried, and the retry
  channel, a bounded buffer. The Kafka client and \<open>json.Unmarshal\<close> for the generic
  value type come from outside: \<open>kafka_lib\<close> holds them.

  \<open>Consume\<close> consists of the steps \<open>poll\<close> (the \<open>select\<close>),
  \<open>put_back\<close> (the send that may block) and \<open>read_fresh\<close>. Run in one piece it
  cannot block; the last section lets other goroutines act between the steps.
\<close>

section \<open>Messages\<close>

record ('v, 'msg) kafka_message =
  km_Value :: 'v
  km_Message :: 'msg
  km_RetryAfter :: go_time
  km_TotalTries :: int

definition NewFreshMessage :: "'msg \<Rightarrow> 'v \<Rightarrow> ('v, 'msg) kafka_message" where
  "NewFreshMessage message v =
     \<lparr>km_Value = v, km_Message = message, km_RetryAfter = 0, km_TotalTries = 0\<rparr>"

definition NewRetriedMessage ::
  "go_time \<Rightarrow> ('v, 'msg) kafka_message \<Rightarrow> int \<Rightarrow> ('v, 'msg) kafka_message" where
  "NewRetriedMessage now message retryDelay =
     \<lparr>km_Value = km_Value message, km_Message = km_Message message,
      km_RetryAfter = now + retryDelay, km_TotalTries = km_TotalTries message + 1\<rparr>"

section \<open>The receiver\<close>

text \<open>
  The \<open>kafka.Reader\<close> over its state \<open>'rd\<close>, the payload of a
  \<open>kafka.Message\<close>, \<open>json.Unmarshal\<close> into a value, and the texts that zap gives
  its fields.
\<close>

record ('v, 'msg, 'rd) kafka_lib =
  kl_ReadMessage :: "go_context \<Rightarrow> 'rd \<Rightarrow> 'rd \<times> (go_error + 'msg)"
  kl_CommitMessages :: "go_context \<Rightarrow> 'msg \<Rightarrow> 'rd \<Rightarrow> 'rd \<times> go_error option"
  kl_payload :: "'msg \<Rightarrow> string"
  kl_Unmarshal :: "string \<Rightarrow> go_error + 'v"
  kl_show_message :: "'msg \<Rightarrow> string"
  kl_show_value :: "'v \<Rightarrow> string"
  kl_show_time :: "go_time \<Rightarrow> string"

text \<open>
  The struct, with its channel as the queue of the messages in it and its capacity.
  The last three fields are the environment of the process: the wall clock, the log, and
  the goroutines started by \<open>go k.sendToDLQ(ctx, message)\<close> that have not yet run.
\<close>

record ('v, 'msg, 'rd) kafka_receiver =
  kr_reader :: 'rd
  kr_maxRetries :: int
  kr_retryChan :: "('v, 'msg) kafka_message list"
  kr_chanCap :: nat
  kr_fixedBackoff :: int
  kr_now :: go_time
  kr_logs :: "log_record list"
  kr_dlq :: "(go_context \<times> ('v, 'msg) kafka_message) list"

text \<open>\<open>make(chan ..., retriesCapacity)\<close> panics for a negative capacity.\<close>

definition NewKafkaReceiver ::
  "'rd \<Rightarrow> int \<Rightarrow> int \<Rightarrow> int \<Rightarrow> go_time \<Rightarrow> ('v, 'msg, 'rd) kafka_receiver outcome" where
  "NewKafkaReceiver reader maxRetries retriesCapacity fixedBackoff now =
     (if retriesCapacity < 0 then Panics
      else Returns \<lparr>kr_reader = reader, kr_maxRetries = maxRetries, kr_retryChan = [],
             kr_chanCap = nat retriesCapacity, kr_fixedBackoff = fixedBackoff,
             kr_now = now, kr_logs = [], kr_dlq = []\<rparr>)"

definition kr_say ::
  "(logger_ptr \<Rightarrow> go_context \<Rightarrow> string \<Rightarrow> log_field list \<Rightarrow> log_record outcome) \<Rightarrow>
   go_context \<Rightarrow> string \<Rightarrow> log_field list \<Rightarrow> (('v, 'msg, 'rd) kafka_receiver, unit) run" where
  "kr_say level ctx msg flds r =
     (case ctx_log level ctx msg flds of
        Panics \<Rightarrow> (r, Panics)
      | Returns rec \<Rightarrow> (r\<lparr>kr_logs := kr_logs r @ [rec]\<rparr>, Returns ()))"

section \<open>Consume\<close>

text \<open>The receive case of the \<open>select\<close>, or its default.\<close>

definition poll ::
  "('v, 'msg, 'rd) kafka_receiver \<Rightarrow> ('v, 'msg, 'rd) kafka_receiver \<times> ('v, 'msg) kafka_message option" where
  "poll r = (case kr_retryChan r of
       [] \<Rightarrow> (r, None)
     | failedMessage # ms \<Rightarrow> (r\<lparr>kr_retryChan := ms\<rparr>, Some failedMessage))"

text \<open>A blocking send on the channel; \<open>None\<close> when it must wait.\<close>

definition put_back ::
  "('v, 'msg) kafka_message \<Rightarrow> ('v, 'msg, 'rd) kafka_receiver \<Rightarrow> ('v, 'msg, 'rd) kafka_receiver option" where
  "put_back m r =
     (if length (kr_retryChan r) < kr_chanCap r
      then Some (r\<lparr>kr_retryChan := kr_retryChan r @ [m]\<rparr>) else None)"

definition read_fresh ::
  "('v, 'msg, 'rd) kafka_lib \<Rightarrow> 'v \<Rightarrow> go_context \<Rightarrow>
   (('v, 'msg, 'rd) kafka_receiver, 'v \<times> ('v, 'msg) kafka_message option \<times> go_error option) run" where
  "read_fresh lib zero ctx r =
     (let (rd, res) = kl_ReadMessage lib ctx (kr_reader r); r' = r\<lparr>kr_reader := rd\<rparr> in
      case res of
        Inl err \<Rightarrow> ret (zero, None, Some (Wrap ''error while reading from kafka: '' err '''')) r'
      | Inr msg \<Rightarrow>
          (case kl_Unmarshal lib (kl_payload lib msg) of
             Inl err \<Rightarrow> ret (zero, None, Some (Wrap ''error while unmarshalling message: '' err '''')) r'
           | Inr v \<Rightarrow> ret (v, Some (NewFreshMessage msg v), None) r'))"

definition Consume ::
  "('v, 'msg, 'rd) kafka_lib \<Rightarrow> 'v \<Rightarrow> go_context \<Rightarrow> ('v, 'msg, 'rd) kafka_receiver \<Rightarrow>
   (('v, 'msg, 'rd) kafka_receiver \<times>
      ('v \<times> ('v, 'msg) kafka_message option \<times> go_error option) outcome) option" where
  "Consume lib zero ctx r =
     (case poll r of
        (r', Some failedMessage) \<Rightarrow>
          if After (kr_now r') (km_RetryAfter failedMessage)
          then Some (r', Returns (km_Value failedMessage, Some failedMessage, None))
          else map_option (read_fresh lib zero ctx) (put_back failedMessage r')
      | (r', None) \<Rightarrow> Some (read_fresh lib zero ctx r'))"

section \<open>OnSuccess and OnFail\<close>

text \<open>\<open>givenMessage\<close> is a pointer; the methods dereference it.\<close>

definition OnSuccess ::
  "('v, 'msg, 'rd) kafka_lib \<Rightarrow> go_context \<Rightarrow> ('v, 'msg) kafka_message option \<Rightarrow>
   (('v, 'msg, 'rd) kafka_receiver, go_error option) run" where
  "OnSuccess lib ctx givenMessage r =
     (case givenMessage of
        None \<Rightarrow> (r, Panics)
      | Some m \<Rightarrow>
          (let (rd, err) = kl_CommitMessages lib ctx (km_Message m) (kr_reader r)
           in (r\<lparr>kr_reader := rd\<rparr>, Returns err)))"

definition sendToDLQ ::
  "('v, 'msg, 'rd) kafka_lib \<Rightarrow> go_context \<Rightarrow> ('v, 'msg) kafka_message option \<Rightarrow>
   (('v, 'msg, 'rd) kafka_receiver, unit) run" where
  "sendToDLQ lib ctx givenMessage r =
     (case givenMessage of
        None \<Rightarrow> (r, Panics)
      | Some m \<Rightarrow>
          kr_say Info ctx ''message sent to DLQ''
            [(''message'', kl_show_message lib (km_Message m)), (''value'', kl_show_value lib (km_Value m))] r)"

definition go_sendToDLQ ::
  "go_context \<Rightarrow> ('v, 'msg) kafka_message \<Rightarrow> (('v, 'msg, 'rd) kafka_receiver, unit) run" where
  "go_sendToDLQ ctx m r = (r\<lparr>kr_dlq := kr_dlq r @ [(ctx, m)]\<rparr>, Returns ())"

definition sendToRetries ::
  "('v, 'msg, 'rd) kafka_lib \<Rightarrow> go_context \<Rightarrow> ('v, 'msg) kafka_message option \<Rightarrow>
   (('v, 'msg, 'rd) kafka_receiver, unit) run" where
  "sendToRetries lib ctx givenMessage r =
     (case givenMessage of
        None \<Rightarrow> (r, Panics)
      | Some m \<Rightarrow>
          (let totalTries = km_TotalTries m + 1 in
           if totalTries > kr_maxRetries r
           then bind_run (kr_say Info ctx ''message sent to DLQ, max retries reached''
                    [(''total tries'', itoa totalTries)])
                  (\<lambda>_. go_sendToDLQ ctx m) r
           else
             (let newMessage = NewRetriedMessage (kr_now r) m (kr_fixedBackoff r);
                  flds = [(''total tries'', itoa (km_TotalTries newMessage)),
                          (''retry after'', kl_show_time lib (km_RetryAfter newMessage))] in
              case put_back newMessage r of
                Some r' \<Rightarrow> kr_say Info ctx ''message sent to retry channel'' flds r'
              | None \<Rightarrow>
                  bind_run (go_sendToDLQ ctx m)
                    (\<lambda>_. kr_say Warn ctx ''retry overflow! sending to DLQ'' flds) r)))"

definition OnFail ::
  "('v, 'msg, 'rd) kafka_lib \<Rightarrow> go_context \<Rightarrow> bool \<Rightarrow> ('v, 'msg) kafka_message option \<Rightarrow>
   (('v, 'msg, 'rd) kafka_receiver, go_error option) run" where
  "OnFail lib ctx shouldRetry givenMessage =
     bind_run (if shouldRetry then sendToRetries lib ctx givenMessage else sendToDLQ lib ctx givenMessage)
       (\<lambda>_. ret None)"

section \<open>One call\<close>

lemma kr_say_ok [simp]:
  assumes "ctx_ok ctx"
  shows "kr_say Info ctx msg flds r = (r\<lparr>kr_logs := kr_logs r @ [log_rec InfoLevel ctx msg flds]\<rparr>, Returns ())"
    "kr_say Warn ctx msg flds r = (r\<lparr>kr_logs := kr_logs r @ [log_rec WarnLevel ctx msg flds]\<rparr>, Returns ())"
  using assms by (simp_all add: kr_say_def)

text \<open>The messages that the receiver still owns: those in the channel and those on their way to the DLQ.\<close>

definition owned :: "('v, 'msg, 'rd) kafka_receiver \<Rightarrow> 'msg multiset" where
  "owned r = mset (map km_Message (kr_retryChan r)) + mset (map (km_Message \<circ> snd) (kr_dlq r))"

text \<open>The invariant of the channel: bounded, and every message in it has been tried and may be again.\<close>

definition kr_ok :: "('v, 'msg, 'rd) kafka_receiver \<Rightarrow> bool" where
  "kr_ok r \<longleftrightarrow> length (kr_retryChan r) \<le> kr_chanCap r \<and>
     (\<forall>m \<in> set (kr_retryChan r). 1 \<le> km_TotalTries m \<and> km_TotalTries m \<le> kr_maxRetries r)"

lemma OnFail_retry:
  assumes "ctx_ok ctx"
  shows "\<exists>logs. OnFail lib ctx True (Some m) r =
    (if km_TotalTries m + 1 > kr_maxRetries r \<or> length (kr_retryChan r) \<ge> kr_chanCap r
     then r\<lparr>kr_dlq := kr_dlq r @ [(ctx, m)], kr_logs := logs\<rparr>
     else r\<lparr>kr_retryChan := kr_retryChan r @
              [m\<lparr>km_RetryAfter := kr_now r + kr_fixedBackoff r, km_TotalTries := km_TotalTries m + 1\<rparr>],
            kr_logs := logs\<rparr>, Returns None)"
  using assms
  by (cases r; cases m) (auto simp: OnFail_def sendToRetries_def go_sendToDLQ_def put_back_def Let_def
      bind_run_def ret_def NewRetriedMessage_def)

text \<open>
  A failed message that is to be retried goes to exactly one place. If it has used up its
  tries, or the channel is full, it goes to the dead-letter goroutine as it is; otherwise its
  retried version joins the end of the channel, with one more try and the backoff added to
  the current time. \<open>OnFail\<close> never blocks and returns no error.
\<close>

lemma OnFail_retry_routes:
  assumes "ctx_ok ctx"
  shows "\<exists>logs. OnFail lib ctx True (Some m) r =
    (if km_TotalTries m + 1 > kr_maxRetries r \<or> length (kr_retryChan r) \<ge> kr_chanCap r
     then r\<lparr>kr_dlq := kr_dlq r @ [(ctx, m)], kr_logs := logs\<rparr>
     else r\<lparr>kr_retryChan := kr_retryChan r @
              [m\<lparr>km_RetryAfter := kr_now r + kr_fixedBackoff r, km_TotalTries := km_TotalTries m + 1\<rparr>],
            kr_logs := logs\<rparr>, Returns None)"
  using assms by (rule OnFail_retry)

text \<open>
  A reader whose state is the list of the payloads it has yet to deliver, each the text of
  its value; \<open>reject\<close> decides which texts do not parse.
\<close>

definition list_lib :: "(string \<Rightarrow> bool) \<Rightarrow> (string, string, string list) kafka_lib" where
  "list_lib reject =
     \<lparr>kl_ReadMessage = (\<lambda>ctx ms. case ms of
        [] \<Rightarrow> ([], Inl (Ext ''context canceled'')) | m # ms \<Rightarrow> (ms, Inr m)),
      kl_CommitMessages = (\<lambda>ctx m ms. (ms, None)),
      kl_payload = id,
      kl_Unmarshal = (\<lambda>s. if reject s then Inl (Ext ''invalid character'') else Inr s),
      kl_show_message = id, kl_show_value = id, kl_show_time = itoa\<rparr>"

definition sample_receiver :: "(string, string, string list) kafka_receiver" where
  "sample_receiver = \<lparr>kr_reader = [''a'', ''b''], kr_maxRetries = 2, kr_retryChan = [], kr_chanCap = 1,
     kr_fixedBackoff = 5, kr_now = 100, kr_logs = [], kr_dlq = []\<rparr>"

lemma OnFail_retry_routes_witness:
  "\<exists>logs. OnFail (list_lib (\<lambda>_. False)) logged_ctx True (Some (NewFreshMessage ''a'' ''a'')) sample_receiver =
    (sample_receiver\<lparr>kr_retryChan := [\<lparr>km_Value = ''a'', km_Message = ''a'', km_RetryAfter = 105,
       km_TotalTries = 1\<rparr>], kr_logs := logs\<rparr>, Returns None)"
  using OnFail_retry_routes [OF logged_ctx_ok, of "list_lib (\<lambda>_. False)" "NewFreshMessage ''a'' ''a''"
      sample_receiver]
  by (simp add: sample_receiver_def NewFreshMessage_def)

section \<open>Conservation\<close>

lemma OnFail_ok:
  assumes "ctx_ok ctx" "kr_ok r" "0 \<le> km_TotalTries m"
  shows "\<exists>r'. OnFail lib ctx b (Some m) r = (r', Returns None) \<and> kr_ok r' \<and>
    owned r' = owned r + (if b then {#km_Message m#} else {#}) \<and>
    kr_maxRetries r' = kr_maxRetries r \<and> kr_chanCap r' = kr_chanCap r \<and> kr_reader r' = kr_reader r"
proof (cases b)
  case True
  from OnFail_retry [OF assms(1), of lib m r] obtain logs where
    "OnFail lib ctx True (Some m) r =
    (if km_TotalTries m + 1 > kr_maxRetries r \<or> length (kr_retryChan r) \<ge> kr_chanCap r
     then r\<lparr>kr_dlq := kr_dlq r @ [(ctx, m)], kr_logs := logs\<rparr>
     else r\<lparr>kr_retryChan := kr_retryChan r @
              [m\<lparr>km_RetryAfter := kr_now r + kr_fixedBackoff r, km_TotalTries := km_TotalTries m + 1\<rparr>],
            kr_logs := logs\<rparr>, Returns None)" by blast
  then show ?thesis using assms True by (auto simp: kr_ok_def owned_def)
next
  case False
  then show ?thesis using assms
    by (simp add: OnFail_def sendToDLQ_def bind_run_def ret_def kr_ok_def owned_def)
qed

lemma OnSuccess_ok:
  "kr_ok r \<Longrightarrow> \<exists>r' e. OnSuccess lib ctx (Some m) r = (r', Returns e) \<and> kr_ok r' \<and> owned r' = owned r"
  by (simp add: OnSuccess_def kr_ok_def owned_def split: prod.split)

lemma read_fresh_ok:
  assumes "kr_ok r"
  shows "\<exists>r' v m e. read_fresh lib zero ctx r = (r', Returns (v, m, e)) \<and> kr_ok r' \<and> owned r' = owned r \<and>
    (m = None \<longleftrightarrow> e \<noteq> None) \<and> (\<forall>x. m = Some x \<longrightarrow> km_TotalTries x = 0)"
proof (cases "kl_ReadMessage lib ctx (kr_reader r)")
  case (Pair rd res)
  then show ?thesis using assms
    by (cases res; cases "kl_Unmarshal lib (kl_payload lib (projr res))")
      (simp_all add: read_fresh_def ret_def kr_ok_def owned_def NewFreshMessage_def)
qed

lemma Consume_cases:
  assumes "kr_ok r"
  obtains (retried) m ms where "kr_retryChan r = m # ms" "km_RetryAfter m < kr_now r"
      "Consume lib zero ctx r = Some (r\<lparr>kr_retryChan := ms\<rparr>, Returns (km_Value m, Some m, None))"
  | (rotated) m ms where "kr_retryChan r = m # ms" "kr_now r \<le> km_RetryAfter m"
      "Consume lib zero ctx r = Some (read_fresh lib zero ctx (r\<lparr>kr_retryChan := ms @ [m]\<rparr>))"
      "kr_ok (r\<lparr>kr_retryChan := ms @ [m]\<rparr>)"
  | (fresh) "kr_retryChan r = []" "Consume lib zero ctx r = Some (read_fresh lib zero ctx r)"
proof (cases "kr_retryChan r")
  case Nil
  then show ?thesis using fresh by (simp add: Consume_def poll_def)
next
  case (Cons m ms)
  then have room: "length ms < kr_chanCap r" using assms by (simp add: kr_ok_def)
  show ?thesis
  proof (cases "km_RetryAfter m < kr_now r")
    case True
    then show ?thesis using retried Cons by (simp add: Consume_def poll_def After_def)
  next
    case False
    moreover have "kr_ok (r\<lparr>kr_retryChan := ms @ [m]\<rparr>)" using assms Cons by (auto simp: kr_ok_def)
    ultimately show ?thesis using rotated Cons room
      by (simp add: Consume_def poll_def After_def put_back_def)
  qed
qed

text \<open>
  What the messages in the channel may still cost: every one can be tried until its count
  reaches the maximum.
\<close>

definition tries_left :: "('v, 'msg, 'rd) kafka_receiver \<Rightarrow> int" where
  "tries_left r = (\<Sum>m \<leftarrow> kr_retryChan r. kr_maxRetries r + 1 - km_TotalTries m)"

lemma Consume_ok:
  assumes "kr_ok r"
  shows "\<exists>r' v m e. Consume lib zero ctx r = Some (r', Returns (v, m, e)) \<and> kr_ok r' \<and>
    (m = None \<longleftrightarrow> e \<noteq> None) \<and> (\<forall>x. m = Some x \<longrightarrow> 0 \<le> km_TotalTries x) \<and>
    owned r = owned r' + (case m of
        Some x \<Rightarrow> if 0 < km_TotalTries x then {#km_Message x#} else {#} | None \<Rightarrow> {#})"
  using assms
proof (cases rule: Consume_cases [of r lib zero ctx])
  case (retried m ms)
  then show ?thesis using assms by (auto simp: kr_ok_def owned_def)
next
  case (rotated m ms)
  obtain r' v x e where "read_fresh lib zero ctx (r\<lparr>kr_retryChan := ms @ [m]\<rparr>) = (r', Returns (v, x, e))"
    "kr_ok r'" "owned r' = owned (r\<lparr>kr_retryChan := ms @ [m]\<rparr>)"
    "x = None \<longleftrightarrow> e \<noteq> None" "\<forall>y. x = Some y \<longrightarrow> km_TotalTries y = 0"
    using read_fresh_ok [OF rotated(4), of lib zero ctx] by blast
  then show ?thesis using rotated by (auto simp: owned_def split: option.split)
next
  case fresh
  obtain r' v x e where "read_fresh lib zero ctx r = (r', Returns (v, x, e))" "kr_ok r'"
    "owned r' = owned r" "x = None \<longleftrightarrow> e \<noteq> None" "\<forall>y. x = Some y \<longrightarrow> km_TotalTries y = 0"
    using read_fresh_ok [OF assms, of lib zero ctx] by blast
  then show ?thesis using fresh by (auto split: option.split)
qed

section \<open>The receiver port\<close>

definition kafka_port ::
  "('v, 'msg, 'rd) kafka_lib \<Rightarrow> 'v \<Rightarrow>
   ('v, ('v, 'msg) kafka_message option, ('v, 'msg, 'rd) kafka_receiver) receiver_port" where
  "kafka_port lib zero =
     \<lparr>rp_Consume = Consume lib zero, rp_OnSuccess = OnSuccess lib, rp_OnFail = OnFail lib\<rparr>"

definition given_message :: "('v, 'msg) kafka_message option \<Rightarrow> bool" where
  "given_message m \<longleftrightarrow> (\<exists>x. m = Some x \<and> 0 \<le> km_TotalTries x)"

interpretation kafka: receiver_contract kr_ok given_message "kafka_port lib zero"
  for lib :: "('v, 'msg, 'rd) kafka_lib" and zero
proof unfold_locales
  fix r :: "('v, 'msg, 'rd) kafka_receiver" and ctx :: go_context
  assume "kr_ok r" "ctx_ok ctx"
  then show "\<exists>r' v m e. rp_Consume (kafka_port lib zero) ctx r = Some (r', Returns (v, m, e)) \<and>
      kr_ok r' \<and> (e = None \<longrightarrow> given_message m)"
    using Consume_ok [of r lib zero ctx] unfolding kafka_port_def given_message_def
    by (force simp del: not_None_eq)
next
  fix r :: "('v, 'msg, 'rd) kafka_receiver" and ctx :: go_context
    and m :: "('v, 'msg) kafka_message option" and b
  assume a: "kr_ok r" "ctx_ok ctx" "given_message m"
  then show "\<exists>r' e. rp_OnSuccess (kafka_port lib zero) ctx m r = (r', Returns e) \<and> kr_ok r'"
    using OnSuccess_ok [of r lib ctx] by (fastforce simp: kafka_port_def given_message_def)
  show "\<exists>r' e. rp_OnFail (kafka_port lib zero) ctx b m r = (r', Returns e) \<and> kr_ok r'"
    using a OnFail_ok [of ctx r] by (fastforce simp: kafka_port_def given_message_def)
qed


lemma sample_receiver_ok: "kr_ok sample_receiver"
  by (simp add: kr_ok_def sample_receiver_def)


section \<open>A message that always fails\<close>

text \<open>
  One more attempt at processing, after the backoff: a message is consumed and processing it
  fails.
\<close>

definition failed_attempt ::
  "('v, 'msg, 'rd) kafka_lib \<Rightarrow> 'v \<Rightarrow> go_context \<Rightarrow> ('v, 'msg, 'rd) kafka_receiver \<Rightarrow>
   ('v, 'msg, 'rd) kafka_receiver" where
  "failed_attempt lib zero ctx r =
     (case Consume lib zero ctx (r\<lparr>kr_now := kr_now r + kr_fixedBackoff r + 1\<rparr>) of
        Some (r', Returns (v, m, None)) \<Rightarrow> fst (OnFail lib ctx True m r')
      | Some (r', _) \<Rightarrow> r'
      | None \<Rightarrow> r)"

definition tried :: "go_time \<Rightarrow> 'msg \<Rightarrow> 'v \<Rightarrow> nat \<Rightarrow> ('v, 'msg) kafka_message" where
  "tried t msg v k = \<lparr>km_Value = v, km_Message = msg, km_RetryAfter = t, km_TotalTries = int k\<rparr>"

lemma failed_attempt_retried:
  fixes r :: "('v, 'msg, 'rd) kafka_receiver" and lib :: "('v, 'msg, 'rd) kafka_lib" and zero :: 'v
  assumes "ctx_ok ctx" "kr_retryChan r = [tried (kr_now r + kr_fixedBackoff r) msg v k]" "0 < kr_chanCap r"
  defines "r' \<equiv> failed_attempt lib zero ctx r"
  shows "kr_retryChan r' =
      (if int k < kr_maxRetries r then [tried (kr_now r' + kr_fixedBackoff r') msg v (Suc k)] else [])"
    and "kr_dlq r' = kr_dlq r @ (if int k < kr_maxRetries r then []
      else [(ctx, tried (kr_now r + kr_fixedBackoff r) msg v k)])"
    and "kr_maxRetries r' = kr_maxRetries r" "kr_chanCap r' = kr_chanCap r" "kr_reader r' = kr_reader r"
proof -
  let ?m = "tried (kr_now r + kr_fixedBackoff r) msg v k"
  let ?r = "r\<lparr>kr_now := kr_now r + kr_fixedBackoff r + 1, kr_retryChan := []\<rparr>"
  have "Consume lib zero ctx (r\<lparr>kr_now := kr_now r + kr_fixedBackoff r + 1\<rparr>) = Some (?r, Returns (v, Some ?m, None))"
    using assms by (simp add: Consume_def poll_def After_def tried_def)
  then have "r' = fst (OnFail lib ctx True (Some ?m) ?r)"
    by (simp add: failed_attempt_def r'_def)
  moreover obtain logs where "OnFail lib ctx True (Some ?m) ?r =
    (if km_TotalTries ?m + 1 > kr_maxRetries ?r \<or> length (kr_retryChan ?r) \<ge> kr_chanCap ?r
     then ?r\<lparr>kr_dlq := kr_dlq ?r @ [(ctx, ?m)], kr_logs := logs\<rparr>
     else ?r\<lparr>kr_retryChan := kr_retryChan ?r @
              [?m\<lparr>km_RetryAfter := kr_now ?r + kr_fixedBackoff ?r, km_TotalTries := km_TotalTries ?m + 1\<rparr>],
            kr_logs := logs\<rparr>, Returns None)"
    using OnFail_retry [OF assms(1), of lib ?m ?r] by blast
  ultimately have "r' =
    (if int k < kr_maxRetries r
     then ?r\<lparr>kr_retryChan := [tried (kr_now ?r + kr_fixedBackoff r) msg v (Suc k)], kr_logs := logs\<rparr>
     else ?r\<lparr>kr_dlq := kr_dlq r @ [(ctx, ?m)], kr_logs := logs\<rparr>)"
    using assms(3) by (simp add: tried_def add.commute)
  then show "kr_retryChan r' =
      (if int k < kr_maxRetries r then [tried (kr_now r' + kr_fixedBackoff r') msg v (Suc k)] else [])"
    "kr_dlq r' = kr_dlq r @ (if int k < kr_maxRetries r then [] else [(ctx, ?m)])"
    "kr_maxRetries r' = kr_maxRetries r" "kr_chanCap r' = kr_chanCap r" "kr_reader r' = kr_reader r"
    by simp_all
qed

lemma failed_attempts:
  fixes r :: "('v, 'msg, 'rd) kafka_receiver" and lib :: "('v, 'msg, 'rd) kafka_lib" and zero :: 'v
  assumes "ctx_ok ctx" "0 < kr_chanCap r" "int k < kr_maxRetries r"
    and "kr_retryChan r = [tried (kr_now r + kr_fixedBackoff r) msg v (Suc 0)]"
  defines "r' \<equiv> (failed_attempt lib zero ctx ^^ k) r"
  shows "kr_retryChan r' = [tried (kr_now r' + kr_fixedBackoff r') msg v (Suc k)] \<and> kr_dlq r' = kr_dlq r \<and>
    kr_maxRetries r' = kr_maxRetries r \<and> kr_chanCap r' = kr_chanCap r \<and> kr_reader r' = kr_reader r"
  using assms(3) unfolding r'_def
proof (induction k)
  case 0
  then show ?case using assms(4) by simp
next
  case (Suc k)
  let ?r = "(failed_attempt lib zero ctx ^^ k) r"
  have "int k < kr_maxRetries r" using Suc.prems by simp
  note ih = Suc.IH [OF this]
  then have c: "kr_retryChan ?r = [tried (kr_now ?r + kr_fixedBackoff ?r) msg v (Suc k)]" "0 < kr_chanCap ?r"
    "int (Suc k) < kr_maxRetries ?r"
    using assms(2) Suc.prems by auto
  show ?case using failed_attempt_retried [OF assms(1) c(1,2), of lib zero] c(3) ih by simp
qed

text \<open>
  C12: A message whose processing always fails is processed exactly \<open>maxRetries + 1\<close>
  times and then handed to the dead-letter goroutine, after which it is no longer in the
  retry channel and was read from Kafka once. (The receiver starts with an empty channel of
  capacity at least one, and every attempt is made after the backoff.)
\<close>

theorem failing_message_reaches_dlq:
  fixes r :: "('v, 'msg, 'rd) kafka_receiver" and lib :: "('v, 'msg, 'rd) kafka_lib" and zero :: 'v
  assumes ctx: "ctx_ok ctx" and empty: "kr_retryChan r = []" "0 < kr_chanCap r" and max: "0 \<le> kr_maxRetries r"
    and read: "kl_ReadMessage lib ctx (kr_reader r) = (rd, Inr msg)"
    and parse: "kl_Unmarshal lib (kl_payload lib msg) = Inr v"
  shows "(\<forall>k. 0 < k \<and> int k \<le> kr_maxRetries r \<longrightarrow>
      (let r' = (failed_attempt lib zero ctx ^^ k) r in
       map km_TotalTries (kr_retryChan r') = [int k] \<and> map km_Message (kr_retryChan r') = [msg] \<and>
       kr_dlq r' = kr_dlq r \<and> kr_reader r' = rd)) \<and>
    (let r' = (failed_attempt lib zero ctx ^^ Suc (nat (kr_maxRetries r))) r in
     kr_retryChan r' = [] \<and> map (km_Message \<circ> snd) (kr_dlq r') = map (km_Message \<circ> snd) (kr_dlq r) @ [msg] \<and>
     kr_reader r' = rd)"
proof -
  let ?f = "failed_attempt lib zero ctx"
  let ?r0 = "r\<lparr>kr_now := kr_now r + kr_fixedBackoff r + 1, kr_reader := rd\<rparr>"
  obtain m where m: "m = NewFreshMessage msg v" by blast
  have "Consume lib zero ctx (r\<lparr>kr_now := kr_now r + kr_fixedBackoff r + 1\<rparr>) = Some (?r0, Returns (v, Some m, None))"
    using empty read parse by (simp add: Consume_def poll_def read_fresh_def ret_def m)
  then have f1: "?f r = fst (OnFail lib ctx True (Some m) ?r0)" by (simp add: failed_attempt_def)
  obtain logs where l: "OnFail lib ctx True (Some m) ?r0 =
    (if km_TotalTries m + 1 > kr_maxRetries ?r0 \<or> length (kr_retryChan ?r0) \<ge> kr_chanCap ?r0
     then ?r0\<lparr>kr_dlq := kr_dlq ?r0 @ [(ctx, m)], kr_logs := logs\<rparr>
     else ?r0\<lparr>kr_retryChan := kr_retryChan ?r0 @
              [m\<lparr>km_RetryAfter := kr_now ?r0 + kr_fixedBackoff ?r0, km_TotalTries := km_TotalTries m + 1\<rparr>],
            kr_logs := logs\<rparr>, Returns None)"
    using OnFail_retry [OF ctx, of lib m ?r0] by blast
  show ?thesis
  proof (cases "kr_maxRetries r = 0")
    case True
    then have "?f r = ?r0\<lparr>kr_dlq := kr_dlq r @ [(ctx, m)], kr_logs := logs\<rparr>"
      using f1 l m by (simp add: NewFreshMessage_def)
    then show ?thesis using True empty m by (auto simp: Let_def NewFreshMessage_def)
  next
    case False
    then have e: "?f r = ?r0\<lparr>kr_retryChan := [tried (kr_now ?r0 + kr_fixedBackoff r) msg v (Suc 0)], kr_logs := logs\<rparr>"
      using f1 l m max empty by (simp add: NewFreshMessage_def tried_def)
    have step: "kr_retryChan ((?f ^^ k) (?f r)) =
          [tried (kr_now ((?f ^^ k) (?f r)) + kr_fixedBackoff ((?f ^^ k) (?f r))) msg v (Suc k)] \<and>
        kr_dlq ((?f ^^ k) (?f r)) = kr_dlq r \<and> kr_maxRetries ((?f ^^ k) (?f r)) = kr_maxRetries r \<and>
        kr_chanCap ((?f ^^ k) (?f r)) = kr_chanCap r \<and> kr_reader ((?f ^^ k) (?f r)) = rd"
      if "int k < kr_maxRetries r" for k
      using failed_attempts [OF ctx, of "?f r" k msg v lib zero] that e empty by simp
    have "(let r' = (?f ^^ k) r in map km_TotalTries (kr_retryChan r') = [int k] \<and>
        map km_Message (kr_retryChan r') = [msg] \<and> kr_dlq r' = kr_dlq r \<and> kr_reader r' = rd)"
      if "0 < k" "int k \<le> kr_maxRetries r" for k
      using step [of "k - 1"] that by (cases k) (simp_all add: funpow_Suc_right Let_def tried_def del: funpow.simps)
    moreover
    let ?n = "nat (kr_maxRetries r) - 1"
    let ?rn = "(?f ^^ ?n) (?f r)"
    have n: "int ?n < kr_maxRetries r" "Suc ?n = nat (kr_maxRetries r)" using False max by auto
    note s = step [OF n(1)]
    then have c: "kr_retryChan ?rn = [tried (kr_now ?rn + kr_fixedBackoff ?rn) msg v (Suc ?n)]" "0 < kr_chanCap ?rn"
      using empty by auto
    have "(?f ^^ Suc (nat (kr_maxRetries r))) r = ?f ?rn"
      using n(2) by (metis funpow.simps(2) funpow_swap1 o_apply)
    moreover have "\<not> int (Suc ?n) < kr_maxRetries ?rn" using s n(2) max by auto
    ultimately show ?thesis
      using failed_attempt_retried [OF ctx c, of lib zero] s by (simp add: Let_def tried_def)
  qed
qed

theorem failing_message_reaches_dlq_witness:
  "map (km_Message \<circ> snd) (kr_dlq ((failed_attempt (list_lib (\<lambda>_. False)) [] logged_ctx ^^ 3) sample_receiver)) =
    [''a'']"
proof -
  have "kl_ReadMessage (list_lib (\<lambda>_. False)) logged_ctx (kr_reader sample_receiver) = ([''b''], Inr ''a'')"
    "kl_Unmarshal (list_lib (\<lambda>_. False)) (kl_payload (list_lib (\<lambda>_. False)) ''a'') = Inr ''a''"
    "nat (kr_maxRetries sample_receiver) = 2" "kr_dlq sample_receiver = []" "kr_retryChan sample_receiver = []"
    "0 < kr_chanCap sample_receiver" "0 \<le> kr_maxRetries sample_receiver"
    by (simp_all add: list_lib_def sample_receiver_def)
  then show ?thesis
    using failing_message_reaches_dlq [OF logged_ctx_ok, of sample_receiver "list_lib (\<lambda>_. False)" "[''b'']"
        "''a''" "''a''" "[]"]
    by (simp add: Let_def numeral_3_eq_3 numeral_2_eq_2)
qed

section \<open>Other goroutines between the steps of Consume\<close>

text \<open>
  Where the one goroutine that consumes is: before \<open>Consume\<close>, holding a message that is
  not due yet and about to send it back, or about to read from Kafka.
\<close>

datatype ('v, 'msg) consumer = AtLoop | Holding "('v, 'msg) kafka_message" | AtRead

text \<open>
  One step of the process: a step of the consumer, or a whole \<open>OnFail\<close> or
  \<open>OnSuccess\<close> of a goroutine that processes a message, or the passing of time.
\<close>

inductive rx_step ::
  "('v, 'msg, 'rd) kafka_lib \<Rightarrow> go_context \<Rightarrow>
   ('v, 'msg, 'rd) kafka_receiver \<times> ('v, 'msg) consumer \<Rightarrow>
   ('v, 'msg, 'rd) kafka_receiver \<times> ('v, 'msg) consumer \<Rightarrow> bool"
  for lib ctx where
  poll_none: "poll r = (r', None) \<Longrightarrow> rx_step lib ctx (r, AtLoop) (r', AtRead)"
| poll_due: "poll r = (r', Some m) \<Longrightarrow> After (kr_now r) (km_RetryAfter m) \<Longrightarrow>
    rx_step lib ctx (r, AtLoop) (r', AtLoop)"
| poll_early: "poll r = (r', Some m) \<Longrightarrow> \<not> After (kr_now r) (km_RetryAfter m) \<Longrightarrow>
    rx_step lib ctx (r, AtLoop) (r', Holding m)"
| send_back: "put_back m r = Some r' \<Longrightarrow> rx_step lib ctx (r, Holding m) (r', AtRead)"
| read: "read_fresh lib zero ctx r = (r', res) \<Longrightarrow> rx_step lib ctx (r, AtRead) (r', AtLoop)"
| fail: "OnFail lib ctx b (Some m) r = (r', res') \<Longrightarrow> rx_step lib ctx (r, c) (r', c)"
| success: "OnSuccess lib ctx (Some m) r = (r', res') \<Longrightarrow> rx_step lib ctx (r, c) (r', c)"
| tick: "kr_now r \<le> t \<Longrightarrow> rx_step lib ctx (r, c) (r\<lparr>kr_now := t\<rparr>, c)"

inductive_cases rx_step_holdingE: "rx_step lib ctx (r, Holding m) s'"

text \<open>The channel is full and the only goroutine that receives from it waits to send.\<close>

definition rx_stuck :: "('v, 'msg, 'rd) kafka_receiver \<times> ('v, 'msg) consumer \<Rightarrow> ('v, 'msg) kafka_message \<Rightarrow> bool" where
  "rx_stuck s m \<longleftrightarrow> snd s = Holding m \<and> kr_chanCap (fst s) \<le> length (kr_retryChan (fst s))"

lemma OnFail_full:
  assumes "OnFail lib ctx b (Some m) r = (r', res)" "kr_chanCap r \<le> length (kr_retryChan r)"
  shows "kr_chanCap r' \<le> length (kr_retryChan r')"
  using assms by (auto simp: OnFail_def sendToRetries_def sendToDLQ_def go_sendToDLQ_def put_back_def Let_def
      bind_run_def ret_def kr_say_def split: if_splits outcome.splits)

lemma rx_stuck_step:
  assumes "rx_step lib ctx s s'" "rx_stuck s m"
  shows "rx_stuck s' m"
proof -
  obtain r where s: "s = (r, Holding m)" "kr_chanCap r \<le> length (kr_retryChan r)"
    using assms(2) by (cases s) (auto simp: rx_stuck_def)
  from assms(1) show ?thesis
    unfolding s(1) using s(2)
    by (cases rule: rx_step_holdingE)
      (auto simp: rx_stuck_def put_back_def OnSuccess_def dest: OnFail_full split: prod.splits)
qed

lemma rx_stuck_forever: "(rx_step lib ctx)\<^sup>*\<^sup>* s s' \<Longrightarrow> rx_stuck s m \<Longrightarrow> rx_stuck s' m"
  by (induction rule: rtranclp_induct) (auto intro: rx_stuck_step)

text \<open>
  C28: The send that puts a message back can block the consumer for good. From every state in
  which the retry channel is full and its first message is not due, one failure of another
  message that still has tries left, between the receive and the send, leads to a state after
  which, whatever else happens, the consumer never leaves that send: no message is consumed
  any more.
\<close>

theorem Consume_can_block_forever:
  fixes r :: "('v, 'msg, 'rd) kafka_receiver" and x m :: "('v, 'msg) kafka_message"
  assumes "ctx_ok ctx" "kr_retryChan r = m # ms" "length (m # ms) = kr_chanCap r"
    and "kr_now r \<le> km_RetryAfter m" "km_TotalTries x < kr_maxRetries r"
  shows "\<exists>s. (rx_step lib ctx)\<^sup>*\<^sup>* (r, AtLoop) s \<and>
    (\<forall>s'. (rx_step lib ctx)\<^sup>*\<^sup>* s s' \<longrightarrow> snd s' = Holding m)"
proof -
  let ?r1 = "r\<lparr>kr_retryChan := ms\<rparr>"
  have one: "rx_step lib ctx (r, AtLoop) (?r1, Holding m)"
    using assms by (intro rx_step.poll_early) (simp_all add: poll_def After_def)
  obtain r2 where r2: "OnFail lib ctx True (Some x) ?r1 = (r2, Returns None)"
    "length (kr_retryChan r2) = kr_chanCap r2"
    using OnFail_retry [OF assms(1), of lib x ?r1] assms(3,5) by auto
  then have two: "rx_step lib ctx (?r1, Holding m) (r2, Holding m)"
    by (intro rx_step.fail)
  have "rx_stuck (r2, Holding m) m" using r2 by (simp add: rx_stuck_def)
  then have "\<forall>s'. (rx_step lib ctx)\<^sup>*\<^sup>* (r2, Holding m) s' \<longrightarrow> snd s' = Holding m"
    using rx_stuck_forever [of lib ctx] by (fastforce simp: rx_stuck_def)
  moreover have "(rx_step lib ctx)\<^sup>*\<^sup>* (r, AtLoop) (r2, Holding m)"
    using one two by (meson converse_rtranclp_into_rtranclp rtranclp.rtrancl_refl)
  ultimately show ?thesis by blast
qed

definition waiting_receiver :: "(string, string, string list) kafka_receiver" where
  "waiting_receiver = sample_receiver\<lparr>kr_retryChan := [tried 105 ''a'' ''a'' 1]\<rparr>"

theorem Consume_can_block_forever_witness:
  "\<exists>s. (rx_step (list_lib (\<lambda>_. False)) logged_ctx)\<^sup>*\<^sup>* (waiting_receiver, AtLoop) s \<and>
    (\<forall>s'. (rx_step (list_lib (\<lambda>_. False)) logged_ctx)\<^sup>*\<^sup>* s s' \<longrightarrow> snd s' = Holding (tried 105 ''a'' ''a'' 1))"
  by (rule Consume_can_block_forever [OF logged_ctx_ok, of _ _ "[]" "NewFreshMessage ''b'' ''b''"])
    (simp_all add: waiting_receiver_def sample_receiver_def tried_def NewFreshMessage_def)

end
