(* ===== verification/Validators.thy ===== *)
theory Validators
  imports Models
begin

text \<open>
  The order validation of \<open>internal/validators/validate_order.go\<close>, check by check in
  the order of the code, with the texts of its errors. \<open>strings.TrimSpace\<close> is modelled
  on UTF-8 bytes. Two things come from outside: \<open>now\<close> is the value of
  \<open>time.Now()\<close> and \<open>parse_address\<close> is \<open>mail.ParseAddress\<close>, of which
  the code uses whether it returns an error. \<open>order_valid\<close> is the rule set of
  \<open>docs/validation.md\<close>, to which the validator is shown equivalent.
\<close>

section \<open>TrimSpace\<close>

text \<open>
  The UTF-8 encodings of the runes for which \<open>unicode.IsSpace\<close> holds.
\<close>

abbreviation byte :: "nat \<Rightarrow> char" where
  "byte n \<equiv> char_of n"

definition space_runes :: "string list" where
  "space_runes =
     [[byte 9], [byte 10], [byte 11], [byte 12], [byte 13], [byte 32],
      [byte 0xC2, byte 0x85], [byte 0xC2, byte 0xA0], [byte 0xE1, byte 0x9A, byte 0x80]]
     @ map (\<lambda>b. [byte 0xE2, byte 0x80, byte b]) [0x80..<0x8B]
     @ [[byte 0xE2, byte 0x80, byte 0xA8], [byte 0xE2, byte 0x80, byte 0xA9],
        [byte 0xE2, byte 0x80, byte 0xAF], [byte 0xE2, byte 0x81, byte 0x9F],
        [byte 0xE3, byte 0x80, byte 0x80]]"

text \<open>The width of the space rune at the front of a string, 0 when there is none.\<close>

definition prefix_width :: "string list \<Rightarrow> string \<Rightarrow> nat" where
  "prefix_width runes s =
     (case filter (\<lambda>r. take (length r) s = r) runes of [] \<Rightarrow> 0 | r # _ \<Rightarrow> length r)"

lemma prefix_width_pos: "[] \<notin> set runes \<Longrightarrow> prefix_width runes s \<noteq> 0 \<Longrightarrow> s \<noteq> []"
  by (auto simp: prefix_width_def filter_eq_Cons_iff split: list.splits)

function trim_front :: "string list \<Rightarrow> string \<Rightarrow> string" where
  "trim_front runes s =
     (if s = [] \<or> prefix_width runes s = 0 then s
      else trim_front runes (drop (prefix_width runes s) s))"
  by pat_completeness auto
termination
  by (relation "measure (\<lambda>(runes, s). length s)") auto

declare trim_front.simps [simp del]

text \<open>
  \<open>strings.TrimSpace\<close>: the front first, then the back, where a rune is met with its
  bytes reversed.
\<close>

definition TrimSpace :: "string \<Rightarrow> string" where
  "TrimSpace s = rev (trim_front (map rev space_runes) (rev (trim_front space_runes s)))"

section \<open>The validator\<close>

abbreviation required :: "string \<Rightarrow> go_error" where
  "required name \<equiv> Errorf (name @ '' is required'')"

abbreviation blank :: "string \<Rightarrow> bool" where
  "blank s \<equiv> TrimSpace s = []"

definition validateOrderMain :: "go_time \<Rightarrow> order \<Rightarrow> go_error option" where
  "validateOrderMain now order =
     (if ord_OrderUID order = [] then Some (required ''order_uid'')
      else if blank (ord_TrackNumber order) then Some (required ''track_number'')
      else if blank (ord_Entry order) then Some (required ''entry'')
      else if blank (ord_Locale order) then Some (required ''locale'')
      else if blank (ord_CustomerID order) then Some (required ''customer_id'')
      else if blank (ord_DeliveryService order) then Some (required ''delivery_service'')
      else if blank (ord_ShardKey order) then Some (required ''shardkey'')
      else if sint (ord_SmID order) < 0 then Some (Errorf ''sm_id must be non-negative'')
      else if IsZero (ord_DateCreated order) then Some (required ''date_created'')
      else if After (ord_DateCreated order) now
        then Some (Errorf ''date_created cannot be in the future'')
      else if blank (ord_OofShard order) then Some (required ''oof_shard'')
      else None)"

definition isValidEmail :: "(string \<Rightarrow> go_error option) \<Rightarrow> string \<Rightarrow> bool" where
  "isValidEmail parse_address email \<longleftrightarrow> parse_address email = None"

definition validateDelivery ::
  "(string \<Rightarrow> go_error option) \<Rightarrow> delivery \<Rightarrow> go_error option" where
  "validateDelivery parse_address delivery =
     (if blank (dlv_Name delivery) then Some (required ''name'')
      else if blank (dlv_Phone delivery) then Some (required ''phone'')
      else if blank (dlv_Zip delivery) then Some (required ''zip'')
      else if blank (dlv_City delivery) then Some (required ''city'')
      else if blank (dlv_Address delivery) then Some (required ''address'')
      else if blank (dlv_Region delivery) then Some (required ''region'')
      else if blank (dlv_Email delivery) then Some (required ''email'')
      else if \<not> isValidEmail parse_address (dlv_Email delivery)
        then Some (Errorf ''email has invalid format'')
      else None)"

definition validatePayment :: "payment \<Rightarrow> go_error option" where
  "validatePayment payment =
     (if blank (pay_Transaction payment) then Some (required ''transaction'')
      else if blank (pay_Currency payment) then Some (required ''currency'')
      else if blank (pay_Provider payment) then Some (required ''provider'')
      else if sint (pay_Amount payment) < 0 then Some (Errorf ''amount must be non-negative'')
      else if sint (pay_PaymentDt payment) \<le> 0 then Some (Errorf ''payment_dt must be positive'')
      else if blank (pay_Bank payment) then Some (required ''bank'')
      else if sint (pay_DeliveryCost payment) < 0
        then Some (Errorf ''delivery_cost must be non-negative'')
      else if sint (pay_GoodsTotal payment) < 0
        then Some (Errorf ''goods_total must be non-negative'')
      else if sint (pay_CustomFee payment) < 0
        then Some (Errorf ''custom_fee must be non-negative'')
      else None)"

definition validateItem :: "order_item \<Rightarrow> go_error option" where
  "validateItem item =
     (if sint (itm_ChrtID item) \<le> 0 then Some (Errorf ''chrt_id must be positive'')
      else if blank (itm_TrackNumber item) then Some (required ''track_number'')
      else if sint (itm_Price item) < 0 then Some (Errorf ''price must be non-negative'')
      else if blank (itm_RID item) then Some (required ''rid'')
      else if blank (itm_Name item) then Some (required ''name'')
      else if sint (itm_Sale item) < 0 \<or> sint (itm_Sale item) > 100
        then Some (Errorf ''sale must be between 0 and 100'')
      else if blank (itm_Size item) then Some (required ''size'')
      else if sint (itm_TotalPrice item) < 0
        then Some (Errorf ''total_price must be non-negative'')
      else if sint (itm_NmID item) \<le> 0 then Some (Errorf ''nm_id must be positive'')
      else if blank (itm_Brand item) then Some (required ''brand'')
      else if sint (itm_Status item) < 0 then Some (Errorf ''status must be non-negative'')
      else None)"

text \<open>The loop over the items, with its index.\<close>

primrec validateItemsLoop :: "nat \<Rightarrow> order_item list \<Rightarrow> go_error option" where
  "validateItemsLoop i [] = None"
| "validateItemsLoop i (item # items) =
     (case validateItem item of
        Some err \<Rightarrow> Some (Wrap (''item '' @ itoa (int i) @ '': '') err [])
      | None \<Rightarrow> validateItemsLoop (Suc i) items)"

definition validateItems :: "order_item list \<Rightarrow> go_error option" where
  "validateItems items =
     (if length items = 0 then Some (Errorf ''at least one item is required'')
      else validateItemsLoop 0 items)"

definition ValidateOrder ::
  "(string \<Rightarrow> go_error option) \<Rightarrow> go_time \<Rightarrow> order \<Rightarrow> go_error option" where
  "ValidateOrder parse_address now order =
     (case validateOrderMain now order of
        Some err \<Rightarrow> Some err
      | None \<Rightarrow>
     (case validateDelivery parse_address (ord_Delivery order) of
        Some err \<Rightarrow> Some (Wrap ''delivery validation failed: '' err [])
      | None \<Rightarrow>
     (case validatePayment (ord_Payment order) of
        Some err \<Rightarrow> Some (Wrap ''payment validation failed: '' err [])
      | None \<Rightarrow>
     (case validateItems (ord_Items order) of
        Some err \<Rightarrow> Some (Wrap ''items validation failed: '' err [])
      | None \<Rightarrow> None))))"

section \<open>The documented rules\<close>

definition main_valid :: "go_time \<Rightarrow> order \<Rightarrow> bool" where
  "main_valid now order \<longleftrightarrow>
     ord_OrderUID order \<noteq> [] \<and>
     (\<forall>s \<in> {ord_TrackNumber order, ord_Entry order, ord_Locale order, ord_CustomerID order,
            ord_DeliveryService order, ord_ShardKey order, ord_OofShard order}. \<not> blank s) \<and>
     0 \<le> sint (ord_SmID order) \<and> ord_DateCreated order \<noteq> 0 \<and> ord_DateCreated order \<le> now"

definition delivery_valid :: "(string \<Rightarrow> go_error option) \<Rightarrow> delivery \<Rightarrow> bool" where
  "delivery_valid parse_address d \<longleftrightarrow>
     (\<forall>s \<in> {dlv_Name d, dlv_Phone d, dlv_Zip d, dlv_City d, dlv_Address d, dlv_Region d,
            dlv_Email d}. \<not> blank s) \<and>
     parse_address (dlv_Email d) = None"

definition payment_valid :: "payment \<Rightarrow> bool" where
  "payment_valid p \<longleftrightarrow>
     (\<forall>s \<in> {pay_Transaction p, pay_Currency p, pay_Provider p, pay_Bank p}. \<not> blank s) \<and>
     (\<forall>n \<in> {pay_Amount p, pay_DeliveryCost p, pay_GoodsTotal p, pay_CustomFee p}. 0 \<le> sint n) \<and>
     0 < sint (pay_PaymentDt p)"

definition item_valid :: "order_item \<Rightarrow> bool" where
  "item_valid it \<longleftrightarrow>
     (\<forall>s \<in> {itm_TrackNumber it, itm_RID it, itm_Name it, itm_Size it, itm_Brand it}. \<not> blank s) \<and>
     (\<forall>n \<in> {itm_ChrtID it, itm_NmID it}. 0 < sint n) \<and>
     (\<forall>n \<in> {itm_Price it, itm_TotalPrice it, itm_Status it}. 0 \<le> sint n) \<and>
     sint (itm_Sale it) \<in> {0..100}"

definition order_valid :: "(string \<Rightarrow> go_error option) \<Rightarrow> go_time \<Rightarrow> order \<Rightarrow> bool" where
  "order_valid parse_address now order \<longleftrightarrow>
     main_valid now order \<and> delivery_valid parse_address (ord_Delivery order) \<and>
     payment_valid (ord_Payment order) \<and>
     ord_Items order \<noteq> [] \<and> (\<forall>it \<in> set (ord_Items order). item_valid it)"

lemma validateOrderMain_None: "validateOrderMain now order = None \<longleftrightarrow> main_valid now order"
  by (auto simp: validateOrderMain_def main_valid_def IsZero_def After_def)

lemma validateDelivery_None:
  "validateDelivery parse_address d = None \<longleftrightarrow> delivery_valid parse_address d"
  by (auto simp: validateDelivery_def delivery_valid_def isValidEmail_def)

lemma validatePayment_None: "validatePayment p = None \<longleftrightarrow> payment_valid p"
  by (auto simp: validatePayment_def payment_valid_def)

lemma validateItem_None: "validateItem it = None \<longleftrightarrow> item_valid it"
  by (auto simp: validateItem_def item_valid_def)

lemma validateItemsLoop_None:
  "validateItemsLoop i items = None \<longleftrightarrow> (\<forall>it \<in> set items. item_valid it)"
  by (induction items arbitrary: i) (auto simp flip: validateItem_None split: option.splits)

lemma validateItems_None:
  "validateItems items = None \<longleftrightarrow> items \<noteq> [] \<and> (\<forall>it \<in> set items. item_valid it)"
  by (cases items) (simp_all add: validateItems_def validateItemsLoop_None del: validateItemsLoop.simps)

lemma ValidateOrder_None:
  "ValidateOrder parse_address now order = None \<longleftrightarrow>
     validateOrderMain now order = None \<and>
     validateDelivery parse_address (ord_Delivery order) = None \<and>
     validatePayment (ord_Payment order) = None \<and> validateItems (ord_Items order) = None"
  by (simp add: ValidateOrder_def split: option.split)

lemma order_valid_iff:
  "order_valid parse_address now order \<longleftrightarrow> ValidateOrder parse_address now order = None"
  by (simp add: ValidateOrder_None order_valid_def validateOrderMain_None validateDelivery_None
      validatePayment_None validateItems_None)


section \<open>The error names the first bad item\<close>

lemma validateItemsLoop_Some:
  assumes "validateItemsLoop i items = Some err"
  shows "\<exists>pre it post e. items = pre @ it # post \<and> validateItem it = Some e \<and>
    (\<forall>x \<in> set pre. item_valid x) \<and>
    err = Wrap (''item '' @ itoa (int (i + length pre)) @ '': '') e []"
  using assms
proof (induction items arbitrary: i)
  case (Cons it items)
  show ?case
  proof (cases "validateItem it")
    case None
    then have "validateItemsLoop (Suc i) items = Some err" using Cons.prems by simp
    from Cons.IH [OF this] obtain pre x post e
      where "items = pre @ x # post" "validateItem x = Some e" "\<forall>x \<in> set pre. item_valid x"
        "err = Wrap (''item '' @ itoa (int (Suc i + length pre)) @ '': '') e []"
      by blast
    moreover have "item_valid it" using None by (simp add: validateItem_None)
    ultimately show ?thesis
      by (intro exI [of _ "it # pre"] exI [of _ x] exI [of _ post] exI [of _ e]) simp
  next
    case (Some e)
    then show ?thesis using Cons.prems
      by (intro exI [of _ "[]"] exI [of _ it] exI [of _ items] exI [of _ e]) simp
  qed
qed simp

text \<open>
  When everything before the items is valid and some item is not, the error returned
  is that of the first invalid item, wrapped with its index.
\<close>

lemma ValidateOrder_names_first_bad_item:
  assumes "main_valid now order" "delivery_valid parse_address (ord_Delivery order)"
    and "payment_valid (ord_Payment order)"
    and "ord_Items order \<noteq> []" "\<exists>it \<in> set (ord_Items order). \<not> item_valid it"
  shows "\<exists>pre it post e. ord_Items order = pre @ it # post \<and> (\<forall>x \<in> set pre. item_valid x) \<and>
    validateItem it = Some e \<and>
    ValidateOrder parse_address now order =
      Some (Wrap ''items validation failed: ''
        (Wrap (''item '' @ itoa (int (length pre)) @ '': '') e []) [])"
proof -
  have "validateItemsLoop 0 (ord_Items order) \<noteq> None"
    using assms(5) by (auto simp: validateItemsLoop_None)
  then obtain err where err: "validateItemsLoop 0 (ord_Items order) = Some err" by auto
  have "ValidateOrder parse_address now order = Some (Wrap ''items validation failed: '' err [])"
    using assms err by (simp add: ValidateOrder_def validateItems_def validateOrderMain_None
        validateDelivery_None validatePayment_None flip: validateOrderMain_None
        validateDelivery_None validatePayment_None)
  then show ?thesis using validateItemsLoop_Some [OF err] by auto
qed

section \<open>Blank strings\<close>

lemma prefix_width_rune:
  assumes "prefix_width runes s \<noteq> 0"
  shows "\<exists>r. r \<in> set runes \<and> take (length r) s = r \<and> prefix_width runes s = length r"
proof (cases "filter (\<lambda>r. take (length r) s = r) runes")
  case Nil
  then show ?thesis using assms by (simp add: prefix_width_def)
next
  case (Cons r rs)
  then have "r \<in> set (filter (\<lambda>r. take (length r) s = r) runes)" by simp
  then have "r \<in> set runes \<and> take (length r) s = r" unfolding set_filter by simp
  moreover have "prefix_width runes s = length r" using Cons by (simp add: prefix_width_def)
  ultimately show ?thesis by blast
qed

lemma trim_front_keeps:
  assumes "c \<in> set s" "\<forall>r \<in> set runes. c \<notin> set r"
  shows "c \<in> set (trim_front runes s)"
  using assms
proof (induction runes s rule: trim_front.induct)
  case (1 runes s)
  show ?case
  proof (cases "s = [] \<or> prefix_width runes s = 0")
    case True
    then show ?thesis using "1.prems" by (subst trim_front.simps) simp
  next
    case False
    then obtain r where r: "r \<in> set runes" "take (length r) s = r" "prefix_width runes s = length r"
      using prefix_width_rune by blast
    then have "s = r @ drop (length r) s" by (metis append_take_drop_id)
    then have "c \<in> set (drop (prefix_width runes s) s)"
      using "1.prems" r by (metis Un_iff set_append)
    then show ?thesis using "1.IH" [OF False _ "1.prems"(2)] False by (subst trim_front.simps) simp
  qed
qed

lemma space_runes_bytes:
  "r \<in> set space_runes \<Longrightarrow> c \<in> set r \<Longrightarrow> (of_char c :: nat) \<le> 32 \<or> 128 \<le> (of_char c :: nat)"
  by (auto simp: space_runes_def)

lemma not_blank_byte:
  assumes "c \<in> set s" "\<forall>r \<in> set space_runes. c \<notin> set r"
  shows "TrimSpace s \<noteq> []"
proof -
  have "c \<in> set (trim_front space_runes s)" by (rule trim_front_keeps [OF assms])
  then have "c \<in> set (trim_front (map rev space_runes) (rev (trim_front space_runes s)))"
    using assms(2) by (intro trim_front_keeps) auto
  then show ?thesis by (auto simp: TrimSpace_def)
qed

lemma not_blank:
  assumes "c \<in> set s" "32 < (of_char c :: nat)" "(of_char c :: nat) < 128"
  shows "TrimSpace s \<noteq> []"
  using assms space_runes_bytes by (intro not_blank_byte [OF assms(1)]) fastforce

lemma not_blank_Cons:
  "32 < (of_char c :: nat) \<Longrightarrow> (of_char c :: nat) < 128 \<Longrightarrow> TrimSpace (c # s) \<noteq> []"
  by (rule not_blank) auto

lemma sample_item_valid: "item_valid sample_item"
  by (simp add: item_valid_def sample_item_def not_blank_Cons)

lemma sample_order_valid: "order_valid (\<lambda>_. None) 2000 sample_order"
  using sample_item_valid
  by (simp add: order_valid_def main_valid_def delivery_valid_def payment_valid_def
      sample_order_def not_blank_Cons)

text \<open>An order whose second item has a discount above 100 percent.\<close>

definition discounted_order :: order where
  "discounted_order = sample_order\<lparr>ord_Items := [sample_item, sample_item\<lparr>itm_Sale := 101\<rparr>]\<rparr>"

lemma ValidateOrder_names_first_bad_item_witness:
  "\<exists>pre it post e. ord_Items discounted_order = pre @ it # post \<and> (\<forall>x \<in> set pre. item_valid x) \<and>
    validateItem it = Some e \<and>
    ValidateOrder (\<lambda>_. None) 2000 discounted_order =
      Some (Wrap ''items validation failed: ''
        (Wrap (''item '' @ itoa (int (length pre)) @ '': '') e []) [])"
proof (rule ValidateOrder_names_first_bad_item)
  have "main_valid 2000 discounted_order = main_valid 2000 sample_order"
    by (simp add: main_valid_def discounted_order_def)
  then show "main_valid 2000 discounted_order"
    using sample_order_valid by (simp add: order_valid_def)
qed (use sample_order_valid in \<open>simp_all add: order_valid_def discounted_order_def item_valid_def\<close>)

end
