(* ===== verification/OrderReceiver.thy ===== *)
theory OrderReceiver
  imports KafkaReceiver Validators OrderService
begin

text \<open>
  The receiving service of \<open>internal/service/order_receiver_service.go\<close> with its
  runner (\<open>internal/runner/order_recevier.go\<close>), over any receiver port and any function
  that processes an order: the loop with its \<open>select\<close>, the goroutine that processes a
  valid order and finishes its message, and the shutdown handshake on the unbuffered channel
  \<open>done\<close>.
\<close>

section \<open>One iteration of the loop\<close>

text \<open>
  The world: the receiver, the state of the process function, the log and the goroutines
  started for valid orders.
\<close>

record ('r, 'p, 'm) rx_world =
  rx_receiver :: 'r
  rx_process :: 'p
  rx_logs :: "log_record list"
  rx_tasks :: "(order \<times> 'm) list"

definition rx_say ::
  "(logger_ptr \<Rightarrow> go_context \<Rightarrow> string \<Rightarrow> log_field list \<Rightarrow> log_record outcome) \<Rightarrow>
   go_context \<Rightarrow> string \<Rightarrow> go_error option \<Rightarrow> (('r, 'p, 'm) rx_world, unit) run" where
  "rx_say level ctx msg err w =
     (case ctx_log level ctx msg (zap_Error err) of
        Panics \<Rightarrow> (w, Panics)
      | Returns r \<Rightarrow> (w\<lparr>rx_logs := rx_logs w @ [r]\<rparr>, Returns ()))"

definition on_receiver :: "('r, 'a) run \<Rightarrow> (('r, 'p, 'm) rx_world, 'a) run" where
  "on_receiver f w = (let (r, a) = f (rx_receiver w) in (w\<lparr>rx_receiver := r\<rparr>, a))"

definition on_process :: "('p, 'a) run \<Rightarrow> (('r, 'p, 'm) rx_world, 'a) run" where
  "on_process f w = (let (p, a) = f (rx_process w) in (w\<lparr>rx_process := p\<rparr>, a))"

text \<open>The body of the default case, after \<open>Consume\<close> has returned.\<close>

definition after_consume ::
  "(order, 'm, 'r) receiver_port \<Rightarrow> (string \<Rightarrow> go_error option) \<Rightarrow> go_time \<Rightarrow> go_context \<Rightarrow>
   order \<Rightarrow> 'm \<Rightarrow> go_error option \<Rightarrow> (('r, 'p, 'm) rx_world, unit) run" where
  "after_consume receiver parse_address now ctx order msg err =
     (case err of
        Some e \<Rightarrow> rx_say Error ctx ''error while receiving orders'' err
      | None \<Rightarrow>
          (case ValidateOrder parse_address now order of
             Some e \<Rightarrow>
               bind_run (rx_say Warn ctx ''invalid order'' (Some e)) (\<lambda>_.
               bind_run (on_receiver (rp_OnFail receiver ctx False msg)) (\<lambda>err.
               if err \<noteq> None
               then rx_say Error ctx ''error while committing invalid message failure'' err
               else ret ()))
           | None \<Rightarrow> (\<lambda>w. (w\<lparr>rx_tasks := rx_tasks w @ [(order, msg)]\<rparr>, Returns ()))))"

text \<open>The default case; \<open>None\<close> when \<open>Consume\<close> blocks for ever.\<close>

definition receive_one ::
  "(order, 'm, 'r) receiver_port \<Rightarrow> (string \<Rightarrow> go_error option) \<Rightarrow> go_time \<Rightarrow> go_context \<Rightarrow>
   ('r, 'p, 'm) rx_world \<Rightarrow> (('r, 'p, 'm) rx_world \<times> unit outcome) option" where
  "receive_one receiver parse_address now ctx w =
     (case rp_Consume receiver ctx (rx_receiver w) of
        None \<Rightarrow> None
      | Some (r, Panics) \<Rightarrow> Some (w\<lparr>rx_receiver := r\<rparr>, Panics)
      | Some (r, Returns (order, msg, err)) \<Rightarrow>
          Some (after_consume receiver parse_address now ctx order msg err (w\<lparr>rx_receiver := r\<rparr>)))"

definition ProcessOrder ::
  "(go_context \<Rightarrow> order \<Rightarrow> ('p, go_error option) run) \<Rightarrow> go_context \<Rightarrow> order \<Rightarrow>
   (('r, 'p, 'm) rx_world, go_error option) run" where
  "ProcessOrder processOrderFunction ctx order = on_process (processOrderFunction ctx order)"

text \<open>The goroutine of step 3.\<close>

definition process_task ::
  "(order, 'm, 'r) receiver_port \<Rightarrow> (go_context \<Rightarrow> order \<Rightarrow> ('p, go_error option) run) \<Rightarrow> go_context \<Rightarrow>
   order \<Rightarrow> 'm \<Rightarrow> (('r, 'p, 'm) rx_world, unit) run" where
  "process_task receiver processOrderFunction ctx order msg =
     bind_run (ProcessOrder processOrderFunction ctx order) (\<lambda>err.
       if err \<noteq> None
       then bind_run (rx_say Error ctx ''error while processing order'' err) (\<lambda>_.
            bind_run (on_receiver (rp_OnFail receiver ctx True msg)) (\<lambda>err.
            if err \<noteq> None
            then rx_say Error ctx ''error while committing valid message failure'' err
            else ret ()))
       else bind_run (on_receiver (rp_OnSuccess receiver ctx msg)) (\<lambda>err.
            if err \<noteq> None
            then rx_say Error ctx ''error while committing successful message'' err
            else ret ()))"

lemma rx_say_ok [simp]:
  assumes "ctx_ok ctx"
  shows "rx_say Warn ctx msg err w = (w\<lparr>rx_logs := rx_logs w @ [log_rec WarnLevel ctx msg (zap_Error err)]\<rparr>, Returns ())"
    "rx_say Error ctx msg err w = (w\<lparr>rx_logs := rx_logs w @ [log_rec ErrorLevel ctx msg (zap_Error err)]\<rparr>, Returns ())"
  using assms by (simp_all add: rx_say_def)

lemma after_consume_branches:
  assumes "ctx_ok ctx"
  shows "\<exists>logs. after_consume receiver parse_address now ctx order msg err w =
      (case err of
         Some _ \<Rightarrow> (w\<lparr>rx_logs := logs\<rparr>, Returns ())
       | None \<Rightarrow>
           if order_valid parse_address now order
           then (w\<lparr>rx_tasks := rx_tasks w @ [(order, msg)]\<rparr>, Returns ())
           else (case rp_OnFail receiver ctx False msg (rx_receiver w) of
                   (r, Returns _) \<Rightarrow> (w\<lparr>rx_receiver := r, rx_logs := logs\<rparr>, Returns ())
                 | (r, Panics) \<Rightarrow> (w\<lparr>rx_receiver := r, rx_logs := logs\<rparr>, Panics)))"
proof (cases err)
  case None
  show ?thesis
  proof (cases "ValidateOrder parse_address now order")
    case (Some e)
    obtain r res where "rp_OnFail receiver ctx False msg (rx_receiver w) = (r, res)" by fastforce
    then show ?thesis using assms None Some
      by (cases w; cases res) (auto simp: after_consume_def on_receiver_def bind_run_def ret_def order_valid_iff)
  qed (use None in \<open>simp add: after_consume_def order_valid_iff\<close>)
qed (use assms in \<open>auto simp: after_consume_def\<close>)

lemma process_task_branches:
  assumes "ctx_ok ctx"
  shows "\<exists>logs. process_task receiver process ctx order msg w =
      (case process ctx order (rx_process w) of
         (p, Panics) \<Rightarrow> (w\<lparr>rx_process := p\<rparr>, Panics)
       | (p, Returns perr) \<Rightarrow>
           (case (if perr = None then rp_OnSuccess receiver ctx msg (rx_receiver w)
                  else rp_OnFail receiver ctx True msg (rx_receiver w)) of
              (r, Returns _) \<Rightarrow> (w\<lparr>rx_process := p, rx_receiver := r, rx_logs := logs\<rparr>, Returns ())
            | (r, Panics) \<Rightarrow> (w\<lparr>rx_process := p, rx_receiver := r, rx_logs := logs\<rparr>, Panics)))"
proof -
  obtain p res where p: "process ctx order (rx_process w) = (p, res)" by fastforce
  show ?thesis
  proof (cases res)
    case (Returns perr)
    obtain r fin where f: "(if perr = None then rp_OnSuccess receiver ctx msg (rx_receiver w)
        else rp_OnFail receiver ctx True msg (rx_receiver w)) = (r, fin)" by fastforce
    show ?thesis using assms p Returns f
      by (cases w; cases perr; cases fin)
        (auto simp: process_task_def ProcessOrder_def on_receiver_def on_process_def bind_run_def ret_def)
  qed (use p in \<open>simp add: process_task_def ProcessOrder_def on_process_def bind_run_def\<close>)
qed


text \<open>A receiver port that notes the calls that finish messages.\<close>

datatype finish = Succeeded string | Failed bool string

definition note_port :: "(order, string, finish list) receiver_port" where
  "note_port = \<lparr>rp_Consume = (\<lambda>ctx r. Some (r, Returns (zero_order, ''m'', None))),
     rp_OnSuccess = (\<lambda>ctx m r. (r @ [Succeeded m], Returns None)),
     rp_OnFail = (\<lambda>ctx b m r. (r @ [Failed b m], Returns None))\<rparr>"

definition note_world :: "(finish list, unit, string) rx_world" where
  "note_world = \<lparr>rx_receiver = [], rx_process = (), rx_logs = [], rx_tasks = []\<rparr>"


section \<open>The loop does not panic\<close>

text \<open>What the process can do: an iteration of the loop, or a pending goroutine.\<close>

inductive rx_reach ::
  "(order, 'm, 'r) receiver_port \<Rightarrow> (string \<Rightarrow> go_error option) \<Rightarrow>
   (go_context \<Rightarrow> order \<Rightarrow> ('p, go_error option) run) \<Rightarrow> go_context \<Rightarrow>
   ('r, 'p, 'm) rx_world \<Rightarrow> ('r, 'p, 'm) rx_world \<times> unit outcome \<Rightarrow> bool"
  for receiver parse_address process ctx w0 where
  start: "rx_reach receiver parse_address process ctx w0 (w0, Returns ())"
| iterate: "rx_reach receiver parse_address process ctx w0 (w, Returns ()) \<Longrightarrow>
    receive_one receiver parse_address now ctx w = Some (w', r) \<Longrightarrow>
    rx_reach receiver parse_address process ctx w0 (w', r)"
| task: "rx_reach receiver parse_address process ctx w0 (w, Returns ()) \<Longrightarrow>
    i < length (rx_tasks w) \<Longrightarrow> rx_tasks w ! i = (order, msg) \<Longrightarrow>
    process_task receiver process ctx order msg (w\<lparr>rx_tasks := remove_nth i (rx_tasks w)\<rparr>) = (w', r) \<Longrightarrow>
    rx_reach receiver parse_address process ctx w0 (w', r)"

locale order_receiver_client =
  receiver_contract ok given port
  for ok :: "'r \<Rightarrow> bool" and given :: "'m \<Rightarrow> bool" and port :: "(order, 'm, 'r) receiver_port"
begin

definition rx_inv :: "('r, 'p, 'm) rx_world \<Rightarrow> bool" where
  "rx_inv w \<longleftrightarrow> ok (rx_receiver w) \<and> (\<forall>t \<in> set (rx_tasks w). given (snd t))"

lemma process_task_safe:
  assumes w: "ok (rx_receiver w)" and ctx: "ctx_ok ctx" and m: "given m"
    and process: "\<And>x p. snd (process ctx x p) \<noteq> Panics"
  shows "\<exists>w'. process_task port process ctx order m w = (w', Returns ()) \<and> ok (rx_receiver w') \<and>
    rx_tasks w' = rx_tasks w"
proof -
  obtain p perr where p: "process ctx order (rx_process w) = (p, Returns perr)"
    using process [of order "rx_process w"] by (metis outcome.exhaust prod.collapse)
  obtain r e where r: "(if perr = None then rp_OnSuccess port ctx m (rx_receiver w)
      else rp_OnFail port ctx True m (rx_receiver w)) = (r, Returns e)" "ok r"
    using finish_law [OF w ctx m] by metis
  show ?thesis using process_task_branches [OF ctx, of port process order m w] p r by auto
qed

lemma receive_one_safe:
  assumes w: "rx_inv w" and ctx: "ctx_ok ctx"
  shows "\<exists>w'. receive_one port parse_address now ctx w = Some (w', Returns ()) \<and> rx_inv w'"
proof -
  have ok: "ok (rx_receiver w)" using w by (simp add: rx_inv_def)
  obtain r v m e where c: "rp_Consume port ctx (rx_receiver w) = Some (r, Returns (v, m, e))" "ok r"
    "e = None \<longrightarrow> given m"
    using consume_law [OF ok ctx] by metis
  obtain r' e' where f: "given m \<Longrightarrow> rp_OnFail port ctx False m r = (r', Returns e')" "given m \<Longrightarrow> ok r'"
    using fail_law [OF c(2) ctx, of m False] by metis
  note b = after_consume_branches [OF ctx, of port parse_address now v m e "w\<lparr>rx_receiver := r\<rparr>"]
  show ?thesis
  proof (cases e)
    case None
    then show ?thesis using b c f w
      by (cases "order_valid parse_address now v") (auto simp: receive_one_def rx_inv_def)
  next
    case (Some err)
    then show ?thesis using b c w by (auto simp: receive_one_def rx_inv_def)
  qed
qed

lemma reach_safe:
  assumes "rx_reach port parse_address process ctx w0 s" "rx_inv w0" "ctx_ok ctx"
    and process: "\<And>x p. snd (process ctx x p) \<noteq> Panics"
  shows "rx_inv (fst s) \<and> snd s = Returns ()"
  using assms(1)
proof (induction rule: rx_reach.induct)
  case start
  then show ?case using assms(2) by simp
next
  case (iterate w now w' r)
  then show ?case using receive_one_safe [OF _ assms(3), of w parse_address now] by auto
next
  case (task w i order msg w' r)
  let ?w = "w\<lparr>rx_tasks := remove_nth i (rx_tasks w)\<rparr>"
  have g: "given msg" "ok (rx_receiver ?w)"
    using task nth_mem [OF task.hyps(2)] by (auto simp: rx_inv_def)
  obtain w'' where "process_task port process ctx order msg ?w = (w'', Returns ())" "ok (rx_receiver w'')"
    "rx_tasks w'' = rx_tasks ?w"
    using process_task_safe [OF g(2) assms(3) g(1), of process order] process by blast
  then show ?case using task set_remove_nth [of i "rx_tasks w"] by (auto simp: rx_inv_def)
qed

end

interpretation kafka_orders: order_receiver_client kr_ok given_message "kafka_port lib zero_order"
  for lib :: "(order, 'msg, 'rd) kafka_lib"
  by unfold_locales

text \<open>
  The receiving loop over a Kafka receiver never panics and \<open>Consume\<close> never blocks
  it, through any sequence of iterations and of goroutines run in any order, for any Kafka
  client, any payloads and any process function that does not panic itself. The retry channel
  stays within its capacity.
\<close>

lemma receiving_loop_is_safe:
  assumes "rx_reach (kafka_port lib zero_order) parse_address process ctx
      \<lparr>rx_receiver = r, rx_process = p, rx_logs = [], rx_tasks = []\<rparr> (w, res)"
    and new: "NewKafkaReceiver reader maxRetries capacity backoff t = Returns r" and ctx: "ctx_ok ctx"
    and process: "\<And>x p. snd (process ctx x p) \<noteq> Panics"
  shows "res = Returns () \<and> kr_ok (rx_receiver w) \<and>
    (\<exists>w'. receive_one (kafka_port lib zero_order) parse_address now ctx w = Some (w', Returns ()))"
proof -
  have "kafka_orders.rx_inv \<lparr>rx_receiver = r, rx_process = p, rx_logs = [], rx_tasks = []\<rparr>"
    using new by (auto simp: kafka_orders.rx_inv_def NewKafkaReceiver_def kr_ok_def split: if_splits)
  note s = kafka_orders.reach_safe [OF assms(1) this ctx process]
  then show ?thesis using kafka_orders.receive_one_safe [OF _ ctx, of w lib parse_address now]
    by (auto simp: kafka_orders.rx_inv_def)
qed

text \<open>A Kafka client that delivers one order again and again.\<close>

definition order_lib :: "(order, string, unit) kafka_lib" where
  "order_lib =
     \<lparr>kl_ReadMessage = (\<lambda>ctx u. (u, Inr ''payload'')),
      kl_CommitMessages = (\<lambda>ctx m u. (u, None)),
      kl_payload = id, kl_Unmarshal = (\<lambda>s. Inr sample_order),
      kl_show_message = id, kl_show_value = ord_OrderUID, kl_show_time = itoa\<rparr>"

lemma receiving_loop_is_safe_witness:
  "\<exists>r w'. NewKafkaReceiver () 2 1 5 100 = Returns r \<and>
     receive_one (kafka_port order_lib zero_order) (\<lambda>_. None) 2000 logged_ctx
       \<lparr>rx_receiver = r, rx_process = (), rx_logs = [], rx_tasks = []\<rparr> = Some (w', Returns ())"
proof -
  obtain r :: "(order, string, unit) kafka_receiver" where r: "NewKafkaReceiver () 2 1 5 100 = Returns r"
    by (simp add: NewKafkaReceiver_def)
  show ?thesis
    using receiving_loop_is_safe [where lib = order_lib and parse_address = "\<lambda>_. None" and ctx = logged_ctx
        and process = "\<lambda>_ _ p. (p, Returns None)" and now = 2000 and p = "()", OF rx_reach.start r] r
    by auto
qed

section \<open>The loop as a whole and its runner\<close>

text \<open>
  \<open>StartReceivingOrders\<close> along a list of the choices that its \<open>select\<close> makes; the
  list is the fuel, so a run that has used it up is still running.
\<close>

datatype choice = CtxDone | DoneSignal | Default go_time

datatype loop_result = Returned "go_error option" | StillRunning | BlockedForever | LoopPanics

fun StartReceivingOrders ::
  "(order, 'm, 'r) receiver_port \<Rightarrow> (string \<Rightarrow> go_error option) \<Rightarrow> go_context \<Rightarrow> choice list \<Rightarrow>
   ('r, 'p, 'm) rx_world \<Rightarrow> ('r, 'p, 'm) rx_world \<times> loop_result" where
  "StartReceivingOrders receiver parse_address ctx [] w = (w, StillRunning)"
| "StartReceivingOrders receiver parse_address ctx (CtxDone # cs) w = (w, Returned None)"
| "StartReceivingOrders receiver parse_address ctx (DoneSignal # cs) w = (w, Returned None)"
| "StartReceivingOrders receiver parse_address ctx (Default now # cs) w =
     (case receive_one receiver parse_address now ctx w of
        None \<Rightarrow> (w, BlockedForever)
      | Some (w', Panics) \<Rightarrow> (w', LoopPanics)
      | Some (w', Returns _) \<Rightarrow> StartReceivingOrders receiver parse_address ctx cs w')"

definition RunOrderReceiver ::
  "(order, 'm, 'r) receiver_port \<Rightarrow> (string \<Rightarrow> go_error option) \<Rightarrow> go_context \<Rightarrow> choice list \<Rightarrow>
   ('r, 'p, 'm) rx_world \<Rightarrow> ('r, 'p, 'm) rx_world \<times> loop_result" where
  "RunOrderReceiver receiver parse_address ctx cs w =
     (case rx_say Info ctx ''starting receiving orders'' None w of
        (w', Panics) \<Rightarrow> (w', LoopPanics)
      | (w', Returns _) \<Rightarrow>
          (case StartReceivingOrders receiver parse_address ctx cs w' of
             (w'', Returned (Some err)) \<Rightarrow>
               (case rx_say Error ctx ''failed to receive orders'' (Some err) w'' of
                  (w3, Panics) \<Rightarrow> (w3, LoopPanics)
                | (w3, Returns _) \<Rightarrow> (w3, Returned None))
           | (w'', res) \<Rightarrow> (w'', res)))"

lemma StartReceivingOrders_no_error:
  "StartReceivingOrders receiver parse_address ctx cs w = (w', Returned e) \<Longrightarrow> e = None"
  by (induction receiver parse_address ctx cs w rule: StartReceivingOrders.induct)
    (auto split: option.splits outcome.splits)

section \<open>Shutdown\<close>

text \<open>
  The interrupt cancels the context that the loop and \<open>main\<close> share. Then \<open>main\<close>
  calls \<open>ShutdownOrderReceiver\<close>, which makes a context with a timeout of ten seconds and
  passes it to \<open>StopReceivingOrders\<close>, a plain send on the unbuffered channel
  \<open>done\<close>: it completes only when the loop receives it.
\<close>

datatype sender = NotCalled | Sending | Sent

record shutdown =
  sd_cancelled :: bool
  sd_looping :: bool
  sd_sender :: sender
  sd_timed_out :: bool

definition sd_init :: shutdown where
  "sd_init = \<lparr>sd_cancelled = False, sd_looping = True, sd_sender = NotCalled, sd_timed_out = False\<rparr>"

text \<open>The cases of the loop's \<open>select\<close> that are ready; the default is taken when none is.\<close>

definition ready :: "shutdown \<Rightarrow> choice list" where
  "ready s = (if sd_cancelled s then [CtxDone] else []) @ (if sd_sender s = Sending then [DoneSignal] else [])"

definition StopReceivingOrders :: "shutdown \<Rightarrow> shutdown" where
  "StopReceivingOrders s = s\<lparr>sd_sender := Sending\<rparr>"

primrec take_choice :: "choice \<Rightarrow> shutdown \<Rightarrow> shutdown" where
  "take_choice CtxDone s = s\<lparr>sd_looping := False\<rparr>"
| "take_choice DoneSignal s = s\<lparr>sd_looping := False, sd_sender := Sent\<rparr>"
| "take_choice (Default now) s = s"

inductive sd_step :: "shutdown \<Rightarrow> shutdown \<Rightarrow> bool" where
  interrupt: "sd_step s (s\<lparr>sd_cancelled := True\<rparr>)"
| stop: "sd_cancelled s \<Longrightarrow> sd_sender s = NotCalled \<Longrightarrow> sd_step s (StopReceivingOrders s)"
| timeout: "sd_sender s \<noteq> NotCalled \<Longrightarrow> sd_step s (s\<lparr>sd_timed_out := True\<rparr>)"
| select: "sd_looping s \<Longrightarrow> c \<in> set (ready s) \<Longrightarrow> sd_step s (take_choice c s)"
| default: "sd_looping s \<Longrightarrow> ready s = [] \<Longrightarrow> sd_step s (take_choice (Default now) s)"

inductive_simps sd_step_simps: "sd_step s s'"

lemma loop_left_step:
  assumes "sd_step s s'" "\<not> sd_looping s" "sd_sender s \<noteq> Sent"
  shows "\<not> sd_looping s' \<and> sd_sender s' \<noteq> Sent \<and> (sd_sender s = Sending \<longrightarrow> sd_sender s' = Sending)"
  using assms by (cases rule: sd_step.cases) (auto simp: StopReceivingOrders_def)

lemma loop_left_steps:
  assumes "sd_step\<^sup>*\<^sup>* s s'" "\<not> sd_looping s" "sd_sender s \<noteq> Sent"
  shows "\<not> sd_looping s' \<and> sd_sender s' \<noteq> Sent \<and> (sd_sender s = Sending \<longrightarrow> sd_sender s' = Sending)"
  using assms(1)
proof (induction rule: rtranclp_induct)
  case base
  then show ?case using assms by simp
next
  case (step t u)
  then show ?case using loop_left_step [of t u] by auto
qed

lemma sd_reach_inv:
  assumes "sd_step\<^sup>*\<^sup>* sd_init s"
  shows "(sd_sender s = Sent \<longrightarrow> \<not> sd_looping s) \<and> (sd_sender s \<noteq> NotCalled \<longrightarrow> sd_cancelled s)"
  using assms
  by (induction rule: rtranclp_induct)
    (auto simp: sd_init_def sd_step_simps StopReceivingOrders_def ready_def split: if_splits)

lemma same_image: "(\<And>y. y \<in> A \<Longrightarrow> f y = c) \<Longrightarrow> x \<in> A \<Longrightarrow> f ` A = {c}"
  by auto

text \<open>
  Stopping the receiver can hang for good, timeout or not. The interrupt that makes
  \<open>main\<close> call \<open>StopReceivingOrders\<close> also lets the loop leave through
  \<open>ctx.Done\<close>; once it has, no one receives from \<open>done\<close>, and the send never
  completes, so \<open>main\<close> waits for ever. A run in which the stop completes exists too.
\<close>

lemma shutdown_can_hang:
  "(\<exists>s. sd_step\<^sup>*\<^sup>* sd_init s \<and> sd_sender s = Sending \<and> sd_timed_out s \<and>
      sd_sender ` {s'. sd_step\<^sup>*\<^sup>* s s'} = {Sending}) \<and>
   (\<exists>s. sd_step\<^sup>*\<^sup>* sd_init s \<and> sd_sender s = Sent)"
proof -
  let ?c = "sd_init\<lparr>sd_cancelled := True\<rparr>"
  let ?l = "?c\<lparr>sd_looping := False\<rparr>" and ?p = "StopReceivingOrders ?c"
  let ?h = "StopReceivingOrders ?l\<lparr>sd_timed_out := True\<rparr>" and ?d = "take_choice DoneSignal ?p"
  have c: "sd_step\<^sup>*\<^sup>* sd_init ?c" by (intro r_into_rtranclp sd_step.interrupt)
  have "sd_step ?c (take_choice CtxDone ?c)"
    by (rule sd_step.select) (simp_all add: sd_init_def ready_def)
  moreover have "sd_step ?l (StopReceivingOrders ?l)" by (rule sd_step.stop) (simp_all add: sd_init_def)
  moreover have "sd_step (StopReceivingOrders ?l) ?h"
    by (rule sd_step.timeout) (simp add: StopReceivingOrders_def)
  ultimately have h: "sd_step\<^sup>*\<^sup>* sd_init ?h"
    using c by (auto intro: rtranclp.rtrancl_into_rtrancl)
  have "sd_sender s' = Sending" if "sd_step\<^sup>*\<^sup>* ?h s'" for s'
    using loop_left_steps [OF that] by (simp add: StopReceivingOrders_def)
  then have stuck: "sd_sender ` {s'. sd_step\<^sup>*\<^sup>* ?h s'} = {Sending}" by (intro same_image [of _ _ _ ?h]) simp_all
  have "sd_step ?c ?p" by (rule sd_step.stop) (simp_all add: sd_init_def)
  moreover have "sd_step ?p ?d"
    by (rule sd_step.select) (simp_all add: sd_init_def ready_def StopReceivingOrders_def)
  ultimately have d: "sd_step\<^sup>*\<^sup>* sd_init ?d"
    using c by (meson rtranclp.rtrancl_into_rtrancl)
  have "sd_sender ?h = Sending" "sd_timed_out ?h" "sd_sender ?d = Sent"
    by (simp_all add: StopReceivingOrders_def)
  with h stuck d show ?thesis by blast
qed

end
