(* ===== verification/KafkaAdmin.thy ===== *)
theory KafkaAdmin
  imports Prelude
begin

text \<open>
  Creating the topic at startup (\<open>pkg/kafka/kafka.go\<close>, and the simulator's
  \<open>kafka.go\<close>, which has the same function), and the simulator's HTTP handler
  (\<open>simulator_service/handler.go\<close>). The functions of kafka-go are the fields of
  \<open>kafka_admin\<close>, over the state \<open>'k\<close> of the cluster and the connections
  \<open>'c\<close> to it.
\<close>

section \<open>Creating a topic\<close>

record topic_config =
  tc_Topic :: string
  tc_NumPartitions :: go_int
  tc_ReplicationFactor :: go_int

record ('k, 'c) kafka_admin =
  ka_Dial :: "string \<Rightarrow> 'k \<Rightarrow> 'k \<times> (go_error + 'c)"
  ka_Controller :: "'c \<Rightarrow> 'k \<Rightarrow> 'k \<times> (go_error + string \<times> int)"
  ka_CreateTopics :: "'c \<Rightarrow> topic_config \<Rightarrow> 'k \<Rightarrow> 'k \<times> go_error option"
  ka_Close :: "'c \<Rightarrow> 'k \<Rightarrow> 'k \<times> go_error option"

text \<open>\<open>defer conn.Close()\<close> around the rest of the function.\<close>

definition closing :: "('k, 'c) kafka_admin \<Rightarrow> 'c \<Rightarrow> ('k, 'a) run \<Rightarrow> ('k, 'a) run" where
  "closing ka c m k = (let (k', r) = m k in (fst (ka_Close ka c k'), r))"

definition with_dial ::
  "('k, 'c) kafka_admin \<Rightarrow> string \<Rightarrow> ('c \<Rightarrow> ('k, go_error option) run) \<Rightarrow> ('k, go_error option) run" where
  "with_dial ka address body k =
     (case ka_Dial ka address k of
        (k', Inl err) \<Rightarrow> (k', Returns (Some err))
      | (k', Inr c) \<Rightarrow> closing ka c (body c) k')"

text \<open>The call on the controller's connection, and the steps on the broker's connection.\<close>

definition create_on :: "('k, 'c) kafka_admin \<Rightarrow> topic_config \<Rightarrow> 'c \<Rightarrow> ('k, go_error option) run" where
  "create_on ka cfg controllerConn k =
     (let (k', err) = ka_CreateTopics ka controllerConn cfg k in (k', Returns err))"

definition via_controller :: "('k, 'c) kafka_admin \<Rightarrow> topic_config \<Rightarrow> 'c \<Rightarrow> ('k, go_error option) run" where
  "via_controller ka cfg conn k =
     (case ka_Controller ka conn k of
        (k', Inl err) \<Rightarrow> (k', Returns (Some err))
      | (k', Inr (host, port)) \<Rightarrow> with_dial ka (host @ '':'' @ itoa port) (create_on ka cfg) k')"

text \<open>\<open>Brokers[0]\<close> panics when there are no brokers.\<close>

definition CreateTopicIfNotExists ::
  "('k, 'c) kafka_admin \<Rightarrow> string list \<Rightarrow> string \<Rightarrow> go_int \<Rightarrow> go_int \<Rightarrow> ('k, go_error option) run" where
  "CreateTopicIfNotExists ka brokers topic numPartitions replicationFactor =
     (if topic = [] then ret (Some (Errorf ''topic name mustn't be empty''))
      else case brokers of
        [] \<Rightarrow> (\<lambda>k. (k, Panics))
      | broker # _ \<Rightarrow>
          with_dial ka broker (via_controller ka
            \<lparr>tc_Topic = topic, tc_NumPartitions = numPartitions, tc_ReplicationFactor = replicationFactor\<rparr>))"

text \<open>What a function that gives back every connection does to the open ones.\<close>

definition counts_connections :: "('k, 'c) kafka_admin \<Rightarrow> ('k \<Rightarrow> 'c multiset) \<Rightarrow> bool" where
  "counts_connections ka opened \<longleftrightarrow>
     (\<forall>a k. opened (fst (ka_Dial ka a k)) =
        (case snd (ka_Dial ka a k) of Inl _ \<Rightarrow> opened k | Inr c \<Rightarrow> add_mset c (opened k))) \<and>
     (\<forall>c k. opened (fst (ka_Controller ka c k)) = opened k) \<and>
     (\<forall>c t k. opened (fst (ka_CreateTopics ka c t k)) = opened k) \<and>
     (\<forall>c k. opened (fst (ka_Close ka c k)) = opened k - {#c#})"

lemma closing_opened:
  "counts_connections ka opened \<Longrightarrow> opened (fst (closing ka c m k)) = opened (fst (m k)) - {#c#}"
  by (simp add: closing_def counts_connections_def split: prod.split)

lemma with_dial_opened:
  assumes "counts_connections ka opened" "\<And>c k. opened (fst (body c k)) = opened k"
  shows "opened (fst (with_dial ka a body k)) = opened k"
proof (cases "ka_Dial ka a k")
  case (Pair k' res)
  have "opened (fst (ka_Dial ka a k)) =
      (case snd (ka_Dial ka a k) of Inl _ \<Rightarrow> opened k | Inr c \<Rightarrow> add_mset c (opened k))"
    using assms(1) unfolding counts_connections_def by blast
  then show ?thesis using Pair assms(2)
    by (cases res) (simp_all add: with_dial_def closing_opened [OF assms(1)])
qed

lemma with_dial_returns:
  "(\<And>c k. snd (body c k) \<noteq> Panics) \<Longrightarrow> snd (with_dial ka a body k) \<noteq> Panics"
  by (auto simp: with_dial_def closing_def case_prod_unfold Let_def split: sum.splits)

lemma via_controller_returns: "snd (via_controller ka cfg c k) \<noteq> Panics"
proof -
  have "snd (create_on ka cfg c k) \<noteq> Panics" for c k
    by (simp add: create_on_def case_prod_unfold Let_def)
  note d = with_dial_returns [of "create_on ka cfg", OF this]
  show ?thesis by (auto simp: via_controller_def case_prod_unfold d split: sum.split)
qed

lemma via_controller_opened:
  assumes "counts_connections ka opened"
  shows "opened (fst (via_controller ka cfg c k)) = opened k"
proof -
  have "opened (fst (ka_CreateTopics ka c cfg k)) = opened k" for c k
    using assms unfolding counts_connections_def by blast
  then have create: "opened (fst (create_on ka cfg c k)) = opened k" for c k
    by (simp add: create_on_def case_prod_unfold Let_def)
  have ctl: "opened (fst (ka_Controller ka c k)) = opened k" for c k
    using assms unfolding counts_connections_def by blast
  obtain k' res where k': "ka_Controller ka c k = (k', res)" by fastforce
  then have same: "opened k' = opened k" using ctl [of c k] by simp
  show ?thesis
  proof (cases res)
    case (Inr hp)
    have "opened (fst (with_dial ka a (create_on ka cfg) k')) = opened k'" for a
      using create by (intro with_dial_opened assms)
    then show ?thesis using k' same Inr by (cases hp) (simp add: via_controller_def)
  qed (use k' same in \<open>simp add: via_controller_def\<close>)
qed

text \<open>
  \<open>CreateTopicIfNotExists\<close> leaks no connection: whatever the cluster answers, and
  whichever step fails, the connections open after it are those open before. It panics exactly
  when it has a topic and no broker, and refuses an empty topic without touching the cluster.
\<close>

lemma CreateTopicIfNotExists_closes_connections:
  assumes "counts_connections ka opened"
  shows "opened (fst (CreateTopicIfNotExists ka brokers topic n f k)) = opened k \<and>
    (snd (CreateTopicIfNotExists ka brokers topic n f k) = Panics \<longleftrightarrow> topic \<noteq> [] \<and> brokers = []) \<and>
    (topic = [] \<longrightarrow> CreateTopicIfNotExists ka brokers topic n f k =
       (k, Returns (Some (Errorf ''topic name mustn't be empty''))))"
proof (cases "topic = [] \<or> brokers = []")
  case False
  then obtain broker rest where "brokers = broker # rest" by (cases brokers) auto
  then have eq: "CreateTopicIfNotExists ka brokers topic n f = with_dial ka broker (via_controller ka
      \<lparr>tc_Topic = topic, tc_NumPartitions = n, tc_ReplicationFactor = f\<rparr>)" (is "_ = with_dial ka broker ?body")
    using False by (simp add: CreateTopicIfNotExists_def)
  have "opened (fst (with_dial ka broker ?body k)) = opened k"
    using via_controller_opened [OF assms] by (intro with_dial_opened assms)
  moreover have "snd (with_dial ka broker ?body k) \<noteq> Panics"
    using via_controller_returns by (intro with_dial_returns)
  ultimately show ?thesis using eq False by simp
qed (auto simp: CreateTopicIfNotExists_def ret_def)

text \<open>A cluster that hands out the address as the connection and counts the open ones.\<close>

definition plain_admin :: "(string multiset, string) kafka_admin" where
  "plain_admin = \<lparr>ka_Dial = (\<lambda>a k. (add_mset a k, Inr a)),
     ka_Controller = (\<lambda>c k. (k, Inr (''kafka'', 9092))),
     ka_CreateTopics = (\<lambda>c t k. (k, Some (Ext ''not the controller''))),
     ka_Close = (\<lambda>c k. (k - {#c#}, None))\<rparr>"

lemma plain_admin_counts: "counts_connections plain_admin (\<lambda>k. k)"
  by (simp add: counts_connections_def plain_admin_def)

lemma CreateTopicIfNotExists_closes_connections_witness:
  "fst (CreateTopicIfNotExists plain_admin [''kafka:9092''] ''orders'' 1 1 {#}) = {#} \<and>
   snd (CreateTopicIfNotExists plain_admin [] ''orders'' 1 1 {#}) = Panics"
  using CreateTopicIfNotExists_closes_connections [OF plain_admin_counts, of "[''kafka:9092'']" "''orders''" 1 1 "{#}"]
    CreateTopicIfNotExists_closes_connections [OF plain_admin_counts, of "[]" "''orders''" 1 1 "{#}"]
  by simp

section \<open>Retrying\<close>

text \<open>What \<open>CreateTopicWithRetry\<close> works on: the cluster, the lines it prints and its sleeps in nanoseconds.\<close>

record 'k retry_world =
  rw_kafka :: 'k
  rw_out :: "string list"
  rw_slept :: "int list"

definition print_failure :: "int \<Rightarrow> go_error option \<Rightarrow> ('k retry_world, unit) run" where
  "print_failure i err w =
     (w\<lparr>rw_out := rw_out w @ [''Attempt '' @ itoa (i + 1) @ '' failed: '' @
          (case err of None \<Rightarrow> ''<nil>'' | Some e \<Rightarrow> err_text e)]\<rparr>, Returns ())"

text \<open>\<open>time.Sleep(time.Second * time.Duration(i))\<close>, a product of 64-bit integers.\<close>

definition sleep_seconds :: "int \<Rightarrow> ('k retry_world, unit) run" where
  "sleep_seconds i w =
     (w\<lparr>rw_slept := rw_slept w @ [sint (word_of_int 1000000000 * word_of_int i :: 64 word)]\<rparr>, Returns ())"

definition on_kafka :: "('k, 'a) run \<Rightarrow> ('k retry_world, 'a) run" where
  "on_kafka f w = (let (k, r) = f (rw_kafka w) in (w\<lparr>rw_kafka := k\<rparr>, r))"

text \<open>The loop from \<open>i\<close> with \<open>n\<close> rounds left.\<close>

primrec retry_loop ::
  "('k, go_error option) run \<Rightarrow> nat \<Rightarrow> int \<Rightarrow> go_error option \<Rightarrow> ('k retry_world, go_error option) run" where
  "retry_loop create 0 i err = ret err"
| "retry_loop create (Suc n) i err =
     bind_run (on_kafka create) (\<lambda>err.
       if err = None then ret None
       else bind_run (print_failure i err) (\<lambda>_.
            bind_run (sleep_seconds i) (\<lambda>_.
            retry_loop create n (i + 1) err)))"

definition CreateTopicWithRetry ::
  "('k, 'c) kafka_admin \<Rightarrow> string list \<Rightarrow> string \<Rightarrow> go_int \<Rightarrow> go_int \<Rightarrow> go_int \<Rightarrow>
   ('k retry_world, go_error option) run" where
  "CreateTopicWithRetry ka brokers topic numPartitions replicationFactor retries =
     retry_loop (CreateTopicIfNotExists ka brokers topic numPartitions replicationFactor)
       (nat (sint retries)) 0 None"

text \<open>The states of the cluster after 0, 1, ... attempts.\<close>

primrec after_attempts :: "('k, go_error option) run \<Rightarrow> nat \<Rightarrow> 'k \<Rightarrow> 'k" where
  "after_attempts create 0 k = k"
| "after_attempts create (Suc n) k = after_attempts create n (fst (create k))"

definition attempt_fails :: "('k, go_error option) run \<Rightarrow> 'k \<Rightarrow> nat \<Rightarrow> bool" where
  "attempt_fails create k j \<longleftrightarrow> (\<exists>e. snd (create (after_attempts create j k)) = Returns (Some e))"

text \<open>The result after \<open>j\<close> failed attempts and a successful one, and after failed ones only.\<close>

lemma retry_loop_fails:
  assumes "\<forall>j < n. attempt_fails create (rw_kafka w) j" "n > 0"
  shows "\<exists>w' e. retry_loop create n i err w = (w', Returns (Some e)) \<and>
    rw_kafka w' = after_attempts create n (rw_kafka w) \<and> length (rw_slept w') = length (rw_slept w) + n"
  using assms
proof (induction n arbitrary: i err w)
  case (Suc n)
  from Suc.prems(1) obtain e where e: "snd (create (rw_kafka w)) = Returns (Some e)"
    by (fastforce simp: attempt_fails_def)
  obtain k' where c: "create (rw_kafka w) = (k', Returns (Some e))" using e by (metis prod.collapse)
  let ?w1 = "fst (sleep_seconds i (fst (print_failure i (Some e) (w\<lparr>rw_kafka := k'\<rparr>))))"
  have w1: "retry_loop create (Suc n) i err w = retry_loop create n (i + 1) (Some e) ?w1"
    using c by (simp add: bind_run_def on_kafka_def print_failure_def sleep_seconds_def)
  have k1: "rw_kafka ?w1 = k'" "length (rw_slept ?w1) = Suc (length (rw_slept w))"
    by (simp_all add: print_failure_def sleep_seconds_def)
  show ?case
  proof (cases n)
    case 0
    then show ?thesis using w1 c k1 by (simp add: ret_def)
  next
    case (Suc m)
    have "attempt_fails create (rw_kafka ?w1) j" if "j < n" for j
      using Suc.prems(1) [rule_format, of "Suc j"] that c k1 by (simp add: attempt_fails_def)
    then show ?thesis using Suc.IH [of ?w1 "i + 1" "Some e"] Suc w1 c k1 by auto
  qed
qed simp

lemma retry_loop_succeeds:
  assumes "\<forall>j < m. attempt_fails create (rw_kafka w) j" "m < n"
    "snd (create (after_attempts create m (rw_kafka w))) = Returns None"
  shows "\<exists>w'. retry_loop create n i err w = (w', Returns None) \<and>
    rw_kafka w' = after_attempts create (Suc m) (rw_kafka w) \<and> length (rw_slept w') = length (rw_slept w) + m"
  using assms
proof (induction m arbitrary: n i err w)
  case 0
  then obtain n' where n: "n = Suc n'" by (cases n) auto
  obtain k' where "create (rw_kafka w) = (k', Returns None)" using 0 by (metis after_attempts.simps(1) prod.collapse)
  then show ?case using n by (simp add: bind_run_def on_kafka_def ret_def)
next
  case (Suc m)
  then obtain n' where n: "n = Suc n'" by (cases n) auto
  from Suc.prems(1) obtain e where "snd (create (rw_kafka w)) = Returns (Some e)"
    by (fastforce simp: attempt_fails_def)
  then obtain k' where c: "create (rw_kafka w) = (k', Returns (Some e))" by (metis prod.collapse)
  let ?w1 = "fst (sleep_seconds i (fst (print_failure i (Some e) (w\<lparr>rw_kafka := k'\<rparr>))))"
  have w1: "retry_loop create n i err w = retry_loop create n' (i + 1) (Some e) ?w1"
    using c n by (simp add: bind_run_def on_kafka_def print_failure_def sleep_seconds_def)
  have k1: "rw_kafka ?w1 = k'" "length (rw_slept ?w1) = Suc (length (rw_slept w))"
    by (simp_all add: print_failure_def sleep_seconds_def)
  have "attempt_fails create (rw_kafka ?w1) j" if "j < m" for j
    using Suc.prems(1) [rule_format, of "Suc j"] that c k1 by (simp add: attempt_fails_def)
  then show ?case using Suc.IH [of ?w1 n' "i + 1" "Some e"] Suc.prems(2,3) n w1 c k1 by auto
qed

text \<open>
  C38: \<open>CreateTopicWithRetry\<close> tries until the first success and at most
  \<open>retries\<close> times, sleeping once after each failure: it returns nil when one of the first
  \<open>retries\<close> attempts succeeds, and the last error when they all fail. With no retries it
  returns nil too, although it has not tried to create the topic.
\<close>

theorem CreateTopicWithRetry_tries:
  fixes ka :: "('k, 'c) kafka_admin"
  defines "create \<equiv> \<lambda>b t p f. CreateTopicIfNotExists ka b t p f"
  shows "(sint retries \<le> 0 \<longrightarrow> CreateTopicWithRetry ka b t p f retries w = (w, Returns None)) \<and>
    (\<forall>m. m < nat (sint retries) \<and> (\<forall>j < m. attempt_fails (create b t p f) (rw_kafka w) j) \<and>
         snd (create b t p f (after_attempts (create b t p f) m (rw_kafka w))) = Returns None \<longrightarrow>
       (\<exists>w'. CreateTopicWithRetry ka b t p f retries w = (w', Returns None) \<and>
          rw_kafka w' = after_attempts (create b t p f) (Suc m) (rw_kafka w) \<and>
          length (rw_slept w') = length (rw_slept w) + m)) \<and>
    (0 < sint retries \<and> (\<forall>j < nat (sint retries). attempt_fails (create b t p f) (rw_kafka w) j) \<longrightarrow>
       (\<exists>w' e. CreateTopicWithRetry ka b t p f retries w = (w', Returns (Some e)) \<and>
          rw_kafka w' = after_attempts (create b t p f) (nat (sint retries)) (rw_kafka w) \<and>
          length (rw_slept w') = length (rw_slept w) + nat (sint retries)))"
  unfolding create_def CreateTopicWithRetry_def
  using retry_loop_fails [of "nat (sint retries)" "CreateTopicIfNotExists ka b t p f" w 0 None]
    retry_loop_succeeds [of _ "CreateTopicIfNotExists ka b t p f" w "nat (sint retries)" 0 None]
  by (auto simp: ret_def)

theorem CreateTopicWithRetry_tries_witness:
  "\<exists>w' e. CreateTopicWithRetry plain_admin [''kafka:9092''] [] 1 1 3
      \<lparr>rw_kafka = {#}, rw_out = [], rw_slept = []\<rparr> = (w', Returns (Some e)) \<and> length (rw_slept w') = 3"
proof -
  have "attempt_fails (CreateTopicIfNotExists plain_admin [''kafka:9092''] [] 1 1) k j" for k j
    by (simp add: attempt_fails_def CreateTopicIfNotExists_def ret_def)
  then show ?thesis
    using CreateTopicWithRetry_tries [of 3 plain_admin "[''kafka:9092'']" "[]" 1 1
        "\<lparr>rw_kafka = {#}, rw_out = [], rw_slept = []\<rparr>"] by auto
qed

end
