(* ===== verification/Storage.thy ===== *)
theory Storage
  imports Models Logger
begin

text \<open>
  The Postgres storage of \<open>internal/ports/adapters/storage/postgres.go\<close>. The SQL
  builder (squirrel) and the driver (pgx) come from outside: a statement built with squirrel is
  the value of type \<open>squirrel\<close> that the calls describe, and \<open>pgx\<close> holds
  \<open>ToSql\<close> and the driver's functions over the state \<open>'db\<close> of the database and
  its connection. A row is the list of its values; \<open>Scan\<close> into the fields of a struct is
  written out by position.
\<close>

section \<open>Statements and driver\<close>

datatype sql_value = SqlStr string | SqlInt int | SqlTime go_time

datatype squirrel =
    InsertInto string "string list" "sql_value list"
  | SelectFrom "string list" string "string list" "(string \<times> sql_value) option" "string option" "nat option"

text \<open>
  \<open>pg_Query\<close> returns the rows that \<open>Next\<close> will deliver and the error that ends
  them, if any (\<open>rows.Err()\<close>). \<open>pg_QueryRow\<close> is \<open>QueryRow\<close> up to the
  assignment of the fields. \<open>pg_scan_err\<close> is the error of \<open>Scan\<close> on a row whose
  values do not have the types of the fields.
\<close>

record 'db pgx =
  pg_ToSql :: "squirrel \<Rightarrow> go_error + string \<times> sql_value list"
  pg_Begin :: "go_context \<Rightarrow> 'db \<Rightarrow> 'db \<times> go_error option"
  pg_Exec :: "go_context \<Rightarrow> string \<Rightarrow> sql_value list \<Rightarrow> 'db \<Rightarrow> 'db \<times> (go_error + int)"
  pg_Rollback :: "go_context \<Rightarrow> 'db \<Rightarrow> 'db \<times> go_error option"
  pg_Commit :: "go_context \<Rightarrow> 'db \<Rightarrow> 'db \<times> go_error option"
  pg_QueryRow :: "go_context \<Rightarrow> string \<Rightarrow> sql_value list \<Rightarrow> 'db \<Rightarrow> 'db \<times> (go_error + sql_value list)"
  pg_Query :: "go_context \<Rightarrow> string \<Rightarrow> sql_value list \<Rightarrow> 'db \<Rightarrow>
     'db \<times> (go_error + sql_value list list \<times> go_error option)"
  pg_scan_err :: "sql_value list \<Rightarrow> go_error"

type_synonym ('db, 'a) db_op = "'db \<Rightarrow> 'db \<times> 'a"

abbreviation int_value :: "64 word \<Rightarrow> sql_value" where
  "int_value w \<equiv> SqlInt (sint w)"

text \<open>\<open>Scan\<close> into a 64-bit integer fails when the value is out of range.\<close>

definition fits64 :: "int \<Rightarrow> bool" where
  "fits64 i \<longleftrightarrow> - (2 ^ 63) \<le> i \<and> i < 2 ^ 63"

section \<open>Saving\<close>

text \<open>The three statements built with squirrel.\<close>

definition order_insert :: "order \<Rightarrow> squirrel" where
  "order_insert order = InsertInto ''order_service.orders''
     [''order_uid'', ''track_number'', ''entry'', ''locale'', ''internal_signature'', ''customer_id'',
      ''delivery_service'', ''shardkey'', ''sm_id'', ''date_created'', ''oof_shard'']
     [SqlStr (ord_OrderUID order), SqlStr (ord_TrackNumber order), SqlStr (ord_Entry order),
      SqlStr (ord_Locale order), SqlStr (ord_InternalSignature order), SqlStr (ord_CustomerID order),
      SqlStr (ord_DeliveryService order), SqlStr (ord_ShardKey order), int_value (ord_SmID order),
      SqlTime (ord_DateCreated order), SqlStr (ord_OofShard order)]"

definition payment_insert :: "string \<Rightarrow> payment \<Rightarrow> squirrel" where
  "payment_insert orderUID payment = InsertInto ''order_service.payments''
     [''order_id'', ''transaction'', ''request_id'', ''currency'', ''provider'',
      ''amount'', ''payment_dt'', ''bank'', ''delivery_cost'', ''goods_total'', ''custom_fee'']
     [SqlStr orderUID, SqlStr (pay_Transaction payment), SqlStr (pay_RequestID payment),
      SqlStr (pay_Currency payment), SqlStr (pay_Provider payment), int_value (pay_Amount payment),
      int_value (pay_PaymentDt payment), SqlStr (pay_Bank payment), int_value (pay_DeliveryCost payment),
      int_value (pay_GoodsTotal payment), int_value (pay_CustomFee payment)]"

definition delivery_insert :: "string \<Rightarrow> delivery \<Rightarrow> squirrel" where
  "delivery_insert orderUID delivery = InsertInto ''order_service.deliveries''
     [''order_id'', ''name'', ''phone'', ''zip'', ''city'', ''address'', ''region'', ''email'']
     [SqlStr orderUID, SqlStr (dlv_Name delivery), SqlStr (dlv_Phone delivery), SqlStr (dlv_Zip delivery),
      SqlStr (dlv_City delivery), SqlStr (dlv_Address delivery), SqlStr (dlv_Region delivery),
      SqlStr (dlv_Email delivery)]"

text \<open>
  What the three functions share: build the statement, execute it, and require that one row
  was affected. The texts are those of the caller.
\<close>

definition exec_insert ::
  "'db pgx \<Rightarrow> go_context \<Rightarrow> squirrel \<Rightarrow> string \<Rightarrow> string \<Rightarrow> ('db, go_error option) db_op" where
  "exec_insert pg ctx stmt exec_text rows_text db =
     (case pg_ToSql pg stmt of
        Inl err \<Rightarrow> (db, Some (Wrap ''couldn't build an SQL query: '' err ''''))
      | Inr (sql, args) \<Rightarrow>
          (case pg_Exec pg ctx sql args db of
             (db', Inl err) \<Rightarrow> (db', Some (Wrap exec_text err ''''))
           | (db', Inr n) \<Rightarrow>
               if n \<noteq> 1
               then (db', Some (Errorf (rows_text @ '', rows affected: '' @ itoa n @ '', expected: 1'')))
               else (db', None)))"

definition saveOrder :: "'db pgx \<Rightarrow> go_context \<Rightarrow> order \<Rightarrow> ('db, go_error option) db_op" where
  "saveOrder pg ctx order =
     exec_insert pg ctx (order_insert order) ''couldn't exec save order query: '' ''couldn't save order query''"

definition savePayment ::
  "'db pgx \<Rightarrow> go_context \<Rightarrow> string \<Rightarrow> payment \<Rightarrow> ('db, go_error option) db_op" where
  "savePayment pg ctx orderUID payment =
     exec_insert pg ctx (payment_insert orderUID payment) ''couldn't exec save payment query: ''
       ''couldn't save payment''"

definition saveDelivery ::
  "'db pgx \<Rightarrow> go_context \<Rightarrow> string \<Rightarrow> delivery \<Rightarrow> ('db, go_error option) db_op" where
  "saveDelivery pg ctx orderUID delivery =
     exec_insert pg ctx (delivery_insert orderUID delivery) ''couldn't exec save delivery query: ''
       ''couldn't save delivery''"

text \<open>
  The items are written into the text of the statement with \<open>fmt.Sprintf\<close>, with no
  escaping. \<open>quoted\<close> is \<open>'%s'\<close>.
\<close>

abbreviation quote :: char where
  "quote \<equiv> CHR 39"

definition quoted :: "string \<Rightarrow> string" where
  "quoted s = quote # s @ [quote]"

fun join :: "string \<Rightarrow> string list \<Rightarrow> string" where
  "join sep [] = []"
| "join sep [s] = s"
| "join sep (s # t # ss) = s @ sep @ join sep (t # ss)"

definition item_values :: "string \<Rightarrow> order_item \<Rightarrow> string" where
  "item_values orderUID item =
     ''('' @ join '',''
       [quoted orderUID, itoa (sint (itm_ChrtID item)), quoted (itm_TrackNumber item),
        itoa (sint (itm_Price item)), quoted (itm_RID item), quoted (itm_Name item),
        itoa (sint (itm_Sale item)), quoted (itm_Size item), itoa (sint (itm_TotalPrice item)),
        itoa (sint (itm_NmID item)), quoted (itm_Brand item), itoa (sint (itm_Status item))] @ '')''"

definition item_columns :: "string list" where
  "item_columns = [''order_id'', ''chrt_id'', ''track_number'', ''price'', ''rid'', ''name'', ''sale'', ''size'',
     ''total_price'', ''nm_id'', ''brand'', ''status'']"

definition items_values :: "string \<Rightarrow> order_item list \<Rightarrow> string" where
  "items_values orderUID items = join '','' (map (item_values orderUID) items)"

definition items_sql :: "string \<Rightarrow> order_item list \<Rightarrow> string" where
  "items_sql orderUID items =
     ''INSERT INTO order_service.order_items('' @
     join '', '' (map (\<lambda>c. CHR ''\"'' # c @ ''\"'') item_columns) @ '') VALUES '' @
     items_values orderUID items"

definition saveItems ::
  "'db pgx \<Rightarrow> go_context \<Rightarrow> string \<Rightarrow> order_item list \<Rightarrow> ('db, go_error option) db_op" where
  "saveItems pg ctx orderUID items db =
     (if length items = 0 then (db, None)
      else (case pg_Exec pg ctx (items_sql orderUID items) [] db of
              (db', Inl err) \<Rightarrow> (db', Some (Wrap ''couldn't exec save items query: '' err ''''))
            | (db', Inr _) \<Rightarrow> (db', None)))"

text \<open>
  The body of \<open>SaveOrder\<close> after \<open>Begin\<close>: the local variable \<open>err\<close> at the
  time the function returns, and the value that is returned. The result is not named, so the
  value is fixed before the deferred function runs.
\<close>

definition save_steps ::
  "'db pgx \<Rightarrow> go_context \<Rightarrow> order \<Rightarrow> ('db, go_error option \<times> go_error option) db_op" where
  "save_steps pg ctx order db =
     (case saveOrder pg ctx order db of
        (db, Some err) \<Rightarrow> (db, Some err, Some (Wrap ''couldn't save order: '' err ''''))
      | (db, None) \<Rightarrow>
     (case savePayment pg ctx (ord_OrderUID order) (ord_Payment order) db of
        (db, Some err) \<Rightarrow> (db, Some err, Some (Wrap ''error saving payment: '' err ''''))
      | (db, None) \<Rightarrow>
     (case saveDelivery pg ctx (ord_OrderUID order) (ord_Delivery order) db of
        (db, Some err) \<Rightarrow> (db, Some err, Some (Wrap ''error saving delivery: '' err ''''))
      | (db, None) \<Rightarrow>
     (case saveItems pg ctx (ord_OrderUID order) (ord_Items order) db of
        (db, Some err) \<Rightarrow> (db, Some err, Some (Wrap ''error saving items: '' err ''''))
      | (db, None) \<Rightarrow> (db, None, None)))))"

text \<open>The deferred function: the new value of \<open>err\<close>, which nobody reads any more.\<close>

definition deferred ::
  "'db pgx \<Rightarrow> go_context \<Rightarrow> go_error option \<Rightarrow> ('db, go_error option) db_op" where
  "deferred pg ctx err db =
     (let (db', err') =
        (case err of
           None \<Rightarrow> (db, None)
         | Some e \<Rightarrow>
             (let e' = Wrap ''error saving order transaction, rolling back: '' e '''' in
              case pg_Rollback pg ctx db of
                (db', None) \<Rightarrow> (db', Some e')
              | (db', Some r) \<Rightarrow>
                  (db', Some (Wrap2 ''error rolling back transaction: '' r ''. caused after this error: '' e'))))
      in pg_Commit pg ctx db')"

definition SaveOrder_pg :: "'db pgx \<Rightarrow> go_context \<Rightarrow> order \<Rightarrow> ('db, go_error option) db_op" where
  "SaveOrder_pg pg ctx order db =
     (case pg_Begin pg ctx db of
        (db, Some err) \<Rightarrow> (db, Some (Errorf (''couldn't start transaction: '' @ err_text err)))
      | (db, None) \<Rightarrow>
          (let (db, err, result) = save_steps pg ctx order db;
               (db, _) = deferred pg ctx err db
           in (db, result)))"

section \<open>Reading\<close>

definition base_columns :: "string list" where
  "base_columns =
     [''o.order_uid'', ''o.track_number'', ''o.entry'', ''o.locale'', ''o.internal_signature'',
      ''o.customer_id'', ''o.delivery_service'', ''o.shardkey'', ''o.sm_id'', ''o.date_created'',
      ''o.oof_shard'', ''o.created_at'', ''o.updated_at'',
      ''d.order_id'', ''d.name'', ''d.phone'', ''d.zip'', ''d.city'', ''d.address'', ''d.region'', ''d.email'',
      ''p.order_id'', ''p.transaction'', ''p.request_id'', ''p.currency'', ''p.provider'', ''p.amount'',
      ''p.payment_dt'', ''p.bank'', ''p.delivery_cost'', ''p.goods_total'', ''p.custom_fee'']"

definition base_select :: "string \<Rightarrow> squirrel" where
  "base_select orderID = SelectFrom base_columns ''order_service.orders o''
     [''order_service.deliveries d ON d.order_id = o.order_uid'',
      ''order_service.payments p ON p.order_id = o.order_uid'',
      ''order_service.order_items i ON i.order_id = o.order_uid'']
     (Some (''order_uid'', SqlStr orderID)) None None"

text \<open>\<open>uint64(limit)\<close> reads the word of a negative limit as a large number.\<close>

definition last_select :: "go_int \<Rightarrow> squirrel" where
  "last_select limit = SelectFrom base_columns ''order_service.orders o''
     [''order_service.deliveries d ON d.order_id = o.order_uid'',
      ''order_service.payments p ON p.order_id = o.order_uid'']
     None (Some ''o.created_at DESC'') (Some (unat limit))"

definition items_select :: "string \<Rightarrow> squirrel" where
  "items_select orderID = SelectFrom item_columns ''order_items'' [] (Some (''order_id'', SqlStr orderID)) None None"

text \<open>
  \<open>Scan\<close> takes the values of the row one by one into its destinations; the last
  destination must take the last value.
\<close>

fun scan_str :: "sql_value list \<Rightarrow> (string \<times> sql_value list) option" where
  "scan_str (SqlStr s # row) = Some (s, row)"
| "scan_str _ = None"

fun scan_int :: "sql_value list \<Rightarrow> (64 word \<times> sql_value list) option" where
  "scan_int (SqlInt i # row) = (if fits64 i then Some (word_of_int i, row) else None)"
| "scan_int _ = None"

fun scan_time :: "sql_value list \<Rightarrow> (go_time \<times> sql_value list) option" where
  "scan_time (SqlTime t # row) = Some (t, row)"
| "scan_time _ = None"

definition scan_end :: "sql_value list \<Rightarrow> unit option" where
  "scan_end row = (if row = [] then Some () else None)"

text \<open>The fields of an order, a delivery and a payment, in the order of the code.\<close>

definition scan_base :: "sql_value list \<Rightarrow> order option" where
  "scan_base row =
     do {
       (uid, row) \<leftarrow> scan_str row;
       (track, row) \<leftarrow> scan_str row;
       (entry, row) \<leftarrow> scan_str row;
       (loc, row) \<leftarrow> scan_str row;
       (sig, row) \<leftarrow> scan_str row;
       (customer, row) \<leftarrow> scan_str row;
       (service, row) \<leftarrow> scan_str row;
       (shard, row) \<leftarrow> scan_str row;
       (sm, row) \<leftarrow> scan_int row;
       (created, row) \<leftarrow> scan_time row;
       (oof, row) \<leftarrow> scan_str row;
       (created_at, row) \<leftarrow> scan_time row;
       (updated_at, row) \<leftarrow> scan_time row;
       (d_id, row) \<leftarrow> scan_str row;
       (d_name, row) \<leftarrow> scan_str row;
       (d_phone, row) \<leftarrow> scan_str row;
       (d_zip, row) \<leftarrow> scan_str row;
       (d_city, row) \<leftarrow> scan_str row;
       (d_address, row) \<leftarrow> scan_str row;
       (d_region, row) \<leftarrow> scan_str row;
       (d_email, row) \<leftarrow> scan_str row;
       (p_id, row) \<leftarrow> scan_str row;
       (p_trans, row) \<leftarrow> scan_str row;
       (p_req, row) \<leftarrow> scan_str row;
       (p_cur, row) \<leftarrow> scan_str row;
       (p_prov, row) \<leftarrow> scan_str row;
       (p_amount, row) \<leftarrow> scan_int row;
       (p_dt, row) \<leftarrow> scan_int row;
       (p_bank, row) \<leftarrow> scan_str row;
       (p_cost, row) \<leftarrow> scan_int row;
       (p_goods, row) \<leftarrow> scan_int row;
       (p_fee, row) \<leftarrow> scan_int row;
       scan_end row;
       Some (zero_order\<lparr>ord_OrderUID := uid, ord_TrackNumber := track, ord_Entry := entry,
        ord_Locale := loc, ord_InternalSignature := sig, ord_CustomerID := customer,
        ord_DeliveryService := service, ord_ShardKey := shard, ord_SmID := sm,
        ord_DateCreated := created, ord_OofShard := oof, ord_CreatedAt := created_at,
        ord_UpdatedAt := updated_at,
        ord_Delivery := \<lparr>dlv_OrderID = d_id, dlv_Name = d_name, dlv_Phone = d_phone, dlv_Zip = d_zip,
          dlv_City = d_city, dlv_Address = d_address, dlv_Region = d_region, dlv_Email = d_email\<rparr>,
        ord_Payment := \<lparr>pay_OrderID = p_id, pay_Transaction = p_trans, pay_RequestID = p_req,
          pay_Currency = p_cur, pay_Provider = p_prov, pay_Amount = p_amount, pay_PaymentDt = p_dt,
          pay_Bank = p_bank, pay_DeliveryCost = p_cost, pay_GoodsTotal = p_goods,
          pay_CustomFee = p_fee\<rparr>\<rparr>)
     }"

definition scan_item :: "sql_value list \<Rightarrow> order_item option" where
  "scan_item row =
     do {
       (o_id, row) \<leftarrow> scan_str row;
       (chrt, row) \<leftarrow> scan_int row;
       (track, row) \<leftarrow> scan_str row;
       (price, row) \<leftarrow> scan_int row;
       (rid, row) \<leftarrow> scan_str row;
       (nm, row) \<leftarrow> scan_str row;
       (sale, row) \<leftarrow> scan_int row;
       (sz, row) \<leftarrow> scan_str row;
       (total, row) \<leftarrow> scan_int row;
       (nm_id, row) \<leftarrow> scan_int row;
       (brand, row) \<leftarrow> scan_str row;
       (st, row) \<leftarrow> scan_int row;
       scan_end row;
       Some \<lparr>itm_OrderID = o_id, itm_ChrtID = chrt, itm_TrackNumber = track, itm_Price = price,
        itm_RID = rid, itm_Name = nm, itm_Sale = sale, itm_Size = sz, itm_TotalPrice = total,
        itm_NmID = nm_id, itm_Brand = brand, itm_Status = st\<rparr>
     }"

definition getOrderByIDBase ::
  "'db pgx \<Rightarrow> go_context \<Rightarrow> string \<Rightarrow> ('db, go_error + order) db_op" where
  "getOrderByIDBase pg ctx orderID db =
     (case pg_ToSql pg (base_select orderID) of
        Inl err \<Rightarrow> (db, Inl (Errorf (''couldn't build and SQL query: '' @ err_text err)))
      | Inr (sql, args) \<Rightarrow>
          (let (db', res) = pg_QueryRow pg Background sql args db;
               scanned = (case res of
                   Inl err \<Rightarrow> Inl err
                 | Inr row \<Rightarrow> (case scan_base row of None \<Rightarrow> Inl (pg_scan_err pg row) | Some order \<Rightarrow> Inr order))
           in (db',
               case scanned of
                 Inl err \<Rightarrow>
                   if errors_is err ErrNoRows then Inl (Sentinel ErrOrderNotFound)
                   else Inl (Wrap ''error mapping query result fields: '' err '''')
               | Inr order \<Rightarrow>
                   if ord_OrderUID order = [] then Inl (Sentinel ErrOrderNotFound) else Inr order)))"

text \<open>
  The loops over \<open>rows.Next()\<close>: they stop when there is no next row, for whatever reason,
  and the code does not look at \<open>rows.Err()\<close>.
\<close>

primrec scan_rows ::
  "(sql_value list \<Rightarrow> 'a option) \<Rightarrow> (sql_value list \<Rightarrow> go_error) \<Rightarrow> sql_value list list \<Rightarrow> go_error + 'a list" where
  "scan_rows scan scan_err [] = Inr []"
| "scan_rows scan scan_err (row # rows) =
     (case scan row of
        None \<Rightarrow> Inl (scan_err row)
      | Some x \<Rightarrow> (case scan_rows scan scan_err rows of Inl e \<Rightarrow> Inl e | Inr xs \<Rightarrow> Inr (x # xs)))"

definition getLastOrdersBase ::
  "'db pgx \<Rightarrow> go_context \<Rightarrow> go_int \<Rightarrow> ('db, go_error + order list) db_op" where
  "getLastOrdersBase pg ctx limit db =
     (case pg_ToSql pg (last_select limit) of
        Inl err \<Rightarrow> (db, Inl (Errorf (''couldn't build and SQL query: '' @ err_text err)))
      | Inr (sql, args) \<Rightarrow>
          (case pg_Query pg ctx sql args db of
             (db', Inl err) \<Rightarrow> (db', Inl (Errorf (''couldn't query last orders: '' @ err_text err)))
           | (db', Inr (rows, rows_err)) \<Rightarrow>
               (db', case scan_rows scan_base (pg_scan_err pg) rows of
                       Inl err \<Rightarrow> Inl (Errorf (''couldn't scan order: '' @ err_text err))
                     | Inr orders \<Rightarrow> Inr orders)))"

definition getOrderItemsByID ::
  "'db pgx \<Rightarrow> go_context \<Rightarrow> string \<Rightarrow> ('db, go_error + order_item list) db_op" where
  "getOrderItemsByID pg ctx orderID db =
     (case pg_ToSql pg (items_select orderID) of
        Inl err \<Rightarrow> (db, Inl (Errorf (''couldn't build items query: '' @ err_text err)))
      | Inr (sql, args) \<Rightarrow>
          (case pg_Query pg ctx sql args db of
             (db', Inl err) \<Rightarrow> (db', Inl (Errorf (''couldn't query items: '' @ err_text err)))
           | (db', Inr (rows, rows_err)) \<Rightarrow>
               (db', case scan_rows scan_item (pg_scan_err pg) rows of
                       Inl err \<Rightarrow> Inl (Errorf (''couldn't scan item: '' @ err_text err))
                     | Inr items \<Rightarrow> Inr items)))"

text \<open>
  The two goroutines of \<open>GetOrderByID\<close> in the order in which they use the database and
  end; \<open>Wait\<close> returns the first error.
\<close>

definition GetOrderByID ::
  "'db pgx \<Rightarrow> bool \<Rightarrow> go_context \<Rightarrow> string \<Rightarrow> ('db, order \<times> go_error option) db_op" where
  "GetOrderByID pg items_first ctx orderID db =
     (let (db1, base, items) =
        (if items_first
         then (let (d, items) = getOrderItemsByID pg ctx orderID db; (d', base) = getOrderByIDBase pg ctx orderID d
               in (d', base, items))
         else (let (d, base) = getOrderByIDBase pg ctx orderID db; (d', items) = getOrderItemsByID pg ctx orderID d
               in (d', base, items)));
          base_err = (case base of Inl e \<Rightarrow> Some (Wrap ''error trying to get order itself: '' e '''') | Inr _ \<Rightarrow> None);
          items_err = (case items of Inl e \<Rightarrow> Some (Wrap ''error trying to order items: '' e '''') | Inr _ \<Rightarrow> None);
          first_err = (if items_first then (if items_err \<noteq> None then items_err else base_err)
                       else (if base_err \<noteq> None then base_err else items_err))
      in (db1,
          case first_err of
            Some e \<Rightarrow> (zero_order, Some e)
          | None \<Rightarrow> ((projr base)\<lparr>ord_Items := projr items\<rparr>, None)))"

text \<open>
  The goroutines of \<open>GetLastOrders\<close>, one for each index, in the order given by
  \<open>schedule\<close>. Each writes its own slot of \<open>itemsList\<close>.
\<close>

primrec fetch_items ::
  "'db pgx \<Rightarrow> go_context \<Rightarrow> order list \<Rightarrow> nat list \<Rightarrow> order_item list list \<Rightarrow> go_error option \<Rightarrow>
   ('db, order_item list list \<times> go_error option) db_op" where
  "fetch_items pg ctx ordersList [] itemsList first db = (db, itemsList, first)"
| "fetch_items pg ctx ordersList (i # is) itemsList first db =
     (let uid = ord_OrderUID (ordersList ! i) in
      case getOrderItemsByID pg ctx uid db of
        (db', Inl itemsErr) \<Rightarrow>
          fetch_items pg ctx ordersList is itemsList
            (if first = None
             then Some (Wrap (''error finding items for order '' @ uid @ '': '') itemsErr '''') else first) db'
      | (db', Inr items) \<Rightarrow> fetch_items pg ctx ordersList is (itemsList[i := items]) first db')"

definition GetLastOrders_pg ::
  "'db pgx \<Rightarrow> nat list \<Rightarrow> go_context \<Rightarrow> go_int \<Rightarrow> ('db, order list \<times> go_error option) db_op" where
  "GetLastOrders_pg pg schedule ctx limit db =
     (case getLastOrdersBase pg ctx limit db of
        (db', Inl err) \<Rightarrow> (db', [], Some (Errorf (''couldn't get last orders: '' @ err_text err)))
      | (db', Inr ordersList) \<Rightarrow>
          (case fetch_items pg ctx ordersList schedule (replicate (length ordersList) []) None db' of
             (db'', _, Some err) \<Rightarrow> (db'', [], Some (Wrap ''couldn't get last orders items: '' err ''''))
           | (db'', itemsList, None) \<Rightarrow>
               (db'', map2 (\<lambda>order items. order\<lparr>ord_Items := items\<rparr>) ordersList itemsList, None)))"

end
