(* ===== verification/Startup.thy ===== *)
theory Startup
  imports OrderReceiver HttpHandler KafkaAdmin Storage
begin

text \<open>
  Starting the service: the configuration (\<open>internal/config/config.go\<close> and the
  \<open>Config\<close> types of \<open>pkg/kafka\<close> and \<open>pkg/postgres\<close>), opening the database
  (\<open>pkg/postgres/postgres.go\<close>), the Kafka reader (\<open>pkg/kafka/kafka.go\<close>), the
  Postgres storage as a port, and \<open>main\<close> (\<open>cmd/main.go\<close>) up to the point where its
  goroutines start. Reading the environment, the connection pool, the migrations and the reader
  come from outside and are parameters.
\<close>

section \<open>Configuration\<close>

record postgres_config =
  pc_Host :: string
  pc_Port :: "16 word"
  pc_Username :: string
  pc_Password :: string
  pc_Database :: string
  pc_MaxConns :: "32 word"
  pc_MinConns :: "32 word"

record kafka_config =
  kc_Host :: string
  kc_Port :: "16 word"
  kc_Brokers :: "string list"
  kc_MinBytes :: go_int
  kc_MaxBytes :: go_int
  kc_MaxWaitMs :: go_int
  kc_CommitInterval :: go_int
  kc_NumPartitions :: go_int
  kc_ReplicationFactor :: go_int

record order_service_config =
  oc_KafkaTopic :: string
  oc_KafkaGroupID :: string
  oc_HTTPPort :: go_int
  oc_CacheCapacity :: go_int
  oc_CachedOrdersOnStartupCount :: go_int
  oc_MaxSaveRetriesAmount :: go_int
  oc_MaxSaveRetriesCapacity :: go_int
  oc_SaveBackoffSeconds :: go_int

record config =
  cf_OrderService :: order_service_config
  cf_Kafka :: kafka_config
  cf_Postgres :: postgres_config

text \<open>\<open>ReadEnv\<close> is cleanenv's.\<close>

definition TryRead :: "go_error + config \<Rightarrow> go_error + config" where
  "TryRead ReadEnv =
     (case ReadEnv of
        Inl err \<Rightarrow> Inl (Wrap ''failed to read env variables after accessing .env: '' err '''')
      | Inr cfg \<Rightarrow> Inr cfg)"

section \<open>The database\<close>

definition connStringShort :: "postgres_config \<Rightarrow> string" where
  "connStringShort c =
     ''postgres://'' @ pc_Username c @ '':'' @ pc_Password c @ ''@'' @ pc_Host c @ '':'' @
     itoa (uint (pc_Port c)) @ ''/'' @ pc_Database c @ ''?sslmode=disable''"

definition connString :: "postgres_config \<Rightarrow> string" where
  "connString c =
     ''postgres://'' @ pc_Username c @ '':'' @ pc_Password c @ ''@'' @ pc_Host c @ '':'' @
     itoa (uint (pc_Port c)) @ ''/'' @ pc_Database c @ ''?sslmode=disable&pool_min_conns='' @
     itoa (sint (pc_MinConns c)) @ ''&pool_max_conns='' @ itoa (sint (pc_MaxConns c))"

text \<open>
  \<open>pgxpool.New\<close>, \<open>migrate.New\<close> and \<open>Up\<close> over the state \<open>'e\<close> of the
  environment; \<open>pl_IsNoChange\<close> is \<open>errors.Is(err, migrate.ErrNoChange)\<close>.
\<close>

record ('e, 'pool, 'm) pg_lib =
  pl_NewPool :: "go_context \<Rightarrow> string \<Rightarrow> 'e \<Rightarrow> 'e \<times> (go_error + 'pool)"
  pl_NewMigrate :: "string \<Rightarrow> string \<Rightarrow> 'e \<Rightarrow> 'e \<times> (go_error + 'm)"
  pl_Up :: "'m \<Rightarrow> 'e \<Rightarrow> 'e \<times> go_error option"
  pl_IsNoChange :: "go_error \<Rightarrow> bool"

text \<open>The error of a step that names the link it used.\<close>

definition link_error :: "string \<Rightarrow> string \<Rightarrow> go_error \<Rightarrow> go_error" where
  "link_error what link err = Errorf (what @ link @ '': '' @ err_text err)"

definition new_migrate :: "('e, 'pool, 'm) pg_lib \<Rightarrow> postgres_config \<Rightarrow> 'e \<Rightarrow> 'e \<times> (go_error + 'm)" where
  "new_migrate lib c = pl_NewMigrate lib ''file:///app/db/migrations'' (connStringShort c)"

definition New_postgres ::
  "('e, 'pool, 'm) pg_lib \<Rightarrow> go_context \<Rightarrow> postgres_config \<Rightarrow> 'e \<Rightarrow> 'e \<times> (go_error + 'pool)" where
  "New_postgres lib ctx c e =
     (case pl_NewPool lib ctx (connString c) e of
        (e, Inl err) \<Rightarrow>
          (e, Inl (link_error ''unable to connect to postgres by link '' (connString c) err))
      | (e, Inr conn) \<Rightarrow>
          (case new_migrate lib c e of
             (e, Inl err) \<Rightarrow>
               (e, Inl (link_error ''unable to create migrations table by link '' (connStringShort c) err))
           | (e, Inr m) \<Rightarrow>
               (case pl_Up lib m e of
                  (e, Some err) \<Rightarrow>
                    if \<not> pl_IsNoChange lib err
                    then (e, Inl (Errorf (''unable to apply migrations: '' @ err_text err)))
                    else (e, Inr conn)
                | (e, None) \<Rightarrow> (e, Inr conn))))"

text \<open>\<open>NewOrdersStoragePostgres\<close>: the storage port over the database, with the schedules of its goroutines.\<close>

definition NewOrdersStoragePostgres :: "'db pgx \<Rightarrow> bool \<Rightarrow> nat list \<Rightarrow> 'db order_storage" where
  "NewOrdersStoragePostgres pg items_first schedule =
     \<lparr>sp_GetOrderByID = (\<lambda>ctx uid db. let (db', res) = GetOrderByID pg items_first ctx uid db in (db', Returns res)),
      sp_GetLastOrders = (\<lambda>ctx limit db. let (db', res) = GetLastOrders_pg pg schedule ctx limit db in (db', Returns res)),
      sp_SaveOrder = (\<lambda>ctx order db. let (db', res) = SaveOrder_pg pg ctx order db in (db', Returns res))\<rparr>"

definition occurs_in :: "string \<Rightarrow> string \<Rightarrow> bool" where
  "occurs_in s t \<longleftrightarrow> (\<exists>before behind. t = before @ s @ behind)"

lemma occurs_in_middle: "occurs_in s t \<Longrightarrow> occurs_in s (u @ t @ v)"
  unfolding occurs_in_def by (metis append_assoc)

lemma link_error_shows: "occurs_in s link \<Longrightarrow> occurs_in s (err_text (link_error what link err))"
  by (simp only: link_error_def err_text.simps) (rule occurs_in_middle)

lemma password_in_connection_strings:
  "occurs_in (pc_Password c) (connString c)" "occurs_in (pc_Password c) (connStringShort c)"
  unfolding connString_def connStringShort_def occurs_in_def by (metis append_assoc)+

text \<open>
  \<open>postgres.New\<close> gives a pool exactly when the pool opens, the migrations can be
  read and applying them works or changes nothing; and when one of the first two steps fails,
  the error it returns (which \<open>main\<close> logs) contains the database password as it is.
\<close>

lemma New_postgres_outcome:
  fixes lib :: "('e, 'pool, 'm) pg_lib"
  shows "((\<exists>e'. New_postgres lib ctx c e = (e', Inr conn)) \<longleftrightarrow>
      (\<exists>e1 e2 m. pl_NewPool lib ctx (connString c) e = (e1, Inr conn) \<and> new_migrate lib c e1 = (e2, Inr m) \<and>
         (case snd (pl_Up lib m e2) of None \<Rightarrow> True | Some err \<Rightarrow> pl_IsNoChange lib err))) \<and>
    (case pl_NewPool lib ctx (connString c) e of
       (e1, Inl err) \<Rightarrow>
         \<exists>msg. New_postgres lib ctx c e = (e1, Inl msg) \<and> occurs_in (pc_Password c) (err_text msg)
     | (e1, Inr conn) \<Rightarrow>
         (case new_migrate lib c e1 of
            (e2, Inl err) \<Rightarrow>
              \<exists>msg. New_postgres lib ctx c e = (e2, Inl msg) \<and> occurs_in (pc_Password c) (err_text msg)
          | (e2, Inr m) \<Rightarrow> True))"
proof (rule conjI)
  show "(\<exists>e'. New_postgres lib ctx c e = (e', Inr conn)) \<longleftrightarrow>
      (\<exists>e1 e2 m. pl_NewPool lib ctx (connString c) e = (e1, Inr conn) \<and> new_migrate lib c e1 = (e2, Inr m) \<and>
         (case snd (pl_Up lib m e2) of None \<Rightarrow> True | Some err \<Rightarrow> pl_IsNoChange lib err))"
    by (auto simp: New_postgres_def split: prod.splits sum.splits option.splits)
  show "case pl_NewPool lib ctx (connString c) e of
       (e1, Inl err) \<Rightarrow>
         \<exists>msg. New_postgres lib ctx c e = (e1, Inl msg) \<and> occurs_in (pc_Password c) (err_text msg)
     | (e1, Inr conn) \<Rightarrow>
         (case new_migrate lib c e1 of
            (e2, Inl err) \<Rightarrow>
              \<exists>msg. New_postgres lib ctx c e = (e2, Inl msg) \<and> occurs_in (pc_Password c) (err_text msg)
          | (e2, Inr m) \<Rightarrow> True)"
    using link_error_shows [OF password_in_connection_strings(1)]
      link_error_shows [OF password_in_connection_strings(2)]
    by (auto simp: New_postgres_def split: prod.splits sum.splits)
qed

text \<open>A library whose pool does not open.\<close>

definition refusing_pg :: "(unit, unit, unit) pg_lib" where
  "refusing_pg = \<lparr>pl_NewPool = (\<lambda>ctx s e. (e, Inl (Ext ''connection refused''))),
     pl_NewMigrate = (\<lambda>src s e. (e, Inr ())), pl_Up = (\<lambda>m e. (e, None)), pl_IsNoChange = (\<lambda>_. False)\<rparr>"

definition sample_pg_config :: postgres_config where
  "sample_pg_config = \<lparr>pc_Host = ''localhost'', pc_Port = 5432, pc_Username = ''postgres'',
     pc_Password = ''1234'', pc_Database = ''postgres'', pc_MaxConns = 10, pc_MinConns = 5\<rparr>"

lemma New_postgres_outcome_witness:
  "\<exists>msg. New_postgres refusing_pg Background sample_pg_config () = ((), Inl msg) \<and> occurs_in ''1234'' (err_text msg)"
  using New_postgres_outcome [of refusing_pg Background sample_pg_config "()" "()"]
  by (simp add: refusing_pg_def sample_pg_config_def)

section \<open>The Kafka reader\<close>

record reader_config =
  rc_Brokers :: "string list"
  rc_Topic :: string
  rc_GroupID :: string
  rc_MinBytes :: go_int
  rc_MaxBytes :: go_int
  rc_MaxWait :: int
  rc_CommitInterval :: int

text \<open>
  \<open>time.Duration(n) * time.Millisecond\<close> and \<open>time.Duration(n) * time.Second\<close>:
  products of 64-bit integers, in nanoseconds.
\<close>

definition milliseconds :: "go_int \<Rightarrow> int" where
  "milliseconds n = sint (n * 1000000)"

definition seconds :: "go_int \<Rightarrow> int" where
  "seconds n = sint (n * 1000000000)"

text \<open>\<open>kafka_NewReader\<close> is kafka-go's, which panics on a configuration that it rejects.\<close>

definition NewReader ::
  "go_error option \<Rightarrow> (reader_config \<Rightarrow> 'rd outcome) \<Rightarrow> go_context \<Rightarrow> kafka_config \<Rightarrow> string \<Rightarrow> string \<Rightarrow>
   ('rd \<times> log_record) outcome" where
  "NewReader z kafka_NewReader ctx cfg topic groupID =
     bind_outcome (GetOrCreateLoggerFromCtx z ctx) (\<lambda>l.
     bind_outcome (kafka_NewReader
         \<lparr>rc_Brokers = kc_Brokers cfg, rc_Topic = topic, rc_GroupID = groupID,
          rc_MinBytes = kc_MinBytes cfg, rc_MaxBytes = kc_MaxBytes cfg,
          rc_MaxWait = milliseconds (kc_MaxWaitMs cfg),
          rc_CommitInterval = milliseconds (kc_CommitInterval cfg)\<rparr>) (\<lambda>r.
     bind_outcome (Info l ctx ''connected to Kafka topic''
         [(''brokers'', join '' '' (kc_Brokers cfg)), (''topic'', topic), (''group_id'', groupID)]) (\<lambda>rec.
     Returns (r, rec))))"

section \<open>main\<close>

text \<open>\<open>Fatal\<close> ends the process; a panic crashes it.\<close>

datatype 'a startup = Exits log_record | Crashes | Runs 'a

definition calling :: "'a outcome \<Rightarrow> ('a \<Rightarrow> 'b startup) \<Rightarrow> 'b startup" where
  "calling res k = (case res of Panics \<Rightarrow> Crashes | Returns a \<Rightarrow> k a)"

definition or_fatal :: "go_context \<Rightarrow> string \<Rightarrow> go_error + 'a \<Rightarrow> ('a \<Rightarrow> 'b startup) \<Rightarrow> 'b startup" where
  "or_fatal ctx msg res k =
     (case res of
        Inr a \<Rightarrow> k a
      | Inl err \<Rightarrow> (case ctx_log Fatal ctx msg (zap_Error (Some err)) of
                     Panics \<Rightarrow> Crashes | Returns rec \<Rightarrow> Exits rec))"

text \<open>
  What \<open>main\<close> gets from outside: the error of creating the logger, the environment
  variables, the database library and its state, the cluster, kafka-go's reader, the storage
  that works on a pool with its state, the order in which the goroutines of the error group run,
  the error of creating the server's metrics, the default handlers of the server and the clock.
\<close>

record ('e, 'pool, 'm, 'k, 'c, 'rd, 'st) main_env =
  me_zap_err :: "go_error option"
  me_ReadEnv :: "go_error + config"
  me_pg :: "('e, 'pool, 'm) pg_lib"
  me_env :: 'e
  me_admin :: "('k, 'c) kafka_admin"
  me_cluster :: 'k
  me_NewReader :: "reader_config \<Rightarrow> 'rd outcome"
  me_storage :: "'pool \<Rightarrow> 'st order_storage \<times> 'st"
  me_schedule :: "order list \<Rightarrow> order list"
  me_metrics :: "go_error option"
  me_NotFound :: "response \<Rightarrow> response"
  me_ErrorHandler :: "server_error \<Rightarrow> response \<Rightarrow> response"
  me_now :: go_time

text \<open>The parts that \<open>main\<close> has built when it starts the server and the receiver.\<close>

record ('st, 'msg, 'rd) app =
  app_ctx :: go_context
  app_storage :: "'st order_storage"
  app_world :: "('st, (string, order) lru) world"
  app_receiver :: "(order, 'msg, 'rd) kafka_receiver"
  app_server :: "('st, (string, order) lru) world api_handler \<times> ('st, (string, order) lru) world server_config"
  app_addr :: string

text \<open>From the connections on: the service region, the setup and the server.\<close>

definition main_service ::
  "('e, 'pool, 'm, 'k, 'c, 'rd, 'st) main_env \<Rightarrow> go_context \<Rightarrow> order_service_config \<Rightarrow> 'pool \<Rightarrow> 'rd \<Rightarrow>
   ('st, 'msg, 'rd) app startup" where
  "main_service env ctx svc pool kafkaConsumer =
     (let (storageAdapter, st) = me_storage env pool;
          z = me_zap_err env;
          w = \<lparr>wd_storage = st, wd_cache = NewOrderCacheAdapterInMemoryLRU (sint (oc_CacheCapacity svc)),
               wd_logs = [], wd_tasks = []\<rparr> in
      calling (NewKafkaReceiver kafkaConsumer (sint (oc_MaxSaveRetriesAmount svc))
          (sint (oc_MaxSaveRetriesCapacity svc)) (seconds (oc_SaveBackoffSeconds svc)) (me_now env)) (\<lambda>receiverAdapter.
      case bind_run
          (CacheLastOrders (lru_order_port z) storageAdapter (me_schedule env) ctx (oc_CachedOrdersOnStartupCount svc))
          (\<lambda>err. case err of
              Some e \<Rightarrow> say Error ctx ''failed to cache last orders''
                (zap_Error err @ [(''limit'', itoa (sint (oc_CachedOrdersOnStartupCount svc)))])
            | None \<Rightarrow> ret ()) w of
        (w, Panics) \<Rightarrow> Crashes
      | (w, Returns _) \<Rightarrow>
          or_fatal ctx ''failed to create http server''
            (NewServer (me_NotFound env) (me_ErrorHandler env) (me_metrics env)
               (NewOrderServiceHTTPHandler z (lru_order_port z) storageAdapter)
               [WithMiddleware hd [LoggingMiddleware z z]]) (\<lambda>srv.
          Runs \<lparr>app_ctx = ctx, app_storage = storageAdapter, app_world = w, app_receiver = receiverAdapter,
                app_server = srv, app_addr = '':'' @ itoa (sint (oc_HTTPPort svc))\<rparr>)))"

definition main_startup ::
  "('e, 'pool, 'm, 'k, 'c, 'rd, 'st) main_env \<Rightarrow> ('st, 'msg, 'rd) app startup" where
  "main_startup env =
     (let z = me_zap_err env in
      calling (New_logger_ctx z Background) (\<lambda>(ctx, _).
      or_fatal ctx ''failed to load config'' (TryRead (me_ReadEnv env)) (\<lambda>cfg.
      let kafkaCfg = cf_Kafka cfg; svc = cf_OrderService cfg in
      or_fatal ctx ''failed to connect to postgres'' (snd (New_postgres (me_pg env) ctx (cf_Postgres cfg) (me_env env))) (\<lambda>pool.
      calling (ctx_log Info ctx ''connected to postgres'' []) (\<lambda>_.
      calling (snd (CreateTopicIfNotExists (me_admin env) (kc_Brokers kafkaCfg) (oc_KafkaTopic svc)
          (kc_NumPartitions kafkaCfg) (kc_ReplicationFactor kafkaCfg) (me_cluster env))) (\<lambda>err.
      or_fatal ctx ''failed to create topic kafka'' (case err of Some e \<Rightarrow> Inl e | None \<Rightarrow> Inr ()) (\<lambda>_.
      calling (NewReader z (me_NewReader env) ctx kafkaCfg (oc_KafkaTopic svc) (oc_KafkaGroupID svc))
        (\<lambda>(kafkaConsumer, _). main_service env ctx svc pool kafkaConsumer))))))))"

text \<open>\<open>RunHTTP\<close> and \<open>ShutdownHTTP\<close>, with the result of the HTTP server's method.\<close>

definition RunHTTP :: "string \<Rightarrow> go_error option \<Rightarrow> go_context \<Rightarrow> (('st, 'ca) world, unit) run" where
  "RunHTTP addr serve_err ctx =
     bind_run (say Info ctx (''listening at '' @ addr) []) (\<lambda>_.
       case serve_err of
         Some err \<Rightarrow> say Error ctx ''failed to serve gateway'' (zap_Error (Some err))
       | None \<Rightarrow> ret ())"

definition ShutdownHTTP :: "go_error option \<Rightarrow> go_context \<Rightarrow> (('st, 'ca) world, unit) run" where
  "ShutdownHTTP shutdown_err ctx =
     (case shutdown_err of
        Some err \<Rightarrow> say Warn ctx ''failed to shutdown http server'' (zap_Error (Some err))
      | None \<Rightarrow> ret ())"

section \<open>What a started process satisfies\<close>

lemma calling_Runs: "calling res k = Runs a \<longleftrightarrow> (\<exists>b. res = Returns b \<and> k b = Runs a)"
  by (cases res) (simp_all add: calling_def)

lemma or_fatal_Runs: "or_fatal ctx msg res k = Runs a \<longleftrightarrow> (\<exists>b. res = Inr b \<and> k b = Runs a)"
  by (cases res) (auto simp: or_fatal_def split: outcome.split)

lemmas startup_Runs = calling_Runs or_fatal_Runs

lemma no_logger_crashes:
  assumes "me_zap_err env = Some e"
  shows "main_startup env = Crashes"
proof -
  have n: "New_logger_ctx (Some e) Background = Returns (None, Some e)"
    by (simp add: New_logger_ctx_def NewLogger_def)
  show ?thesis
    using assms
    by (auto simp: main_startup_def n calling_def or_fatal_def Let_def GetLoggerFromCtx_def ctx_Value_def
        split: sum.split)
qed

text \<open>
  The process cannot start without its logger: when creating it fails, \<open>main\<close>
  ignores the error, goes on with a nil context, and crashes at the first line that logs, at the
  latest once the database is connected; it never reaches the server.
\<close>

lemma main_crashes_without_logger:
  assumes "me_zap_err env = Some e"
  shows "main_startup env = Crashes"
  by (rule no_logger_crashes [OF assms])

lemma NewKafkaReceiver_fresh:
  "NewKafkaReceiver rd m c b t = Returns r \<Longrightarrow>
     kr_ok r \<and> kr_retryChan r = [] \<and> kr_maxRetries r = m \<and> kr_chanCap r = nat c \<and> kr_fixedBackoff r = b \<and> 0 \<le> c"
  by (auto simp: NewKafkaReceiver_def kr_ok_def split: if_splits)

lemma say_inv:
  assumes "lru_orders.inv n storage w" "ctx_ok ctx" "msg \<noteq> ''error caching order''"
    "say Error ctx msg flds w = (w', r)"
  shows "lru_orders.inv n storage w'"
  using assms by (auto simp: lru_orders.inv_def)

lemma main_service_Runs:
  assumes "main_service env ctx svc pool rd = Runs app" "ctx_ok ctx" "\<forall>xs. mset (me_schedule env xs) = mset xs"
  shows "lru_orders.inv (sint (oc_CacheCapacity svc)) (app_storage app) (app_world app) \<and>
    app_storage app = fst (me_storage env pool) \<and> app_ctx app = ctx \<and>
    kr_ok (app_receiver app) \<and> kr_retryChan (app_receiver app) = [] \<and>
    kr_maxRetries (app_receiver app) = sint (oc_MaxSaveRetriesAmount svc) \<and>
    int (kr_chanCap (app_receiver app)) = sint (oc_MaxSaveRetriesCapacity svc) \<and>
    kr_fixedBackoff (app_receiver app) = seconds (oc_SaveBackoffSeconds svc) \<and>
    app_server app = (NewOrderServiceHTTPHandler (me_zap_err env) (lru_order_port (me_zap_err env)) (app_storage app),
      newServerConfig (me_NotFound env) (me_ErrorHandler env)
        [WithMiddleware hd [LoggingMiddleware (me_zap_err env) (me_zap_err env)]])"
proof -
  obtain storage st where s: "me_storage env pool = (storage, st)" by fastforce
  let ?n = "sint (oc_CacheCapacity svc)" and ?z = "me_zap_err env" and ?limit = "oc_CachedOrdersOnStartupCount svc"
  let ?w0 = "\<lparr>wd_storage = st, wd_cache = NewOrderCacheAdapterInMemoryLRU ?n, wd_logs = [], wd_tasks = []\<rparr>"
  obtain w1 res where c: "CacheLastOrders (lru_order_port ?z) storage (me_schedule env) ctx ?limit ?w0 = (w1, res)"
    by fastforce
  have i1: "lru_orders.inv ?n storage w1"
    by (rule lru_orders.CacheLastOrders_inv [OF lru_orders_start assms(2,3) c])
  have i2: "lru_orders.inv ?n storage w2" if "say Error ctx ''failed to cache last orders'' flds w1 = (w2, r)" for flds w2 r
    by (rule say_inv [OF i1 assms(2) _ that]) simp
  from assms(1) show ?thesis
    using i1 i2 c assms(2) s
    by (auto simp: main_service_def startup_Runs Let_def bind_run_def ret_def NewServer_def lru_orders.inv_def
        dest!: NewKafkaReceiver_fresh split: outcome.splits option.splits)
qed

lemma started_app:
  assumes runs: "main_startup env = Runs app" and schedule: "\<forall>xs. mset (me_schedule env xs) = mset xs"
  shows "\<exists>cfg svc pool. me_ReadEnv env = Inr cfg \<and> svc = cf_OrderService cfg \<and> me_zap_err env = None \<and>
    ctx_ok (app_ctx app) \<and> app_storage app = fst (me_storage env pool) \<and>
    lru_orders.inv (sint (oc_CacheCapacity svc)) (app_storage app) (app_world app) \<and>
    kr_ok (app_receiver app) \<and> kr_retryChan (app_receiver app) = [] \<and>
    kr_maxRetries (app_receiver app) = sint (oc_MaxSaveRetriesAmount svc) \<and>
    int (kr_chanCap (app_receiver app)) = sint (oc_MaxSaveRetriesCapacity svc) \<and>
    kr_fixedBackoff (app_receiver app) = seconds (oc_SaveBackoffSeconds svc) \<and>
    app_server app = (NewOrderServiceHTTPHandler None (lru_order_port None) (app_storage app),
      newServerConfig (me_NotFound env) (me_ErrorHandler env) [WithMiddleware hd [LoggingMiddleware None None]])"
proof -
  have z: "me_zap_err env = None"
  proof (rule ccontr)
    assume "me_zap_err env \<noteq> None"
    then obtain e where "me_zap_err env = Some e" by blast
    then show False using runs by (simp add: no_logger_crashes)
  qed
  let ?ctx = "with_logger (\<lambda>_. None)"
  have ctx: "ctx_ok ?ctx" by (rule with_logger_ok) simp
  have new: "New_logger_ctx None Background = Returns (?ctx, None)"
    by (simp add: New_logger_ctx_def NewLogger_def Background_def WithValue_def with_logger_def)
  from runs obtain cfg pool rd where cfg: "me_ReadEnv env = Inr cfg"
    and m: "main_service env ?ctx (cf_OrderService cfg) pool rd = Runs app"
    by (auto simp: main_startup_def Let_def z new startup_Runs TryRead_def split: sum.splits)
  note p = main_service_Runs [OF m ctx schedule, unfolded z]
  have "ctx_ok (app_ctx app)" using p ctx by simp
  then show ?thesis using p cfg z by blast
qed

text \<open>
  C19: What \<open>main\<close> has when it starts its server and its receiver, whatever the
  environment gave it: a context with a logger; a cache within its configured capacity,
  in which every order is filed under its id and known to the storage, now and after any later
  sequence of calls and caching goroutines of the service; a receiver with an empty retry
  channel of the configured capacity (which is then not negative), the configured number of
  retries, and the backoff in nanoseconds; and a server that puts the logging middleware before
  the handler over that cache and storage.
\<close>

theorem main_starts_sound:
  assumes runs: "main_startup env = Runs app" and schedule: "\<forall>xs. mset (me_schedule env xs) = mset xs"
  shows "\<exists>cfg svc. me_ReadEnv env = Inr cfg \<and> svc = cf_OrderService cfg \<and> ctx_ok (app_ctx app) \<and>
    (\<forall>w. service_reach (lru_order_port (me_zap_err env)) (app_storage app) (app_world app) w \<longrightarrow>
       (\<exists>ks. GetKeys (wd_cache w) = Some ks \<and> distinct ks \<and>
          int (length ks) \<le> max 0 (sint (oc_CacheCapacity svc)) \<and>
          (\<forall>k \<in> set ks. \<exists>v. lru_data (wd_cache w) k = Some v \<and> well_filed (app_storage app) k v))) \<and>
    kr_ok (app_receiver app) \<and> kr_retryChan (app_receiver app) = [] \<and>
    kr_maxRetries (app_receiver app) = sint (oc_MaxSaveRetriesAmount svc) \<and>
    int (kr_chanCap (app_receiver app)) = sint (oc_MaxSaveRetriesCapacity svc) \<and>
    kr_fixedBackoff (app_receiver app) = seconds (oc_SaveBackoffSeconds svc) \<and>
    app_server app = (NewOrderServiceHTTPHandler None (lru_order_port None) (app_storage app),
      newServerConfig (me_NotFound env) (me_ErrorHandler env) [WithMiddleware hd [LoggingMiddleware None None]])"
proof -
  obtain cfg pool where a: "me_ReadEnv env = Inr cfg" "ctx_ok (app_ctx app)"
    "lru_orders.inv (sint (oc_CacheCapacity (cf_OrderService cfg))) (app_storage app) (app_world app)"
    "kr_ok (app_receiver app) \<and> kr_retryChan (app_receiver app) = [] \<and>
     kr_maxRetries (app_receiver app) = sint (oc_MaxSaveRetriesAmount (cf_OrderService cfg)) \<and>
     int (kr_chanCap (app_receiver app)) = sint (oc_MaxSaveRetriesCapacity (cf_OrderService cfg)) \<and>
     kr_fixedBackoff (app_receiver app) = seconds (oc_SaveBackoffSeconds (cf_OrderService cfg)) \<and>
     app_server app = (NewOrderServiceHTTPHandler None (lru_order_port None) (app_storage app),
       newServerConfig (me_NotFound env) (me_ErrorHandler env) [WithMiddleware hd [LoggingMiddleware None None]])"
    using started_app [OF runs schedule] by blast
  have "\<exists>ks. GetKeys (wd_cache w) = Some ks \<and> distinct ks \<and>
      int (length ks) \<le> max 0 (sint (oc_CacheCapacity (cf_OrderService cfg))) \<and>
      (\<forall>k \<in> set ks. \<exists>v. lru_data (wd_cache w) k = Some v \<and> well_filed (app_storage app) k v)"
    if "service_reach (lru_order_port (me_zap_err env)) (app_storage app) (app_world app) w" for w
  proof -
    have "lru_orders.inv (sint (oc_CacheCapacity (cf_OrderService cfg))) (app_storage app) w"
      using a(3) lru_orders.reach_inv [OF that] by blast
    then show ?thesis
      using lru_orders.filed_bound [of _ "well_filed (app_storage app)" "wd_cache w"]
      by (auto simp: lru_orders.inv_def lru_order_port_def lru_port_def)
  qed
  then show ?thesis
    using a by (intro exI [of _ cfg] exI [of _ "cf_OrderService cfg"]) simp
qed

text \<open>An environment in which everything works, over a given storage.\<close>

definition working_env ::
  "'st order_storage \<Rightarrow> 'st \<Rightarrow> (unit, unit, unit, string multiset, string, unit, 'st) main_env" where
  "working_env storage st =
     \<lparr>me_zap_err = None,
      me_ReadEnv = Inr \<lparr>
        cf_OrderService = \<lparr>oc_KafkaTopic = ''orders'', oc_KafkaGroupID = ''group'', oc_HTTPPort = 8080,
          oc_CacheCapacity = 2, oc_CachedOrdersOnStartupCount = 5, oc_MaxSaveRetriesAmount = 3,
          oc_MaxSaveRetriesCapacity = 10, oc_SaveBackoffSeconds = 1\<rparr>,
        cf_Kafka = \<lparr>kc_Host = ''kafka'', kc_Port = 9092, kc_Brokers = [''kafka:9092''], kc_MinBytes = 10,
          kc_MaxBytes = 1048576, kc_MaxWaitMs = 500, kc_CommitInterval = 1000, kc_NumPartitions = 1,
          kc_ReplicationFactor = 1\<rparr>,
        cf_Postgres = sample_pg_config\<rparr>,
      me_pg = refusing_pg\<lparr>pl_NewPool := (\<lambda>ctx s e. (e, Inr ()))\<rparr>, me_env = (),
      me_admin = plain_admin\<lparr>ka_CreateTopics := (\<lambda>c t k. (k, None))\<rparr>, me_cluster = {#},
      me_NewReader = (\<lambda>c. Returns ()), me_storage = (\<lambda>pool. (storage, st)),
      me_schedule = (\<lambda>xs. xs), me_metrics = None,
      me_NotFound = WriteHeader 404, me_ErrorHandler = (\<lambda>e. WriteHeader 400), me_now = 100\<rparr>"

lemma working_env_runs:
  assumes "sp_GetLastOrders storage logged_ctx 5 st = (st', Returns (vs, None))" "distinct (map ord_OrderUID vs)"
  shows "\<exists>app. main_startup (working_env storage st) = Runs app"
proof -
  let ?svc = "cf_OrderService (projr (me_ReadEnv (working_env storage st)))"
  let ?w = "\<lparr>wd_storage = st, wd_cache = NewOrderCacheAdapterInMemoryLRU 2, wd_logs = [], wd_tasks = []\<rparr>"
  obtain w where "CacheLastOrders (lru_order_port None) storage (\<lambda>xs. xs) logged_ctx 5 ?w = (w, Returns None)"
    using fills_cache [where w = ?w and schedule = "\<lambda>xs. xs" and ctx = logged_ctx and storage = storage and
        limit = 5 and vs = vs and n = 2 and z = None] assms by auto
  then have "\<exists>app. main_service (working_env storage st) logged_ctx ?svc () () = Runs app"
    by (simp add: main_service_def working_env_def NewKafkaReceiver_def calling_def or_fatal_def NewServer_def ret_def)
  then show ?thesis using logged_ctx_ok
    by (simp add: main_startup_def working_env_def New_logger_ctx_def NewLogger_def Background_def WithValue_def
        calling_def or_fatal_def TryRead_def New_postgres_def new_migrate_def refusing_pg_def plain_admin_def
        CreateTopicIfNotExists_def with_dial_def closing_def via_controller_def create_on_def NewReader_def Let_def
        logged_ctx_def)
qed

lemma working_env_list: "\<exists>app. main_startup (working_env list_storage [sample_order]) = Runs app"
  by (rule working_env_runs) (auto simp: list_storage_def)

lemma working_env_fields [simp]:
  "mset (me_schedule (working_env storage st) xs) = mset xs"
  "me_storage (working_env storage st) pool = (storage, st)"
  "me_ReadEnv (working_env storage st) = Inr cfg \<Longrightarrow> sint (oc_MaxSaveRetriesCapacity (cf_OrderService cfg)) = 10"
  by (auto simp: working_env_def)

theorem main_starts_sound_witness:
  "\<exists>app :: (order list, string, unit) app. main_startup (working_env list_storage [sample_order]) = Runs app \<and>
    ctx_ok (app_ctx app) \<and> kr_ok (app_receiver app) \<and> int (kr_chanCap (app_receiver app)) = 10"
proof -
  obtain app :: "(order list, string, unit) app" where app: "main_startup (working_env list_storage [sample_order]) = Runs app"
    using working_env_list by blast
  from main_starts_sound [OF app] obtain cfg svc where "me_ReadEnv (working_env list_storage [sample_order]) = Inr cfg"
    "svc = cf_OrderService cfg" "ctx_ok (app_ctx app)" "kr_ok (app_receiver app)"
    "int (kr_chanCap (app_receiver app)) = sint (oc_MaxSaveRetriesCapacity svc)"
    by auto
  moreover from this have "int (kr_chanCap (app_receiver app)) = 10" by simp
  ultimately show ?thesis using app by blast
qed

lemma main_crashes_without_logger_witness:
  "main_startup ((working_env list_storage [])\<lparr>me_zap_err := Some (Ext ''open sink'')\<rparr>) = Crashes"
  by (rule main_crashes_without_logger [where e = "Ext ''open sink''"]) simp

section \<open>Durations\<close>

lemma times_sint:
  assumes "0 < c" "c < 2 ^ 62"
  shows "sint (n * word_of_int c :: 64 word) = sint n * c \<longleftrightarrow>
    - (2 ^ 63) \<le> sint n * c \<and> sint n * c < 2 ^ 63"
proof -
  have "sint (word_of_int c :: 64 word) = c"
    using assms by (simp add: sint_uint signed_take_bit_int_eq_self unsigned_of_int take_bit_int_eq_self)
  then have "sint (n * word_of_int c :: 64 word) = signed_take_bit 63 (sint n * c)"
    by (simp add: sint_word_ariths)
  then show ?thesis by (simp add: signed_take_bit_int_eq_self_iff)
qed


end
