(* ===== verification/Shutdown.thy ===== *)
theory Shutdown
  imports Startup
begin

text \<open>
  The end of \<open>main\<close> (\<open>cmd/main.go\<close>): after the interrupt three goroutines stop the HTTP
  server, the connection pool and the receiver, and \<open>main\<close> returns when all three are done.
  Meanwhile the receiving loop and the goroutines of its messages go on, and requests are still
  served. One step is one action of one goroutine, an iteration of the loop being a single
  action. The results of the server's \<open>Shutdown\<close> and the reader's \<open>Close\<close> come from
  outside.
\<close>

section \<open>The state of the process\<close>

text \<open>\<open>Exited\<close> is the return of \<open>main\<close>, \<open>Crashed\<close> a panic of any goroutine.\<close>

datatype main_pc = AwaitInterrupt | AwaitGroup | Exited | Crashed

record ('r, 'p, 'm) main_state =
  mn_rx :: "('r, 'p, 'm) rx_world"
  mn_sd :: shutdown
  mn_http_stopped :: bool
  mn_pool_closed :: bool
  mn_reader_closed :: bool
  mn_wg :: nat
  mn_pc :: main_pc

definition main_init :: "('r, 'p, 'm) rx_world \<Rightarrow> ('r, 'p, 'm) main_state" where
  "main_init w = \<lparr>mn_rx = w, mn_sd = sd_init, mn_http_stopped = False, mn_pool_closed = False,
     mn_reader_closed = False, mn_wg = 0, mn_pc = AwaitInterrupt\<rparr>"

definition running :: "('r, 'p, 'm) main_state \<Rightarrow> bool" where
  "running s \<longleftrightarrow> mn_pc s = AwaitInterrupt \<or> mn_pc s = AwaitGroup"

text \<open>What an action makes of the world; a panic ends the process.\<close>

definition after_action :: "('r, 'p, 'm) main_state \<Rightarrow> ('r, 'p, 'm) rx_world \<times> unit outcome \<Rightarrow> ('r, 'p, 'm) main_state" where
  "after_action s res =
     (case res of (w, Returns _) \<Rightarrow> s\<lparr>mn_rx := w\<rparr> | (w, Panics) \<Rightarrow> s\<lparr>mn_rx := w, mn_pc := Crashed\<rparr>)"

section \<open>The goroutines of the shutdown\<close>

definition wg_Done :: "('r, 'p, 'm) main_state \<Rightarrow> ('r, 'p, 'm) main_state" where
  "wg_Done s = s\<lparr>mn_wg := mn_wg s - 1\<rparr>"

text \<open>\<open>main\<close> after \<open>ctx.Done()\<close>.\<close>

definition start_shutdown :: "('r, 'p, 'm) main_state \<Rightarrow> ('r, 'p, 'm) main_state" where
  "start_shutdown s = s\<lparr>mn_wg := 3, mn_pc := AwaitGroup\<rparr>"

definition stop_http ::
  "go_context \<Rightarrow> go_error option \<Rightarrow> ('r, ('st, 'ca) world, 'm) main_state \<Rightarrow> ('r, ('st, 'ca) world, 'm) main_state" where
  "stop_http ctx shutdown_err s =
     wg_Done (after_action (s\<lparr>mn_http_stopped := True\<rparr>)
       (on_process (bind_run (ShutdownHTTP shutdown_err ctx) (\<lambda>_. say Info ctx ''server stopped'' [])) (mn_rx s)))"

definition close_pool ::
  "go_context \<Rightarrow> ('r, ('st, 'ca) world, 'm) main_state \<Rightarrow> ('r, ('st, 'ca) world, 'm) main_state" where
  "close_pool ctx s =
     wg_Done (after_action (s\<lparr>mn_pool_closed := True\<rparr>)
       (on_process (say Info ctx ''postgres pool stopped'' []) (mn_rx s)))"

text \<open>The receiver's goroutine after \<open>ShutdownOrderReceiver\<close> has returned.\<close>

definition close_consumer ::
  "go_context \<Rightarrow> go_error option \<Rightarrow> ('r, ('st, 'ca) world, 'm) main_state \<Rightarrow> ('r, ('st, 'ca) world, 'm) main_state" where
  "close_consumer ctx close_err s =
     wg_Done (after_action (s\<lparr>mn_reader_closed := True\<rparr>)
       (on_process (bind_run
          (case close_err of
             Some err \<Rightarrow> say Error ctx ''error while closing kafka consumer'' (zap_Error (Some err))
           | None \<Rightarrow> ret ())
          (\<lambda>_. say Info ctx ''kafka consumer stopped'' [])) (mn_rx s)))"

section \<open>Steps of the process\<close>

text \<open>\<open>other\<close> is what requests and caching goroutines do to the state of the service.\<close>

inductive main_step ::
  "(order, 'm, 'r) receiver_port \<Rightarrow> (string \<Rightarrow> go_error option) \<Rightarrow>
   (go_context \<Rightarrow> order \<Rightarrow> (('st, 'ca) world, go_error option) run) \<Rightarrow>
   (('st, 'ca) world \<Rightarrow> ('st, 'ca) world \<Rightarrow> bool) \<Rightarrow> go_context \<Rightarrow>
   ('r, ('st, 'ca) world, 'm) main_state \<Rightarrow> ('r, ('st, 'ca) world, 'm) main_state \<Rightarrow> bool"
  for receiver parse_address process other ctx where
  interrupt: "running s \<Longrightarrow>
    main_step receiver parse_address process other ctx s (s\<lparr>mn_sd := (mn_sd s)\<lparr>sd_cancelled := True\<rparr>\<rparr>)"
| select: "running s \<Longrightarrow> sd_looping (mn_sd s) \<Longrightarrow> c \<in> set (ready (mn_sd s)) \<Longrightarrow>
    main_step receiver parse_address process other ctx s (s\<lparr>mn_sd := take_choice c (mn_sd s)\<rparr>)"
| iterate: "running s \<Longrightarrow> sd_looping (mn_sd s) \<Longrightarrow> ready (mn_sd s) = [] \<Longrightarrow>
    receive_one receiver parse_address now ctx (mn_rx s) = Some res \<Longrightarrow>
    main_step receiver parse_address process other ctx s (after_action s res)"
| task: "running s \<Longrightarrow> i < length (rx_tasks (mn_rx s)) \<Longrightarrow> rx_tasks (mn_rx s) ! i = (v, msg) \<Longrightarrow>
    main_step receiver parse_address process other ctx s
      (after_action s (process_task receiver process ctx v msg
         ((mn_rx s)\<lparr>rx_tasks := remove_nth i (rx_tasks (mn_rx s))\<rparr>)))"
| service: "running s \<Longrightarrow> other (rx_process (mn_rx s)) p \<Longrightarrow>
    main_step receiver parse_address process other ctx s (s\<lparr>mn_rx := (mn_rx s)\<lparr>rx_process := p\<rparr>\<rparr>)"
| shutdown: "mn_pc s = AwaitInterrupt \<Longrightarrow> sd_cancelled (mn_sd s) \<Longrightarrow>
    main_step receiver parse_address process other ctx s (start_shutdown s)"
| http: "mn_pc s = AwaitGroup \<Longrightarrow> \<not> mn_http_stopped s \<Longrightarrow>
    main_step receiver parse_address process other ctx s (stop_http ctx shutdown_err s)"
| pool: "mn_pc s = AwaitGroup \<Longrightarrow> \<not> mn_pool_closed s \<Longrightarrow>
    main_step receiver parse_address process other ctx s (close_pool ctx s)"
| stop: "mn_pc s = AwaitGroup \<Longrightarrow> sd_sender (mn_sd s) = NotCalled \<Longrightarrow>
    main_step receiver parse_address process other ctx s (s\<lparr>mn_sd := StopReceivingOrders (mn_sd s)\<rparr>)"
| consumer: "mn_pc s = AwaitGroup \<Longrightarrow> sd_sender (mn_sd s) = Sent \<Longrightarrow> \<not> mn_reader_closed s \<Longrightarrow>
    main_step receiver parse_address process other ctx s (close_consumer ctx close_err s)"
| return: "mn_pc s = AwaitGroup \<Longrightarrow> mn_wg s = 0 \<Longrightarrow>
    main_step receiver parse_address process other ctx s (s\<lparr>mn_pc := Exited\<rparr>)"

section \<open>What holds when main returns\<close>

lemma after_action_simps [simp]:
  "mn_sd (after_action s res) = mn_sd s" "mn_http_stopped (after_action s res) = mn_http_stopped s"
  "mn_pool_closed (after_action s res) = mn_pool_closed s" "mn_reader_closed (after_action s res) = mn_reader_closed s"
  "mn_wg (after_action s res) = mn_wg s" "mn_rx (after_action s res) = fst res"
  "mn_pc (after_action s res) = (if snd res = Panics then Crashed else mn_pc s)"
  by (auto simp: after_action_def split: prod.split outcome.split)

lemma wg_Done_simps [simp]:
  "mn_sd (wg_Done s) = mn_sd s" "mn_http_stopped (wg_Done s) = mn_http_stopped s"
  "mn_pool_closed (wg_Done s) = mn_pool_closed s" "mn_reader_closed (wg_Done s) = mn_reader_closed s"
  "mn_wg (wg_Done s) = mn_wg s - 1" "mn_rx (wg_Done s) = mn_rx s" "mn_pc (wg_Done s) = mn_pc s"
  by (simp_all add: wg_Done_def)

lemmas closer_defs = stop_http_def close_pool_def close_consumer_def

text \<open>The counter of the wait group is the number of the goroutines that are not done.\<close>

definition finished :: "bool \<Rightarrow> bool \<Rightarrow> bool \<Rightarrow> nat" where
  "finished http pool reader = of_bool http + of_bool pool + of_bool reader"

lemma finished_True:
  "finished True p r = Suc (finished False p r)" "finished h True r = Suc (finished h False r)"
  "finished h p True = Suc (finished h p False)" "finished False False False = 0"
  by (simp_all add: finished_def)

lemma one_less:
  "n + finished False p r = 3 \<Longrightarrow> n - Suc 0 + finished False p r = 2"
  "n + finished h False r = 3 \<Longrightarrow> n - Suc 0 + finished h False r = 2"
  "n + finished h p False = 3 \<Longrightarrow> n - Suc 0 + finished h p False = 2"
  by (cases h; cases p; cases r; simp add: finished_def)+

lemma finished_all: "finished h p r = 3 \<longleftrightarrow> h \<and> p \<and> r"
  by (cases h; cases p; cases r) (simp_all add: finished_def)

definition main_inv :: "('r, 'p, 'm) main_state \<Rightarrow> bool" where
  "main_inv s \<longleftrightarrow>
     (mn_pc s = AwaitInterrupt \<longrightarrow>
        \<not> mn_http_stopped s \<and> \<not> mn_pool_closed s \<and> \<not> mn_reader_closed s \<and> sd_sender (mn_sd s) = NotCalled) \<and>
     (mn_pc s = AwaitGroup \<or> mn_pc s = Exited \<longrightarrow> sd_cancelled (mn_sd s) \<and>
        mn_wg s + finished (mn_http_stopped s) (mn_pool_closed s) (mn_reader_closed s) = 3) \<and>
     (mn_pc s = Exited \<longrightarrow> mn_wg s = 0) \<and>
     (mn_reader_closed s \<longrightarrow> sd_sender (mn_sd s) = Sent) \<and>
     (sd_sender (mn_sd s) = Sent \<longrightarrow> \<not> sd_looping (mn_sd s))"

lemma take_choice_ready:
  "c \<in> set (ready d) \<Longrightarrow> \<not> sd_looping (take_choice c d) \<and> sd_cancelled (take_choice c d) = sd_cancelled d \<and>
     sd_sender (take_choice c d) = (if c = DoneSignal then Sent else sd_sender d) \<and>
     (c = DoneSignal \<longrightarrow> sd_sender d = Sending)"
  by (auto simp: ready_def split: if_splits)

lemma after_action_inv: "running s \<Longrightarrow> main_inv s \<Longrightarrow> main_inv (after_action s res)"
  by (auto simp: main_inv_def running_def)

lemma main_step_inv: "main_step receiver parse_address process other ctx s s' \<Longrightarrow> main_inv s \<Longrightarrow> main_inv s'"
proof (induction rule: main_step.induct)
  case (select s c)
  then show ?case using take_choice_ready [OF select.hyps(3)] by (auto simp: main_inv_def running_def)
next
  case (http s shutdown_err)
  then show ?case by (auto simp: main_inv_def stop_http_def finished_True one_less)
next
  case (pool s)
  then show ?case by (auto simp: main_inv_def close_pool_def finished_True one_less)
next
  case (consumer s close_err)
  then show ?case by (auto simp: main_inv_def close_consumer_def finished_True one_less)
next
  case (stop s)
  then show ?case by (auto simp: main_inv_def StopReceivingOrders_def)
next
  case (shutdown s)
  then show ?case by (auto simp: main_inv_def start_shutdown_def finished_True)
qed (auto simp: after_action_inv, auto simp: main_inv_def running_def)

lemma main_init_inv: "main_inv (main_init w)"
  by (simp add: main_inv_def main_init_def sd_init_def)

lemma main_steps_inv:
  assumes "(main_step receiver parse_address process other ctx)\<^sup>*\<^sup>* (main_init w) s"
  shows "main_inv s"
  using assms by (induction rule: rtranclp_induct) (rule main_init_inv, rule main_step_inv)

text \<open>
  C29: When \<open>main\<close> returns after an interrupt, everything is closed and in order: the server
  has been shut down, the pool and the reader are closed, the receiving loop has ended, and it
  ended by taking the stop signal, which was sent only after the interrupt. Whatever requests,
  messages and goroutines did meanwhile.
\<close>

theorem main_returns_after_cleanup:
  assumes "(main_step receiver parse_address process other ctx)\<^sup>*\<^sup>* (main_init w) s" "mn_pc s = Exited"
  shows "mn_http_stopped s \<and> mn_pool_closed s \<and> mn_reader_closed s \<and>
    sd_cancelled (mn_sd s) \<and> sd_sender (mn_sd s) = Sent \<and> \<not> sd_looping (mn_sd s)"
  using main_steps_inv [OF assms(1)] assms(2) by (auto simp: main_inv_def finished_all)

section \<open>When main returns at all\<close>

text \<open>Once the loop has left without the stop signal, the receiver's goroutine is never done.\<close>

lemma stuck_step:
  assumes "main_step receiver parse_address process other ctx s s'" "main_inv s"
    "\<not> sd_looping (mn_sd s)" "sd_sender (mn_sd s) \<noteq> Sent" "mn_pc s \<noteq> Exited"
  shows "\<not> sd_looping (mn_sd s') \<and> sd_sender (mn_sd s') \<noteq> Sent \<and> mn_pc s' \<noteq> Exited"
  using assms
proof (induction rule: main_step.induct)
  case (return s)
  then have "\<not> mn_reader_closed s" "finished (mn_http_stopped s) (mn_pool_closed s) (mn_reader_closed s) = 3"
    by (auto simp: main_inv_def)
  then show ?case by (simp add: finished_all)
qed (auto simp: closer_defs StopReceivingOrders_def start_shutdown_def running_def)

lemma stuck_steps:
  assumes "(main_step receiver parse_address process other ctx)\<^sup>*\<^sup>* s s'" "main_inv s"
    "\<not> sd_looping (mn_sd s)" "sd_sender (mn_sd s) \<noteq> Sent" "mn_pc s \<noteq> Exited"
  shows "main_inv s' \<and> \<not> sd_looping (mn_sd s') \<and> sd_sender (mn_sd s') \<noteq> Sent \<and> mn_pc s' \<noteq> Exited"
  using assms(1)
proof (induction rule: rtranclp_induct)
  case base
  then show ?case using assms by simp
next
  case (step t u)
  then show ?case using stuck_step [OF step.hyps(2)] main_step_inv [OF step.hyps(2)] by blast
qed

text \<open>A run of the shutdown that finishes no message and leaves the receiver as it is.\<close>

definition quietly ::
  "(('r, 'p, 'm) main_state \<Rightarrow> ('r, 'p, 'm) main_state \<Rightarrow> bool) \<Rightarrow> ('r, 'p, 'm) main_state \<Rightarrow> ('r, 'p, 'm) main_state \<Rightarrow> bool" where
  "quietly step s s' \<longleftrightarrow> step\<^sup>*\<^sup>* s s' \<and> rx_tasks (mn_rx s') = rx_tasks (mn_rx s) \<and>
     rx_receiver (mn_rx s') = rx_receiver (mn_rx s)"

lemma quietly_trans: "quietly step s t \<Longrightarrow> quietly step t u \<Longrightarrow> quietly step s u"
  by (auto simp: quietly_def)

lemma quietly_refl: "quietly step s s"
  by (simp add: quietly_def)

lemma quietly_step:
  "step s s' \<Longrightarrow> rx_tasks (mn_rx s') = rx_tasks (mn_rx s) \<Longrightarrow> rx_receiver (mn_rx s') = rx_receiver (mn_rx s) \<Longrightarrow>
   quietly step s s'"
  by (auto simp: quietly_def)

lemma on_process_simps:
  "rx_tasks (fst (on_process f w)) = rx_tasks w" "rx_receiver (fst (on_process f w)) = rx_receiver w"
  "snd (on_process f w) = snd (f (rx_process w))"
  by (simp_all add: on_process_def split: prod.split)

lemma closers_quiet:
  assumes "ctx_ok ctx"
  shows "mn_pc (stop_http ctx e s) = mn_pc s" "mn_pc (close_pool ctx s) = mn_pc s" "mn_pc (close_consumer ctx e s) = mn_pc s"
    "rx_tasks (mn_rx (stop_http ctx e s)) = rx_tasks (mn_rx s)" "rx_receiver (mn_rx (stop_http ctx e s)) = rx_receiver (mn_rx s)"
    "rx_tasks (mn_rx (close_pool ctx s)) = rx_tasks (mn_rx s)" "rx_receiver (mn_rx (close_pool ctx s)) = rx_receiver (mn_rx s)"
    "rx_tasks (mn_rx (close_consumer ctx e s)) = rx_tasks (mn_rx s)"
    "rx_receiver (mn_rx (close_consumer ctx e s)) = rx_receiver (mn_rx s)"
  using assms by (auto simp: closer_defs on_process_simps ShutdownHTTP_def bind_run_def ret_def split: option.split)

lemma closer_flags [simp]:
  "mn_http_stopped (stop_http ctx e s)" "mn_sd (stop_http ctx e s) = mn_sd s"
  "mn_pool_closed (close_pool ctx s)" "mn_sd (close_pool ctx s) = mn_sd s"
  "mn_http_stopped (close_pool ctx s) = mn_http_stopped s"
  "mn_reader_closed (close_consumer ctx e s)" "mn_http_stopped (close_consumer ctx e s) = mn_http_stopped s"
  "mn_pool_closed (close_consumer ctx e s) = mn_pool_closed s"
  by (simp_all add: closer_defs)

lemma http_done:
  assumes "ctx_ok ctx" "mn_pc s = AwaitGroup"
  shows "\<exists>t. quietly (main_step receiver parse_address process other ctx) s t \<and> mn_pc t = AwaitGroup \<and>
    mn_http_stopped t \<and> mn_sd t = mn_sd s"
proof (cases "mn_http_stopped s")
  case False
  then have "main_step receiver parse_address process other ctx s (stop_http ctx None s)"
    using assms(2) by (rule main_step.http [rotated])
  then show ?thesis
    using assms(2)
    by (intro exI [of _ "stop_http ctx None s"] conjI quietly_step) (simp_all add: closers_quiet [OF assms(1)])
qed (use assms quietly_refl in blast)

lemma pool_done:
  assumes "ctx_ok ctx" "mn_pc s = AwaitGroup"
  shows "\<exists>t. quietly (main_step receiver parse_address process other ctx) s t \<and> mn_pc t = AwaitGroup \<and>
    mn_pool_closed t \<and> mn_http_stopped t = mn_http_stopped s \<and> mn_sd t = mn_sd s"
proof (cases "mn_pool_closed s")
  case False
  then have "main_step receiver parse_address process other ctx s (close_pool ctx s)"
    using assms(2) by (rule main_step.pool [rotated])
  then show ?thesis
    using assms(2)
    by (intro exI [of _ "close_pool ctx s"] conjI quietly_step) (simp_all add: closers_quiet [OF assms(1)])
qed (use assms quietly_refl in blast)

lemma consumer_done:
  assumes "ctx_ok ctx" "mn_pc s = AwaitGroup" "sd_sender (mn_sd s) = Sent"
  shows "\<exists>t. quietly (main_step receiver parse_address process other ctx) s t \<and> mn_pc t = AwaitGroup \<and>
    mn_reader_closed t \<and> mn_http_stopped t = mn_http_stopped s \<and> mn_pool_closed t = mn_pool_closed s"
proof (cases "mn_reader_closed s")
  case False
  then have "main_step receiver parse_address process other ctx s (close_consumer ctx None s)"
    by (rule main_step.consumer [OF assms(2,3)])
  then show ?thesis
    using assms(2)
    by (intro exI [of _ "close_consumer ctx None s"] conjI quietly_step) (simp_all add: closers_quiet [OF assms(1)])
qed (use assms quietly_refl in blast)

text \<open>\<open>main\<close> reaches its wait, whatever it was doing.\<close>

lemma main_waits:
  assumes "running s"
  shows "\<exists>t. quietly (main_step receiver parse_address process other ctx) s t \<and> mn_pc t = AwaitGroup \<and>
    sd_looping (mn_sd t) = sd_looping (mn_sd s) \<and> sd_sender (mn_sd t) = sd_sender (mn_sd s)"
proof (cases "mn_pc s = AwaitGroup")
  case False
  then have pc: "mn_pc s = AwaitInterrupt" using assms by (simp add: running_def)
  let ?i = "s\<lparr>mn_sd := (mn_sd s)\<lparr>sd_cancelled := True\<rparr>\<rparr>"
  have "main_step receiver parse_address process other ctx s ?i"
    using assms by (rule main_step.interrupt)
  then have "quietly (main_step receiver parse_address process other ctx) s ?i"
    by (rule quietly_step) simp_all
  moreover have "main_step receiver parse_address process other ctx ?i (start_shutdown ?i)"
    using pc by (intro main_step.shutdown) simp_all
  then have "quietly (main_step receiver parse_address process other ctx) ?i (start_shutdown ?i)"
    by (rule quietly_step) (simp_all add: start_shutdown_def)
  ultimately have "quietly (main_step receiver parse_address process other ctx) s (start_shutdown ?i)"
    by (rule quietly_trans)
  then show ?thesis by (intro exI [of _ "start_shutdown ?i"]) (simp add: start_shutdown_def)
qed (use quietly_refl in blast)

text \<open>While the loop runs, it can take the stop signal.\<close>

lemma stop_taken:
  assumes "mn_pc s = AwaitGroup" "sd_looping (mn_sd s) \<or> sd_sender (mn_sd s) = Sent"
  shows "\<exists>t. quietly (main_step receiver parse_address process other ctx) s t \<and> mn_pc t = AwaitGroup \<and>
    sd_sender (mn_sd t) = Sent"
proof (cases "sd_sender (mn_sd s)")
  case Sent
  then show ?thesis using assms quietly_refl by blast
next
  case Sending
  let ?t = "s\<lparr>mn_sd := take_choice DoneSignal (mn_sd s)\<rparr>"
  have "main_step receiver parse_address process other ctx s ?t"
    using assms Sending by (intro main_step.select) (simp_all add: running_def ready_def)
  then have "quietly (main_step receiver parse_address process other ctx) s ?t" by (rule quietly_step) simp_all
  then show ?thesis using assms by (intro exI [of _ ?t]) simp
next
  case NotCalled
  let ?p = "s\<lparr>mn_sd := StopReceivingOrders (mn_sd s)\<rparr>"
  let ?t = "?p\<lparr>mn_sd := take_choice DoneSignal (mn_sd ?p)\<rparr>"
  have "main_step receiver parse_address process other ctx s ?p"
    using assms NotCalled by (intro main_step.stop)
  then have "quietly (main_step receiver parse_address process other ctx) s ?p" by (rule quietly_step) simp_all
  moreover have "main_step receiver parse_address process other ctx ?p ?t"
    using assms NotCalled
    by (intro main_step.select) (simp_all add: running_def ready_def StopReceivingOrders_def)
  then have "quietly (main_step receiver parse_address process other ctx) ?p ?t" by (rule quietly_step) simp_all
  ultimately have "quietly (main_step receiver parse_address process other ctx) s ?t" by (rule quietly_trans)
  then show ?thesis using assms by (intro exI [of _ ?t]) simp
qed

lemma main_can_return:
  assumes "ctx_ok ctx" "main_inv s" "running s" "sd_looping (mn_sd s) \<or> sd_sender (mn_sd s) = Sent"
  shows "\<exists>t. quietly (main_step receiver parse_address process other ctx) s t \<and> mn_pc t = Exited"
proof -
  let ?q = "quietly (main_step receiver parse_address process other ctx)"
  obtain a where a: "?q s a" "mn_pc a = AwaitGroup" "sd_looping (mn_sd a) \<or> sd_sender (mn_sd a) = Sent"
    using main_waits [OF assms(3), of receiver parse_address process other ctx] assms(4) by auto
  obtain b where b: "?q a b" "mn_pc b = AwaitGroup" "sd_sender (mn_sd b) = Sent"
    using stop_taken [OF a(2,3), of receiver parse_address process other ctx] by blast
  obtain c where c: "?q b c" "mn_pc c = AwaitGroup" "mn_http_stopped c" "mn_sd c = mn_sd b"
    using http_done [OF assms(1) b(2), of receiver parse_address process other] by blast
  obtain d where d: "?q c d" "mn_pc d = AwaitGroup" "mn_pool_closed d" "mn_http_stopped d" "mn_sd d = mn_sd c"
    using pool_done [OF assms(1) c(2), of receiver parse_address process other] c(3) by blast
  obtain e where e: "?q d e" "mn_pc e = AwaitGroup" "mn_reader_closed e" "mn_http_stopped e" "mn_pool_closed e"
    using consumer_done [OF assms(1) d(2), of receiver parse_address process other] b(3) c(4) d by auto
  have q: "?q s e" using a(1) b(1) c(1) d(1) e(1) by (blast intro: quietly_trans)
  then have "(main_step receiver parse_address process other ctx)\<^sup>*\<^sup>* s e" by (simp add: quietly_def)
  then have "main_inv e"
    by (induction rule: rtranclp_induct) (auto intro: assms(2) main_step_inv)
  then have "mn_wg e = 0" using e by (simp add: main_inv_def finished_def)
  then have "main_step receiver parse_address process other ctx e (e\<lparr>mn_pc := Exited\<rparr>)"
    using e(2) by (intro main_step.return)
  then have "?q e (e\<lparr>mn_pc := Exited\<rparr>)" by (rule quietly_step) simp_all
  then show ?thesis using quietly_trans [OF q] by fastforce
qed


section \<open>A process with one message\<close>

text \<open>A receiver port that delivers the sample order and notes what finishes its message.\<close>

definition order_port :: "(order, string, finish list) receiver_port" where
  "order_port = note_port\<lparr>rp_Consume := (\<lambda>ctx r. Some (r, Returns (sample_order, ''m'', None)))\<rparr>"

definition order_process ::
  "(finish list, (order list, (string, order) lru) world, string) main_state" where
  "order_process = main_init \<lparr>rx_receiver = [], rx_process = sample_world, rx_logs = [], rx_tasks = []\<rparr>"

abbreviation order_step ::
  "(finish list, (order list, (string, order) lru) world, string) main_state \<Rightarrow>
   (finish list, (order list, (string, order) lru) world, string) main_state \<Rightarrow> bool" where
  "order_step \<equiv> main_step order_port (\<lambda>_. None) (SaveOrder list_storage) (\<lambda>_ _. False) logged_ctx"

lemma order_process_receives:
  "\<exists>s. order_step order_process s \<and> running s \<and> sd_looping (mn_sd s) \<and> sd_sender (mn_sd s) = NotCalled \<and>
     rx_tasks (mn_rx s) = [(sample_order, ''m'')] \<and> rx_receiver (mn_rx s) = []"
proof -
  let ?w = "(mn_rx order_process)\<lparr>rx_tasks := [(sample_order, ''m'')]\<rparr>"
  have "receive_one order_port (\<lambda>_. None) 2000 logged_ctx (mn_rx order_process) = Some (?w, Returns ())"
    using sample_order_valid
    by (simp add: receive_one_def after_consume_def order_port_def order_process_def main_init_def order_valid_iff)
  then have "order_step order_process (after_action order_process (?w, Returns ()))"
    by (intro main_step.iterate)
      (simp_all add: order_process_def main_init_def running_def sd_init_def ready_def)
  then show ?thesis
    by (intro exI [of _ "after_action order_process (?w, Returns ())"])
      (simp add: order_process_def main_init_def running_def sd_init_def)
qed

theorem main_returns_after_cleanup_witness:
  "\<exists>s. order_step\<^sup>*\<^sup>* order_process s \<and> mn_pc s = Exited \<and> mn_pool_closed s \<and> sd_sender (mn_sd s) = Sent"
proof -
  have "main_inv order_process" "running order_process" "sd_looping (mn_sd order_process)"
    using main_init_inv by (simp_all add: order_process_def main_init_def running_def sd_init_def)
  then obtain s where s: "order_step\<^sup>*\<^sup>* order_process s" "mn_pc s = Exited"
    using main_can_return [OF logged_ctx_ok, of order_process order_port "\<lambda>_. None" "SaveOrder list_storage" "\<lambda>_ _. False"]
    by (auto simp: quietly_def)
  then show ?thesis
    using main_returns_after_cleanup [OF s(1) [unfolded order_process_def] s(2)] by blast
qed


end
