(* ===== verification/Simulator.thy ===== *)
theory Simulator
  imports Prelude KafkaAdmin
begin

text \<open>
  The simulator service (\<open>simulator_service/\<close>), which puts the body of a request on the
  Kafka topic: its configuration, its handler and its mux. A \<open>http.ResponseWriter\<close> is the
  status and the headers sent so far and the bytes of the body; writing a body sends the status
  200 if none was sent, and a second status is ignored, as \<open>net/http\<close> does.
\<close>

section \<open>The response writer\<close>

record writer =
  wr_status :: "int option"
  wr_headers :: "(string \<times> string) list"
  wr_body :: string

definition wr_WriteHeader :: "int \<Rightarrow> writer \<Rightarrow> writer" where
  "wr_WriteHeader code w = (if wr_status w = None then w\<lparr>wr_status := Some code\<rparr> else w)"

definition wr_Write :: "string \<Rightarrow> writer \<Rightarrow> writer" where
  "wr_Write bytes w = (let w = wr_WriteHeader 200 w in w\<lparr>wr_body := wr_body w @ bytes\<rparr>)"

definition wr_Set :: "string \<Rightarrow> string \<Rightarrow> writer \<Rightarrow> writer" where
  "wr_Set k v w = w\<lparr>wr_headers := (k, v) # filter (\<lambda>h. fst h \<noteq> k) (wr_headers w)\<rparr>"

definition newline :: string where
  "newline = [CHR 10]"

definition http_Error :: "string \<Rightarrow> int \<Rightarrow> writer \<Rightarrow> writer" where
  "http_Error msg code w =
     wr_Write (msg @ newline)
       (wr_WriteHeader code
         (wr_Set ''X-Content-Type-Options'' ''nosniff''
           (wr_Set ''Content-Type'' ''text/plain; charset=utf-8'' w)))"

section \<open>The handler\<close>

record sim_message =
  sm_Key :: string
  sm_Value :: string

definition ok_body :: string where
  "ok_body = ''{'' @ CHR 34 # ''message'' @ [CHR 34] @ '': '' @ CHR 34 # ''ok'' @ [CHR 34] @ ''}''"

text \<open>
  \<open>WriteMessages\<close> is the Kafka writer's, over its state \<open>'k\<close>; \<open>body\<close> is the
  result of reading the request's body. \<open>http_Write\<close> is followed by \<open>WriteHeader\<close>,
  in the code's order.
\<close>

definition NewCreateOrderHandler ::
  "(sim_message list \<Rightarrow> 'k \<Rightarrow> 'k \<times> go_error option) \<Rightarrow> string \<Rightarrow> string \<Rightarrow> go_error + string \<Rightarrow>
   writer \<Rightarrow> 'k \<Rightarrow> 'k \<times> writer" where
  "NewCreateOrderHandler WriteMessages key method body w k =
     (if method \<noteq> ''POST'' then (k, http_Error ''Method not allowed'' 405 w)
      else case body of
        Inl err \<Rightarrow> (k, http_Error (''Bad request: '' @ err_text err) 400 w)
      | Inr body \<Rightarrow>
          (case WriteMessages [\<lparr>sm_Key = key, sm_Value = body\<rparr>] k of
             (k', Some err) \<Rightarrow> (k', http_Error (''Error sending message to Kafka: '' @ err_text err) 500 w)
           | (k', None) \<Rightarrow> (k', wr_WriteHeader 202 (wr_Write ok_body w))))"

definition new_writer :: writer where
  "new_writer = \<lparr>wr_status = None, wr_headers = [], wr_body = []\<rparr>"

text \<open>
  C40: What the simulator answers, on every branch: 405 for a method other than
  \<open>POST\<close> and 400 for a body that cannot be read, both without sending anything to Kafka;
  500 when Kafka refuses the message. A message that Kafka has taken is answered with 200
  and not with the 202 of the code: the body is written before the status. Exactly one message
  is sent, with the fixed key and the body as it is.
\<close>

theorem simulator_replies:
  fixes WriteMessages :: "sim_message list \<Rightarrow> 'k \<Rightarrow> 'k \<times> go_error option"
  shows "case NewCreateOrderHandler WriteMessages key method body new_writer k of (k', w) \<Rightarrow>
    wr_status w = Some
      (if method \<noteq> ''POST'' then 405
       else case body of
         Inl _ \<Rightarrow> 400
       | Inr b \<Rightarrow> if snd (WriteMessages [\<lparr>sm_Key = key, sm_Value = b\<rparr>] k) = None then 200 else 500) \<and>
    k' = (case body of
        Inr b \<Rightarrow> if method = ''POST'' then fst (WriteMessages [\<lparr>sm_Key = key, sm_Value = b\<rparr>] k) else k
      | Inl _ \<Rightarrow> k)"
  by (auto simp: NewCreateOrderHandler_def http_Error_def wr_Write_def wr_WriteHeader_def wr_Set_def
      new_writer_def Let_def split: sum.split prod.split option.split)

section \<open>Configuration and mux\<close>

record sim_config =
  sc_HttpPort :: string
  sc_KafkaTopic :: string
  sc_KafkaHost :: string
  sc_KafkaPort :: "16 word"
  sc_KafkaBrokers :: "string list"
  sc_KafkaNumPartitions :: go_int
  sc_KafkaReplicationFactor :: go_int

text \<open>\<open>strings.Split\<close> at a one-character separator: it gives at least one part.\<close>

fun split_at :: "char \<Rightarrow> string \<Rightarrow> string list" where
  "split_at c [] = [[]]"
| "split_at c (x # xs) =
     (if x = c then [] # split_at c xs
      else (case split_at c xs of p # ps \<Rightarrow> (x # p) # ps | [] \<Rightarrow> [[x]]))"

text \<open>
  \<open>getenv\<close> is \<open>os.Getenv\<close>. The parsers give a value even with an error, which the
  code ignores: zero for a text that is no number, and the nearest bound for one that is out of
  range.
\<close>

definition ascii_digit :: "char \<Rightarrow> bool" where
  "ascii_digit c \<longleftrightarrow> 48 \<le> (of_char c :: nat) \<and> (of_char c :: nat) \<le> 57"

definition decimal :: "string \<Rightarrow> nat option" where
  "decimal s = (if s = [] \<or> \<not> list_all ascii_digit s then None
     else Some (foldl (\<lambda>n c. 10 * n + (of_char c - 48)) 0 s))"

definition ParseUint16 :: "string \<Rightarrow> nat" where
  "ParseUint16 s = (case decimal s of None \<Rightarrow> 0 | Some n \<Rightarrow> min n (2 ^ 16 - 1))"

definition Atoi :: "string \<Rightarrow> int" where
  "Atoi s =
     (let (neg, ds) = (case s of
          c # cs \<Rightarrow> if c = CHR ''-'' then (True, cs) else if c = CHR ''+'' then (False, cs) else (False, s)
        | [] \<Rightarrow> (False, s)) in
      case decimal ds of
        None \<Rightarrow> 0
      | Some n \<Rightarrow> if neg then max (- (2 ^ 63)) (- int n) else min (2 ^ 63 - 1) (int n))"

definition ConfigFromEnv :: "(string \<Rightarrow> string) \<Rightarrow> sim_config" where
  "ConfigFromEnv getenv =
     \<lparr>sc_HttpPort = getenv ''SIMULATOR_SERVICE_HTTP_PORT'',
      sc_KafkaTopic = getenv ''SIMULATOR_SERVICE_KAFKA_TOPIC'',
      sc_KafkaHost = getenv ''KAFKA_HOST'',
      sc_KafkaPort = of_nat (ParseUint16 (getenv ''KAFKA_PORT'')),
      sc_KafkaBrokers = split_at (CHR '','') (getenv ''KAFKA_BROKERS''),
      sc_KafkaNumPartitions = word_of_int (Atoi (getenv ''KAFKA_NUM_PARTITIONS'')),
      sc_KafkaReplicationFactor = word_of_int (Atoi (getenv ''KAFKA_REPLICATION_FACTOR''))\<rparr>"

text \<open>The simulator's own \<open>CreateTopicIfNotExists\<close>, the same steps on its configuration.\<close>

definition sim_CreateTopicIfNotExists ::
  "('k, 'c) kafka_admin \<Rightarrow> sim_config \<Rightarrow> ('k, go_error option) run" where
  "sim_CreateTopicIfNotExists ka cfg =
     CreateTopicIfNotExists ka (sc_KafkaBrokers cfg) (sc_KafkaTopic cfg) (sc_KafkaNumPartitions cfg)
       (sc_KafkaReplicationFactor cfg)"

lemma split_at_nonempty: "split_at c s \<noteq> []"
  by (induction s) (auto split: list.split)

lemma join_split_at: "concat (map (\<lambda>p. c # p) (split_at c s)) = c # s"
  by (induction s) (auto split: list.splits simp: split_at_nonempty)

lemma split_at_parts: "p \<in> set (split_at c s) \<Longrightarrow> c \<notin> set p"
  by (induction s arbitrary: p) (auto split: list.splits if_splits)

text \<open>
  The simulator never panics on its list of brokers, whatever the environment: the
  list that \<open>ConfigFromEnv\<close> makes always has an entry (an empty one for an unset
  variable), so that \<open>CreateTopicIfNotExists\<close> returns. The entries are the text between
  the commas, and joined by commas they are the variable's value again.
\<close>

lemma simulator_brokers:
  shows "snd (sim_CreateTopicIfNotExists ka (ConfigFromEnv getenv) k) \<noteq> Panics \<and>
    (\<forall>b \<in> set (sc_KafkaBrokers (ConfigFromEnv getenv)). CHR '','' \<notin> set b) \<and>
    concat (map (\<lambda>b. CHR '','' # b) (sc_KafkaBrokers (ConfigFromEnv getenv))) = CHR '','' # getenv ''KAFKA_BROKERS''"
proof -
  have "snd (CreateTopicIfNotExists ka brokers t n f k) \<noteq> Panics" if "brokers \<noteq> []" for brokers t n f
  proof (cases brokers)
    case (Cons b bs)
    have "snd (with_dial ka b (via_controller ka cfg) k) \<noteq> Panics" for cfg
      using via_controller_returns by (intro with_dial_returns)
    then show ?thesis using Cons by (simp add: CreateTopicIfNotExists_def ret_def)
  qed (use that in simp)
  then show ?thesis
    by (simp add: sim_CreateTopicIfNotExists_def ConfigFromEnv_def split_at_nonempty join_split_at)
      (auto dest: split_at_parts)
qed

text \<open>An unset variable, as a concrete input.\<close>

lemma simulator_brokers_witness:
  "\<forall>b \<in> set (sc_KafkaBrokers (ConfigFromEnv (\<lambda>_. ''k1:9092,k2:9092''))). CHR '','' \<notin> set b"
  using simulator_brokers [of plain_admin "\<lambda>_. ''k1:9092,k2:9092''" "{#}"] by simp

text \<open>\<open>NewMux\<close>: the handler at \<open>/create\<close>, and the mux's own 404 elsewhere.\<close>

definition NewMux ::
  "(sim_message list \<Rightarrow> 'k \<Rightarrow> 'k \<times> go_error option) \<Rightarrow> string \<Rightarrow> string \<Rightarrow> string \<Rightarrow> go_error + string \<Rightarrow>
   writer \<Rightarrow> 'k \<Rightarrow> 'k \<times> writer" where
  "NewMux WriteMessages key path method body w k =
     (if path = ''/create'' then NewCreateOrderHandler WriteMessages key method body w k
      else (k, http_Error ''404 page not found'' 404 w))"

section \<open>Starting the simulator\<close>

datatype kafka_acks = RequireNone | RequireOne | RequireAll

record kafka_writer =
  kw_Addr :: "string list"
  kw_Topic :: string
  kw_RequiredAcks :: kafka_acks
  kw_Balancer :: string
  kw_Async :: bool

definition sim_NewWriter :: "sim_config \<Rightarrow> kafka_writer" where
  "sim_NewWriter cfg =
     \<lparr>kw_Addr = sc_KafkaBrokers cfg, kw_Topic = sc_KafkaTopic cfg, kw_RequiredAcks = RequireAll,
      kw_Balancer = ''LeastBytes'', kw_Async = False\<rparr>"

text \<open>
  \<open>main\<close>: it ends with \<open>log.Fatal\<close> or returns. \<open>WriteMessages\<close> is the method
  of a Kafka writer, \<open>ListenAndServe\<close> serves a mux until it fails.
\<close>

datatype sim_end = SimFatal go_error | SimReturns

type_synonym 'k sim_mux = "string \<Rightarrow> string \<Rightarrow> go_error + string \<Rightarrow> writer \<Rightarrow> 'k \<Rightarrow> 'k \<times> writer"

definition sim_main ::
  "('k, 'c) kafka_admin \<Rightarrow> (kafka_writer \<Rightarrow> sim_message list \<Rightarrow> 'k \<Rightarrow> 'k \<times> go_error option) \<Rightarrow>
   (string \<Rightarrow> 'k sim_mux \<Rightarrow> ('k, go_error option) run) \<Rightarrow> (string \<Rightarrow> string) \<Rightarrow> ('k, sim_end) run" where
  "sim_main ka WriteMessages ListenAndServe getenv =
     (let cfg = ConfigFromEnv getenv; kafkaWriter = sim_NewWriter cfg in
      bind_run (sim_CreateTopicIfNotExists ka cfg) (\<lambda>err.
        case err of
          Some err \<Rightarrow> ret (SimFatal err)
        | None \<Rightarrow>
            (let mux = NewMux (WriteMessages kafkaWriter) ''some-key'' in
             bind_run (ListenAndServe (CHR '':'' # sc_HttpPort cfg) mux) (\<lambda>err.
               case err of Some err \<Rightarrow> ret (SimFatal err) | None \<Rightarrow> ret SimReturns))))"

text \<open>
  The simulator serves only when its topic exists: without a topic name it ends at once, with
  no connection made, and when the topic cannot be created it ends with that error and never
  listens. Otherwise what it does is to serve the mux, whose messages go to the
  configured topic, and it panics only if serving does.
\<close>

lemma sim_main_no_topic:
  assumes "getenv ''SIMULATOR_SERVICE_KAFKA_TOPIC'' = []"
  shows "\<exists>e. sim_main ka wm serve getenv k = (k, Returns (SimFatal e))"
  using assms by (simp add: sim_main_def sim_CreateTopicIfNotExists_def CreateTopicIfNotExists_def ConfigFromEnv_def
      bind_run_def ret_def)

lemma sim_main_topic_fails:
  assumes "sim_CreateTopicIfNotExists ka (ConfigFromEnv getenv) k = (k', Returns (Some e))"
  shows "sim_main ka wm serve getenv k = (k', Returns (SimFatal e))"
  by (simp add: sim_main_def bind_run_def assms ret_def Let_def)

lemma sim_main_serves:
  assumes "sim_CreateTopicIfNotExists ka (ConfigFromEnv getenv) k = (k', Returns None)"
  shows "sim_main ka wm serve getenv k =
    bind_run (serve (CHR '':'' # getenv ''SIMULATOR_SERVICE_HTTP_PORT'')
        (NewMux (wm (sim_NewWriter (ConfigFromEnv getenv))) ''some-key''))
      (\<lambda>err. case err of Some e \<Rightarrow> ret (SimFatal e) | None \<Rightarrow> ret SimReturns) k'"
proof -
  have "sc_HttpPort (ConfigFromEnv getenv) = getenv ''SIMULATOR_SERVICE_HTTP_PORT''" by (simp add: ConfigFromEnv_def)
  then show ?thesis by (simp add: sim_main_def bind_run_def assms Let_def)
qed

lemma sim_main_panics_only_serving:
  assumes "\<And>addr mux k. snd (serve addr mux k) \<noteq> Panics"
  shows "snd (sim_main ka wm serve getenv k) \<noteq> Panics"
proof (cases "sim_CreateTopicIfNotExists ka (ConfigFromEnv getenv) k")
  case (Pair k' out)
  show ?thesis
  proof (cases out)
    case Panics
    then show ?thesis using Pair simulator_brokers [of ka getenv k] by simp
  next
    case (Returns err)
    show ?thesis
    proof (cases err)
      case (Some e)
      then show ?thesis using Pair Returns by (simp add: sim_main_topic_fails)
    next
      case None
      have "snd (bind_run (serve a m) (\<lambda>err. case err of Some e \<Rightarrow> ret (SimFatal e) | None \<Rightarrow> ret SimReturns) k') \<noteq> Panics" for a m
        using assms [of a m k'] by (auto simp: bind_run_def ret_def split: prod.split outcome.split option.split)
      then show ?thesis using Pair Returns None by (simp add: sim_main_serves)
    qed
  qed
qed

end
