(* ===== verification/StorageProps.thy ===== *)
theory StorageProps
  imports Storage Validators
begin

text \<open>
  What the Postgres storage promises: the columns of the inserts and the order of the scans fit
  together, the text of the items statement denotes the items exactly when no field has a quote,
  and the transaction, the lookups and the parallel fetches behave as the callers rely on.
\<close>

section \<open>Columns and fields\<close>

text \<open>The value that an insert assigns to a column, and the columns of the three joined tables.\<close>

primrec stored :: "squirrel \<Rightarrow> string \<Rightarrow> sql_value option" where
  "stored (InsertInto table columns vals) = map_of (zip columns vals)"
| "stored (SelectFrom a b c d e f) = (\<lambda>_. None)"

definition joined_value :: "go_time \<Rightarrow> order \<Rightarrow> string \<Rightarrow> sql_value option" where
  "joined_value now order column =
     (if column \<in> {''o.created_at'', ''o.updated_at''} then Some (SqlTime now)
      else if take 2 column = ''o.'' then stored (order_insert order) (drop 2 column)
      else if take 2 column = ''d.''
        then stored (delivery_insert (ord_OrderUID order) (ord_Delivery order)) (drop 2 column)
      else stored (payment_insert (ord_OrderUID order) (ord_Payment order)) (drop 2 column))"

lemma fits64_sint [simp]: "fits64 (sint (w :: 64 word))"
  using sint_range_size [of w] by (simp add: fits64_def word_size)

text \<open>
  Saving an order and reading it back agree field by field: when the row that
  \<open>base_columns\<close> selects holds in each column the value the three inserts assigned to it
  (and the database's time in \<open>created_at\<close> and \<open>updated_at\<close>), \<open>Scan\<close> yields the
  order that was saved, with those times, with the order's id in its delivery and payment, and
  with no items yet.
\<close>

lemma saved_columns_scan_back:
  "\<exists>row. those (map (joined_value now order) base_columns) = Some row \<and>
    scan_base row = Some (order\<lparr>ord_CreatedAt := now, ord_UpdatedAt := now,
      ord_Delivery := (ord_Delivery order)\<lparr>dlv_OrderID := ord_OrderUID order\<rparr>,
      ord_Payment := (ord_Payment order)\<lparr>pay_OrderID := ord_OrderUID order\<rparr>, ord_Items := []\<rparr>)"
proof -
  have "those (map (joined_value now order) base_columns) =
    Some (case (ord_Delivery order, ord_Payment order) of (d, p) \<Rightarrow>
      [SqlStr (ord_OrderUID order), SqlStr (ord_TrackNumber order), SqlStr (ord_Entry order),
       SqlStr (ord_Locale order), SqlStr (ord_InternalSignature order), SqlStr (ord_CustomerID order),
       SqlStr (ord_DeliveryService order), SqlStr (ord_ShardKey order), int_value (ord_SmID order),
       SqlTime (ord_DateCreated order), SqlStr (ord_OofShard order), SqlTime now, SqlTime now,
       SqlStr (ord_OrderUID order), SqlStr (dlv_Name d), SqlStr (dlv_Phone d), SqlStr (dlv_Zip d),
       SqlStr (dlv_City d), SqlStr (dlv_Address d), SqlStr (dlv_Region d), SqlStr (dlv_Email d),
       SqlStr (ord_OrderUID order), SqlStr (pay_Transaction p), SqlStr (pay_RequestID p),
       SqlStr (pay_Currency p), SqlStr (pay_Provider p), int_value (pay_Amount p), int_value (pay_PaymentDt p),
       SqlStr (pay_Bank p), int_value (pay_DeliveryCost p), int_value (pay_GoodsTotal p),
       int_value (pay_CustomFee p)])"
    by (simp add: base_columns_def joined_value_def order_insert_def delivery_insert_def payment_insert_def)
  then show ?thesis
    by (simp add: scan_base_def scan_end_def zero_order_def)
qed

section \<open>The text of the items\<close>

text \<open>
  What the server reads in the \<open>VALUES\<close> list: rows of literals. A string literal ends at a
  quote that is not doubled; a doubled quote stands for one. \<open>sql_rows\<close> reads the whole
  list; its fuel is the length of the text, and every row takes at least one character.
\<close>

fun p_str :: "string \<Rightarrow> string \<Rightarrow> (string \<times> string) option" where
  "p_str acc [] = None"
| "p_str acc (c # cs) =
     (if c = quote
      then (case cs of d # ds \<Rightarrow> if d = quote then p_str (acc @ [quote]) ds else Some (acc, cs)
                     | [] \<Rightarrow> Some (acc, []))
      else p_str (acc @ [c]) cs)"

definition digit_value :: "char \<Rightarrow> nat option" where
  "digit_value c = (let n = of_char c :: nat in if 48 \<le> n \<and> n \<le> 57 then Some (n - 48) else None)"

fun p_digits :: "nat \<Rightarrow> string \<Rightarrow> nat \<times> string" where
  "p_digits acc [] = (acc, [])"
| "p_digits acc (c # cs) =
     (case digit_value c of None \<Rightarrow> (acc, c # cs) | Some d \<Rightarrow> p_digits (10 * acc + d) cs)"

definition p_int :: "string \<Rightarrow> (int \<times> string) option" where
  "p_int s =
     (case s of
        [] \<Rightarrow> None
      | c # cs \<Rightarrow>
          if c = CHR ''-'' then (let (n, r) = p_digits 0 cs in Some (- int n, r))
          else if digit_value c \<noteq> None then (let (n, r) = p_digits 0 s in Some (int n, r)) else None)"

definition p_value :: "string \<Rightarrow> (sql_value \<times> string) option" where
  "p_value s =
     (case s of
        [] \<Rightarrow> None
      | c # cs \<Rightarrow>
          if c = quote then map_option (\<lambda>(t, r). (SqlStr t, r)) (p_str [] cs)
          else map_option (\<lambda>(i, r). (SqlInt i, r)) (p_int s))"

text \<open>\<open>n + 1\<close> values separated by commas, then a closing parenthesis.\<close>

fun p_values :: "nat \<Rightarrow> string \<Rightarrow> (sql_value list \<times> string) option" where
  "p_values n s =
     (case p_value s of
        Some (v, c # cs) \<Rightarrow>
          (case n of
             0 \<Rightarrow> if c = CHR '')'' then Some ([v], cs) else None
           | Suc m \<Rightarrow>
               if c = CHR '','' then map_option (\<lambda>(vs, r). (v # vs, r)) (p_values m cs) else None)
      | _ \<Rightarrow> None)"

declare p_values.simps [simp del]

fun p_rows :: "nat \<Rightarrow> string \<Rightarrow> sql_value list list option" where
  "p_rows 0 s = None"
| "p_rows (Suc fuel) s =
     (case s of
        c # cs \<Rightarrow>
          if c = CHR ''(''
          then (case p_values 11 cs of
                  Some (row, []) \<Rightarrow> Some [row]
                | Some (row, d # ds) \<Rightarrow>
                    if d = CHR '','' then map_option ((#) row) (p_rows fuel ds) else None
                | None \<Rightarrow> None)
          else None
      | [] \<Rightarrow> None)"

definition sql_rows :: "string \<Rightarrow> sql_value list list option" where
  "sql_rows s = p_rows (length s) s"

definition item_row :: "string \<Rightarrow> order_item \<Rightarrow> sql_value list" where
  "item_row orderUID item =
     [SqlStr orderUID, int_value (itm_ChrtID item), SqlStr (itm_TrackNumber item), int_value (itm_Price item),
      SqlStr (itm_RID item), SqlStr (itm_Name item), int_value (itm_Sale item), SqlStr (itm_Size item),
      int_value (itm_TotalPrice item), int_value (itm_NmID item), SqlStr (itm_Brand item),
      int_value (itm_Status item)]"

definition no_quotes :: "order_item \<Rightarrow> bool" where
  "no_quotes item \<longleftrightarrow>
     (\<forall>s \<in> {itm_TrackNumber item, itm_RID item, itm_Name item, itm_Size item, itm_Brand item}. quote \<notin> set s)"

lemma p_str_quoted:
  "quote \<notin> set s \<Longrightarrow> c \<noteq> quote \<Longrightarrow> p_str acc (s @ quote # c # cs) = Some (acc @ s, c # cs)"
  by (induction s arbitrary: acc) auto

lemma p_value_quoted:
  "quote \<notin> set s \<Longrightarrow> c \<noteq> quote \<Longrightarrow> p_value (quoted s @ c # cs) = Some (SqlStr s, c # cs)"
  by (simp add: p_value_def quoted_def p_str_quoted)

lemma digit_value_digit_char [simp]: "d < 10 \<Longrightarrow> digit_value (digit_char d) = Some d"
  by (simp add: digit_value_def digit_char_def)

lemma p_digits_append:
  "p_digits acc (nat_digits n @ rest) = p_digits (10 ^ length (nat_digits n) * acc + n) rest"
proof (induction n arbitrary: acc rest rule: nat_digits.induct)
  case (1 n)
  show ?case
  proof (cases "n < 10")
    case True
    then show ?thesis by (simp add: nat_digits.simps [of n])
  next
    case False
    have "p_digits acc (nat_digits n @ rest) =
        p_digits (10 ^ length (nat_digits (n div 10)) * acc + n div 10) (digit_char (n mod 10) # rest)"
      using "1.IH" [OF False] False by (simp add: nat_digits.simps [of n])
    also have "\<dots> = p_digits (10 ^ length (nat_digits n) * acc + n) rest"
      using False by (simp add: nat_digits.simps [of n] algebra_simps)
    finally show ?thesis .
  qed
qed

lemma nat_digits_hd: "\<exists>d ds. nat_digits n = digit_char d # ds \<and> d < 10"
proof (induction n rule: nat_digits.induct)
  case (1 n)
  then show ?case by (cases "n < 10") (auto simp: nat_digits.simps [of n])
qed

lemma p_value_itoa:
  assumes "digit_value c = None"
  shows "p_value (itoa i @ c # cs) = Some (SqlInt i, c # cs)"
proof -
  have d: "p_digits 0 (nat_digits n @ c # cs) = (n, c # cs)" for n
    using assms by (simp add: p_digits_append)
  obtain k ds where h: "nat_digits (nat i) = digit_char k # ds" "k < 10"
    using nat_digits_hd by blast
  have ne: "digit_char k \<noteq> quote" "digit_char k \<noteq> CHR ''-''"
    using h(2) digit_value_digit_char [of k] by (auto simp: digit_value_def)
  show ?thesis
  proof (cases "i < 0")
    case True
    then show ?thesis using d [of "nat (- i)"] by (simp add: itoa_def p_value_def p_int_def)
  next
    case False
    then show ?thesis using d [of "nat i"] h ne by (simp add: itoa_def p_value_def p_int_def)
  qed
qed

text \<open>One value of an item's row as it is printed.\<close>

primrec printed :: "sql_value \<Rightarrow> string" where
  "printed (SqlStr s) = quoted s"
| "printed (SqlInt i) = itoa i"
| "printed (SqlTime t) = []"

definition printable :: "sql_value \<Rightarrow> bool" where
  "printable v \<longleftrightarrow> (case v of SqlStr s \<Rightarrow> quote \<notin> set s | SqlInt i \<Rightarrow> True | SqlTime t \<Rightarrow> False)"

lemma p_value_printed:
  "printable v \<Longrightarrow> c \<in> {CHR '','', CHR '')''} \<Longrightarrow> p_value (printed v @ c # cs) = Some (v, c # cs)"
  by (cases v) (auto simp: printable_def p_value_quoted p_value_itoa digit_value_def)

lemma p_values_printed:
  "length vs = Suc n \<Longrightarrow> \<forall>v \<in> set vs. printable v \<Longrightarrow>
     p_values n (join '','' (map printed vs) @ CHR '')'' # rest) = Some (vs, rest)"
proof (induction n arbitrary: vs)
  case 0
  then obtain v where "vs = [v]" by (auto simp: length_Suc_conv)
  then show ?case using 0 p_value_printed [of v "CHR '')''" rest] by (simp add: p_values.simps [of 0])
next
  case (Suc n)
  then obtain v w ws where vs: "vs = v # w # ws" by (auto simp: length_Suc_conv)
  then show ?case
    using Suc.IH [of "w # ws"] Suc.prems
      p_value_printed [of v "CHR '',''" "join '','' (map printed (w # ws)) @ CHR '')'' # rest"]
    by (simp add: p_values.simps [of "Suc n"])
qed

text \<open>A row of the list, and the rows that the reader gets back from their texts.\<close>

definition row_text :: "sql_value list \<Rightarrow> string" where
  "row_text vs = CHR ''('' # join '','' (map printed vs) @ '')''"

definition readable :: "sql_value list \<Rightarrow> bool" where
  "readable vs \<longleftrightarrow> length vs = 12 \<and> (\<forall>v \<in> set vs. printable v)"

lemma p_values_row:
  "readable vs \<Longrightarrow> p_values 11 (join '','' (map printed vs) @ CHR '')'' # rest) = Some (vs, rest)"
  by (intro p_values_printed) (auto simp: readable_def)

lemma p_rows_printed:
  assumes "\<forall>vs \<in> set rows. readable vs" "rows \<noteq> []" "length rows \<le> fuel"
  shows "p_rows fuel (join '','' (map row_text rows)) = Some rows"
  using assms
proof (induction rows arbitrary: fuel)
  case (Cons vs rows)
  then obtain n where n: "fuel = Suc n" by (cases fuel) auto
  show ?case
  proof (cases rows)
    case Nil
    then show ?thesis using p_values_row [of vs "[]"] Cons.prems n by (simp add: row_text_def)
  next
    case (Cons ws rows')
    have "p_rows n (join '','' (map row_text rows)) = Some rows"
      using Cons.IH [of n] Cons.prems n Cons by simp
    moreover have "join '','' (map row_text (vs # rows)) =
        CHR ''('' # join '','' (map printed vs) @ CHR '')'' # CHR '','' # join '','' (map row_text rows)"
      using Cons by (simp add: row_text_def [of vs])
    ultimately show ?thesis
      using p_values_row [of vs "CHR '','' # join '','' (map row_text rows)"] Cons.prems n by simp
  qed
qed simp

lemma length_join_rows: "length rows \<le> length (join '','' (map row_text rows))"
proof (induction rows)
  case (Cons vs rows)
  then show ?case by (cases rows) (simp_all add: row_text_def)
qed simp

lemma sql_rows_printed:
  "\<forall>vs \<in> set rows. readable vs \<Longrightarrow> rows \<noteq> [] \<Longrightarrow> sql_rows (join '','' (map row_text rows)) = Some rows"
  unfolding sql_rows_def by (rule p_rows_printed) (auto intro: length_join_rows)

lemma item_values_text: "item_values uid = (\<lambda>it. row_text (item_row uid it))"
  by (simp add: fun_eq_iff item_values_def item_row_def row_text_def)

lemma readable_item: "quote \<notin> set uid \<Longrightarrow> no_quotes it \<Longrightarrow> readable (item_row uid it)"
  by (auto simp: readable_def item_row_def printable_def no_quotes_def)

lemma sql_rows_items:
  assumes "quote \<notin> set uid" "\<forall>it \<in> set items. no_quotes it" "items \<noteq> []"
  shows "sql_rows (items_values uid items) = Some (map (item_row uid) items)"
proof -
  have "items_values uid items = join '','' (map row_text (map (item_row uid) items))"
    by (simp add: items_values_def item_values_text o_def)
  then show ?thesis using assms sql_rows_printed [of "map (item_row uid) items"] by (simp add: readable_item)
qed

lemma scan_item_row: "scan_item (item_row uid it) = Some (it\<lparr>itm_OrderID := uid\<rparr>)"
  by (simp add: scan_item_def item_row_def scan_end_def)

lemma scan_item_rows:
  "scan_rows scan_item scan_err (map (item_row uid) items) = Inr (map (itm_OrderID_update (\<lambda>_. uid)) items)"
  by (induction items) (simp_all add: scan_item_row)

text \<open>
  When neither the order's id nor any field of its items contains a quote, the text that
  \<open>saveItems\<close> writes denotes exactly one row for each item, and scanning these rows
  with \<open>getOrderItemsByID\<close>'s \<open>Scan\<close> gives the items back, each with the order's id.
\<close>

lemma items_text_roundtrip:
  assumes "quote \<notin> set uid" "\<forall>it \<in> set items. no_quotes it" "items \<noteq> []"
  shows "\<exists>rows. sql_rows (items_values uid items) = Some rows \<and>
    scan_rows scan_item scan_err rows = Inr (map (\<lambda>it. it\<lparr>itm_OrderID := uid\<rparr>) items)"
  using sql_rows_items [OF assms] by (simp add: scan_item_rows)

lemma items_text_roundtrip_witness:
  "\<exists>rows. sql_rows (items_values ''b563'' [sample_item, sample_item]) = Some rows \<and>
    scan_rows scan_item (\<lambda>_. Ext ''bad row'') rows = Inr [sample_item, sample_item]"
  using items_text_roundtrip [of "''b563''" "[sample_item, sample_item]" "\<lambda>_. Ext ''bad row''"]
  by (simp add: no_quotes_def sample_item_def)

definition crafted_item :: order_item where
  "crafted_item = sample_item\<lparr>itm_Brand :=
     ''x'' @ [quote] @ '',202),('' @ quoted ''other'' @ '',1,'' @ quoted ''t'' @ '',0,'' @ quoted ''r'' @ '','' @
     quoted ''n'' @ '',0,'' @ quoted ''0'' @ '',0,7,'' @ [quote] @ ''y''\<rparr>"

definition injected_row :: "sql_value list" where
  "injected_row = [SqlStr ''other'', SqlInt 1, SqlStr ''t'', SqlInt 0, SqlStr ''r'', SqlStr ''n'', SqlInt 0,
     SqlStr ''0'', SqlInt 0, SqlInt 7, SqlStr ''y'', SqlInt 202]"

lemma itoa_small: "itoa 0 = ''0''" "itoa 1 = ''1''" "itoa 7 = ''7''" "itoa 202 = ''202''"
  by code_simp+

text \<open>
  A quote in a field is not escaped: the statement of one item with a crafted brand denotes
  two rows, the second an item of another order, chosen by the sender of the message. The
  validator accepts such an item.
\<close>

lemma items_text_injection:
  "item_valid crafted_item \<and>
   sql_rows (items_values ''b563'' [crafted_item]) =
     Some [item_row ''b563'' (crafted_item\<lparr>itm_Brand := ''x''\<rparr>), injected_row]"
proof -
  let ?rows = "[item_row ''b563'' (crafted_item\<lparr>itm_Brand := ''x''\<rparr>), injected_row]"
  have eq: "items_values ''b563'' [crafted_item] = join '','' (map row_text ?rows)"
    by (simp add: items_values_def item_values_text row_text_def item_row_def crafted_item_def injected_row_def
        sample_item_def quoted_def itoa_small)
  have "\<forall>vs \<in> set ?rows. readable vs"
    by (simp add: readable_def item_row_def crafted_item_def injected_row_def sample_item_def printable_def)
  then have "sql_rows (join '','' (map row_text ?rows)) = Some ?rows" by (rule sql_rows_printed) simp
  moreover have "item_valid crafted_item"
    by (simp add: item_valid_def crafted_item_def sample_item_def not_blank_Cons)
  ultimately show ?thesis using eq by simp
qed

section \<open>The transaction\<close>

lemma deferred_state:
  "fst (deferred pg ctx err db) =
     fst (pg_Commit pg ctx (case err of None \<Rightarrow> db | Some _ \<Rightarrow> fst (pg_Rollback pg ctx db)))"
  by (simp add: deferred_def Let_def case_prod_beta split: option.split)

lemma SaveOrder_pg_eq:
  "SaveOrder_pg pg ctx order db =
     (case pg_Begin pg ctx db of
        (db0, Some err) \<Rightarrow> (db0, Some (Errorf (''couldn't start transaction: '' @ err_text err)))
      | (db0, None) \<Rightarrow>
          (case save_steps pg ctx order db0 of (db1, err, res) \<Rightarrow> (fst (deferred pg ctx err db1), res)))"
  by (simp add: SaveOrder_pg_def Let_def case_prod_beta split: option.split)

lemma save_steps_cases:
  "\<exists>db1. save_steps pg ctx order db = (db1, None, None) \<or>
     (\<exists>err e. save_steps pg ctx order db = (db1, Some err, Some e) \<and> (\<forall>s. errors_is e s = errors_is err s))"
  by (simp add: save_steps_def split: prod.split option.split)


text \<open>A database that records what is done to it; \<open>bad\<close> chooses the operations that fail.\<close>

definition trace_pg :: "(string \<Rightarrow> bool) \<Rightarrow> string list pgx" where
  "trace_pg bad =
     (let op = (\<lambda>s db. (db @ [s], if bad s then Some (Ext s) else None)) in
      \<lparr>pg_ToSql = (\<lambda>q. case q of
          InsertInto t cs vs \<Rightarrow> Inr (t, vs)
        | SelectFrom cs t js w ob lim \<Rightarrow> Inr (t, [])),
       pg_Begin = (\<lambda>ctx. op ''begin''),
       pg_Exec = (\<lambda>ctx sql args db. (db @ [take 23 sql], if bad (take 23 sql) then Inl (Ext sql) else Inr 1)),
       pg_Rollback = (\<lambda>ctx. op ''rollback''),
       pg_Commit = (\<lambda>ctx. op ''commit''),
       pg_QueryRow = (\<lambda>ctx sql args db. (db, Inl (Sentinel ErrNoRows))),
       pg_Query = (\<lambda>ctx sql args db. (db, Inr ([], None))),
       pg_scan_err = (\<lambda>row. Ext ''can't scan'')\<rparr>)"

text \<open>
  A failed commit is reported as success: on a database whose statements all work and whose
  \<open>Commit\<close> returns an error, \<open>SaveOrder\<close> returns nil. (The deferred function
  assigns the error to a variable that is no longer the result.)
\<close>

lemma SaveOrder_loses_commit_error:
  assumes "pg_Begin pg ctx db = (db0, None)" "save_steps pg ctx order db0 = (db1, None, None)"
    and "pg_Commit pg ctx db1 = (db2, Some e)"
  shows "SaveOrder_pg pg ctx order db = (db2, None)"
  using assms by (simp add: SaveOrder_pg_eq deferred_state)

lemma SaveOrder_loses_commit_error_witness:
  "SaveOrder_pg (trace_pg (\<lambda>s. s = ''commit'')) Background zero_order [] =
    ([''begin'', ''order_service.orders'', ''order_service.payments'', ''order_service.deliverie'', ''commit''], None)"
  by (rule SaveOrder_loses_commit_error)
    (simp_all add: trace_pg_def Let_def save_steps_def saveOrder_def savePayment_def saveDelivery_def saveItems_def
      exec_insert_def order_insert_def payment_insert_def delivery_insert_def zero_order_def)

section \<open>Lookups\<close>

text \<open>A database whose queries do not change it.\<close>

definition reads_only :: "'db pgx \<Rightarrow> bool" where
  "reads_only pg \<longleftrightarrow>
     (\<forall>ctx sql args db. fst (pg_Query pg ctx sql args db) = db \<and> fst (pg_QueryRow pg ctx sql args db) = db)"

lemma getOrderItemsByID_reads: "reads_only pg \<Longrightarrow> fst (getOrderItemsByID pg ctx uid db) = db"
  by (auto simp: getOrderItemsByID_def reads_only_def split: sum.split prod.split) (metis fst_conv)+

lemma getOrderByIDBase_reads: "reads_only pg \<Longrightarrow> fst (getOrderByIDBase pg ctx uid db) = db"
  by (simp add: getOrderByIDBase_def reads_only_def Let_def case_prod_beta split: sum.split)

lemma getOrderItemsByID_not_sentinel:
  "snd (getOrderItemsByID pg ctx uid db) = Inl e \<Longrightarrow> \<not> errors_is e s"
  by (auto simp: getOrderItemsByID_def split: sum.splits prod.splits)

lemma getOrderByIDBase_found:
  "snd (getOrderByIDBase pg ctx uid db) = Inr order \<Longrightarrow> ord_OrderUID order \<noteq> []"
  by (auto simp: getOrderByIDBase_def Let_def split: sum.splits prod.splits if_splits option.splits)

lemma GetOrderByID_eq:
  assumes "reads_only pg"
  shows "GetOrderByID pg items_first ctx uid db =
    (db, case (snd (getOrderByIDBase pg ctx uid db), snd (getOrderItemsByID pg ctx uid db)) of
       (Inr order, Inr items) \<Rightarrow> (order\<lparr>ord_Items := items\<rparr>, None)
     | (Inl e, Inr items) \<Rightarrow> (zero_order, Some (Wrap ''error trying to get order itself: '' e ''''))
     | (Inr order, Inl e) \<Rightarrow> (zero_order, Some (Wrap ''error trying to order items: '' e ''''))
     | (Inl e, Inl e') \<Rightarrow> (zero_order,
         Some (if items_first then Wrap ''error trying to order items: '' e' ''''
               else Wrap ''error trying to get order itself: '' e '''')))"
  using getOrderItemsByID_reads [OF assms, of ctx uid db] getOrderByIDBase_reads [OF assms, of ctx uid db]
  by (cases "getOrderByIDBase pg ctx uid db"; cases "getOrderItemsByID pg ctx uid db")
    (auto simp: GetOrderByID_def Let_def split: sum.split)

text \<open>
  \<open>GetOrderByID\<close> reports "not found", as \<open>errors.Is\<close> sees it through the
  wrapping, exactly when the base lookup found no order and the items lookup either worked or
  failed after it. So a missing order whose items query fails first is reported as another
  error.
\<close>

lemma GetOrderByID_not_found_iff:
  assumes "reads_only pg"
  shows "(\<exists>e. snd (snd (GetOrderByID pg items_first ctx uid db)) = Some e \<and> errors_is e ErrOrderNotFound) \<longleftrightarrow>
    (\<exists>e. snd (getOrderByIDBase pg ctx uid db) = Inl e \<and> errors_is e ErrOrderNotFound) \<and>
    (items_first \<longrightarrow> (\<exists>items. snd (getOrderItemsByID pg ctx uid db) = Inr items))"
  unfolding GetOrderByID_eq [OF assms]
  using getOrderItemsByID_not_sentinel [of pg ctx uid db _ ErrOrderNotFound]
  by (cases "snd (getOrderByIDBase pg ctx uid db)"; cases "snd (getOrderItemsByID pg ctx uid db)") auto

lemma trace_pg_reads: "reads_only (trace_pg bad)"
  by (simp add: reads_only_def trace_pg_def Let_def)

lemma GetOrderByID_not_found_iff_witness:
  "\<exists>e. snd (snd (GetOrderByID (trace_pg (\<lambda>_. False)) True Background ''nope'' [])) = Some e \<and>
    errors_is e ErrOrderNotFound"
  unfolding GetOrderByID_not_found_iff [OF trace_pg_reads]
  by (simp add: getOrderByIDBase_def getOrderItemsByID_def trace_pg_def Let_def base_select_def items_select_def)

text \<open>
  C31: A result set that is cut short is taken for complete: when the rows of the items query
  end with an error after some good rows, \<open>getOrderItemsByID\<close> returns those rows without
  an error, and \<open>GetOrderByID\<close> returns the order with only these items.
\<close>

theorem truncated_items_are_accepted:
  assumes "reads_only pg" "pg_ToSql pg (items_select uid) = Inr (sql, args)"
    and "pg_Query pg ctx sql args db = (db, Inr (rows, Some err))"
    and "scan_rows scan_item (pg_scan_err pg) rows = Inr items"
    and "snd (getOrderByIDBase pg ctx uid db) = Inr order"
  shows "GetOrderByID pg items_first ctx uid db = (db, order\<lparr>ord_Items := items\<rparr>, None)"
  using assms by (simp add: GetOrderByID_eq getOrderItemsByID_def)

text \<open>A database with one order of two items, whose connection breaks after the first item.\<close>

definition broken_pg :: "unit pgx" where
  "broken_pg =
     \<lparr>pg_ToSql = (\<lambda>q. case q of InsertInto t cs vs \<Rightarrow> Inr (t, vs) | SelectFrom cs t js w ob lim \<Rightarrow> Inr (t, [])),
      pg_Begin = (\<lambda>ctx db. (db, None)), pg_Exec = (\<lambda>ctx sql args db. (db, Inr 1)),
      pg_Rollback = (\<lambda>ctx db. (db, None)), pg_Commit = (\<lambda>ctx db. (db, None)),
      pg_QueryRow = (\<lambda>ctx sql args db. (db, case those (map (joined_value 7 sample_order) base_columns) of
          Some row \<Rightarrow> Inr row | None \<Rightarrow> Inl (Sentinel ErrNoRows))),
      pg_Query = (\<lambda>ctx sql args db. (db, Inr ([item_row ''b563'' sample_item], Some (Ext ''connection reset'')))),
      pg_scan_err = (\<lambda>row. Ext ''can't scan'')\<rparr>"

theorem truncated_items_are_accepted_witness:
  "\<exists>order. GetOrderByID broken_pg True Background ''b563'' () = ((), order\<lparr>ord_Items := [sample_item]\<rparr>, None)"
proof -
  have r: "reads_only broken_pg" by (simp add: reads_only_def)
  obtain order where o: "snd (getOrderByIDBase broken_pg Background ''b563'' ()) = Inr order"
    by (simp add: getOrderByIDBase_def broken_pg_def base_select_def base_columns_def joined_value_def
        order_insert_def delivery_insert_def payment_insert_def sample_order_def scan_base_def scan_end_def
        Let_def fits64_def)
  have "scan_rows scan_item (pg_scan_err broken_pg) [item_row ''b563'' sample_item] = Inr [sample_item]"
    using scan_item_row [of "''b563''" sample_item] by (simp add: sample_item_def)
  then have "GetOrderByID broken_pg True Background ''b563'' () = ((), order\<lparr>ord_Items := [sample_item]\<rparr>, None)"
    using truncated_items_are_accepted [OF r _ _ _ o, of "''order_items''" "[]"
        "[item_row ''b563'' sample_item]" "Ext ''connection reset''" "[sample_item]" True]
    by (simp add: items_select_def broken_pg_def)
  then show ?thesis by blast
qed

section \<open>Fetching items in parallel\<close>

lemma fetch_items_ok:
  assumes "reads_only pg" "\<forall>i \<in> set is. snd (getOrderItemsByID pg ctx (ord_OrderUID (vs ! i)) db) = Inr (f i)"
    and "\<forall>i \<in> set is. i < length slots"
  shows "\<exists>slots'. fetch_items pg ctx vs is slots first db = (db, slots', first) \<and> length slots' = length slots \<and>
    (\<forall>i < length slots. slots' ! i = (if i \<in> set is then f i else slots ! i))"
  using assms(2,3)
proof (induction "is" arbitrary: slots)
  case (Cons i "is")
  have g: "getOrderItemsByID pg ctx (ord_OrderUID (vs ! i)) db = (db, Inr (f i))"
    using Cons.prems getOrderItemsByID_reads [OF assms(1)] by (simp add: prod_eq_iff)
  obtain slots' where "fetch_items pg ctx vs is (slots[i := f i]) first db = (db, slots', first)"
    "length slots' = length slots"
    "\<forall>j < length slots. slots' ! j = (if j \<in> set is then f j else slots[i := f i] ! j)"
    using Cons.IH [of "slots[i := f i]"] Cons.prems by auto
  then show ?case using g Cons.prems by (auto simp: nth_list_update)
qed simp

lemma fetch_items_error_kept:
  "reads_only pg \<Longrightarrow> \<exists>slots'. fetch_items pg ctx vs is slots (Some e) db = (db, slots', Some e)"
proof (induction "is" arbitrary: slots)
  case (Cons i "is")
  have "fst (getOrderItemsByID pg ctx (ord_OrderUID (vs ! i)) db) = db"
    by (rule getOrderItemsByID_reads [OF Cons.prems])
  then show ?case using Cons
    by (cases "getOrderItemsByID pg ctx (ord_OrderUID (vs ! i)) db") (auto simp: Let_def split: sum.split)
qed simp

lemma fetch_items_error:
  assumes "reads_only pg" "i \<in> set is" "snd (getOrderItemsByID pg ctx (ord_OrderUID (vs ! i)) db) = Inl e"
  shows "\<exists>slots' e'. fetch_items pg ctx vs is slots first db = (db, slots', Some e')"
  using assms(2)
proof (induction "is" arbitrary: slots first)
  case (Cons j "is")
  have r: "fst (getOrderItemsByID pg ctx (ord_OrderUID (vs ! j)) db) = db"
    by (rule getOrderItemsByID_reads [OF assms(1)])
  show ?case
  proof (cases "snd (getOrderItemsByID pg ctx (ord_OrderUID (vs ! j)) db)")
    case (Inl err)
    then show ?thesis using r fetch_items_error_kept [OF assms(1)]
      by (cases first) (auto simp: Let_def prod_eq_iff split: prod.split)
  next
    case (Inr items)
    then have "i \<in> set is" using Cons.prems assms(3) by auto
    then show ?thesis using Cons.IH r Inr by (auto simp: Let_def prod_eq_iff split: prod.split)
  qed
qed simp

text \<open>
  The parallel fetches of \<open>GetLastOrders\<close> do not race: on a database that queries
  do not change, the result is the same for every order in which the goroutines run. When all fetches
  work it is the list of the base query, in its order, each order with its own items; when one
  fails there is an error and no orders.
\<close>

lemma GetLastOrders_pg_any_schedule:
  assumes "reads_only pg" "getLastOrdersBase pg ctx limit db = (db, Inr vs)"
    and "set schedule = {..<length vs}"
  shows "(\<forall>f. (\<forall>v \<in> set vs. snd (getOrderItemsByID pg ctx (ord_OrderUID v) db) = Inr (f v)) \<longrightarrow>
      GetLastOrders_pg pg schedule ctx limit db = (db, map (\<lambda>v. v\<lparr>ord_Items := f v\<rparr>) vs, None)) \<and>
    ((\<exists>v \<in> set vs. \<exists>e. snd (getOrderItemsByID pg ctx (ord_OrderUID v) db) = Inl e) \<longrightarrow>
      (\<exists>e. GetLastOrders_pg pg schedule ctx limit db = (db, [], Some e)))"
proof (intro conjI allI impI)
  fix f assume f: "\<forall>v \<in> set vs. snd (getOrderItemsByID pg ctx (ord_OrderUID v) db) = Inr (f v)"
  obtain slots where s: "fetch_items pg ctx vs schedule (replicate (length vs) []) None db = (db, slots, None)"
    "length slots = length vs" "\<forall>i < length vs. slots ! i = f (vs ! i)"
    using fetch_items_ok [OF assms(1), of schedule ctx vs db "\<lambda>i. f (vs ! i)" "replicate (length vs) []" None]
      f assms(3) by auto
  have "map2 (\<lambda>v items. v\<lparr>ord_Items := items\<rparr>) vs slots = map (\<lambda>v. v\<lparr>ord_Items := f v\<rparr>) vs"
    using s by (intro nth_equalityI) auto
  then show "GetLastOrders_pg pg schedule ctx limit db = (db, map (\<lambda>v. v\<lparr>ord_Items := f v\<rparr>) vs, None)"
    using assms(2) s by (simp add: GetLastOrders_pg_def)
next
  assume "\<exists>v \<in> set vs. \<exists>e. snd (getOrderItemsByID pg ctx (ord_OrderUID v) db) = Inl e"
  then obtain i e where "i < length vs" "snd (getOrderItemsByID pg ctx (ord_OrderUID (vs ! i)) db) = Inl e"
    by (auto simp: in_set_conv_nth)
  then obtain slots e' where
    "fetch_items pg ctx vs schedule (replicate (length vs) []) None db = (db, slots, Some e')"
    using fetch_items_error [OF assms(1), of i schedule ctx vs db e] assms(3) by blast
  then show "\<exists>e. GetLastOrders_pg pg schedule ctx limit db = (db, [], Some e)"
    using assms(2) by (simp add: GetLastOrders_pg_def)
qed

definition one_order_pg :: "unit pgx" where
  "one_order_pg = broken_pg\<lparr>pg_Query := (\<lambda>ctx sql args db. (db, Inr
     (if sql = ''order_items'' then [item_row ''b563'' sample_item]
      else (case those (map (joined_value 7 sample_order) base_columns) of Some row \<Rightarrow> [row] | None \<Rightarrow> []), None)))\<rparr>"

lemma GetLastOrders_pg_any_schedule_witness:
  "\<exists>v. GetLastOrders_pg one_order_pg [0] Background 5 () = ((), [v\<lparr>ord_Items := [sample_item]\<rparr>], None)"
proof -
  have r: "reads_only one_order_pg" by (simp add: reads_only_def one_order_pg_def broken_pg_def)
  obtain v where v: "getLastOrdersBase one_order_pg Background 5 () = ((), Inr [v])"
    by (simp add: getLastOrdersBase_def one_order_pg_def broken_pg_def last_select_def base_columns_def
        joined_value_def order_insert_def delivery_insert_def payment_insert_def sample_order_def scan_base_def
        scan_end_def fits64_def)
  have "snd (getOrderItemsByID one_order_pg Background uid ()) = Inr [sample_item]" for uid
    using scan_item_row [of "''b563''" sample_item]
    by (simp add: getOrderItemsByID_def one_order_pg_def broken_pg_def items_select_def sample_item_def)
  then have "GetLastOrders_pg one_order_pg [0] Background 5 () =
      ((), map (\<lambda>v. v\<lparr>ord_Items := [sample_item]\<rparr>) [v], None)"
    using GetLastOrders_pg_any_schedule [OF r v, of "[0]"] by (simp add: lessThan_Suc)
  then show ?thesis by auto
qed

end
