(* ===== verification/DbSchema.thy ===== *)
theory DbSchema
  imports StorageProps
begin

text \<open>
  The tables that the service's migration creates (\<open>db/migrations/000001_init.up.sql\<close>), what
  their columns can hold, and how the statements of the storage and the validated orders fit
  them. Postgres itself comes from outside: a value fits a column when the column stores
  it as it is (a \<open>VARCHAR(n)\<close> up to \<open>n\<close> characters, an integer in the range of its width and
  its checks, a timestamp in whole microseconds, the years it can hold being taken as enough).
\<close>

section \<open>Tables\<close>

datatype sql_type = VARCHAR nat | INTEGER | BIGINT | TIMESTAMPTZ

text \<open>\<open>cl_check\<close> holds the bounds of a check; a column with a default may be left out of an insert.\<close>

record column =
  cl_name :: string
  cl_type :: sql_type
  cl_not_null :: bool
  cl_default :: bool
  cl_check :: "(int \<times> int option) option"

abbreviation col :: "string \<Rightarrow> sql_type \<Rightarrow> column" where
  "col name ty \<equiv> \<lparr>cl_name = name, cl_type = ty, cl_not_null = True, cl_default = False, cl_check = None\<rparr>"

abbreviation checked :: "string \<Rightarrow> int option \<Rightarrow> column" where
  "checked name hi \<equiv> \<lparr>cl_name = name, cl_type = INTEGER, cl_not_null = True, cl_default = False, cl_check = Some (0, hi)\<rparr>"

text \<open>The primary key, and the foreign key as it is written: a column and the table and column it refers to.\<close>

record table =
  tb_name :: string
  tb_columns :: "column list"
  tb_key :: "string list"
  tb_references :: "(string \<times> string \<times> string) option"

definition orders_table :: table where
  "orders_table = \<lparr>tb_name = ''order_service.orders'', tb_columns =
     [col ''order_uid'' (VARCHAR 50), col ''track_number'' (VARCHAR 50), col ''entry'' (VARCHAR 10),
      col ''locale'' (VARCHAR 2), col ''internal_signature'' (VARCHAR 100), col ''customer_id'' (VARCHAR 50),
      col ''delivery_service'' (VARCHAR 50), col ''shardkey'' (VARCHAR 10), col ''sm_id'' INTEGER,
      col ''date_created'' TIMESTAMPTZ, col ''oof_shard'' (VARCHAR 10),
      (col ''created_at'' TIMESTAMPTZ)\<lparr>cl_not_null := False, cl_default := True\<rparr>,
      (col ''updated_at'' TIMESTAMPTZ)\<lparr>cl_not_null := False, cl_default := True\<rparr>],
     tb_key = [''order_uid''], tb_references = None\<rparr>"

definition deliveries_table :: table where
  "deliveries_table = \<lparr>tb_name = ''order_service.deliveries'', tb_columns =
     [col ''order_id'' (VARCHAR 50), col ''name'' (VARCHAR 100), col ''phone'' (VARCHAR 20),
      col ''zip'' (VARCHAR 20), col ''city'' (VARCHAR 100), col ''address'' (VARCHAR 200),
      col ''region'' (VARCHAR 100), col ''email'' (VARCHAR 100)],
     tb_key = [''order_id''], tb_references = Some (''order_id'', ''orders'', ''order_uid'')\<rparr>"

definition payments_table :: table where
  "payments_table = \<lparr>tb_name = ''order_service.payments'', tb_columns =
     [col ''order_id'' (VARCHAR 50), col ''transaction'' (VARCHAR 50), col ''request_id'' (VARCHAR 50),
      col ''currency'' (VARCHAR 3), col ''provider'' (VARCHAR 50), checked ''amount'' None,
      col ''payment_dt'' BIGINT, col ''bank'' (VARCHAR 50), checked ''delivery_cost'' None,
      checked ''goods_total'' None, checked ''custom_fee'' None],
     tb_key = [''order_id''], tb_references = Some (''order_id'', ''orders'', ''order_uid'')\<rparr>"

definition order_items_table :: table where
  "order_items_table = \<lparr>tb_name = ''order_service.order_items'', tb_columns =
     [col ''order_id'' (VARCHAR 50), col ''chrt_id'' BIGINT, col ''track_number'' (VARCHAR 50),
      checked ''price'' None, col ''rid'' (VARCHAR 50), col ''name'' (VARCHAR 100),
      checked ''sale'' (Some 100), col ''size'' (VARCHAR 10), checked ''total_price'' None,
      col ''nm_id'' BIGINT, col ''brand'' (VARCHAR 100), col ''status'' INTEGER],
     tb_key = [''order_id'', ''nm_id''], tb_references = Some (''order_id'', ''orders'', ''order_uid'')\<rparr>"

definition db_schema :: "table list" where
  "db_schema = [orders_table, deliveries_table, payments_table, order_items_table]"

section \<open>Values and rows\<close>

text \<open>The characters of a UTF-8 text: its bytes other than continuation bytes.\<close>

definition char_count :: "string \<Rightarrow> nat" where
  "char_count s = length (filter (\<lambda>c. (of_char c :: nat) < 0x80 \<or> 0xC0 \<le> (of_char c :: nat)) s)"

text \<open>No text holds the zero character. (That texts are UTF-8 is taken for granted: JSON decoding gives no other.)\<close>

definition no_nul :: "string \<Rightarrow> bool" where
  "no_nul s \<longleftrightarrow> list_all (\<lambda>c. c \<noteq> CHR 0x00) s"

fun type_fits :: "sql_type \<Rightarrow> sql_value \<Rightarrow> bool" where
  "type_fits (VARCHAR n) (SqlStr s) \<longleftrightarrow> char_count s \<le> n \<and> no_nul s"
| "type_fits INTEGER (SqlInt i) \<longleftrightarrow> - (2 ^ 31) \<le> i \<and> i < 2 ^ 31"
| "type_fits BIGINT (SqlInt i) \<longleftrightarrow> fits64 i"
| "type_fits TIMESTAMPTZ (SqlTime t) \<longleftrightarrow> t mod 1000 = 0"
| "type_fits _ _ \<longleftrightarrow> False"

definition column_fits :: "column \<Rightarrow> sql_value \<Rightarrow> bool" where
  "column_fits c v \<longleftrightarrow> type_fits (cl_type c) v \<and>
     (case cl_check c of
        None \<Rightarrow> True
      | Some (lo, hi) \<Rightarrow>
          (case v of SqlInt i \<Rightarrow> lo \<le> i \<and> (case hi of None \<Rightarrow> True | Some h \<Rightarrow> i \<le> h) | _ \<Rightarrow> False))"

text \<open>A row to insert: it names columns of the table once each, and leaves out only what may be.\<close>

definition row_fits :: "table \<Rightarrow> string list \<Rightarrow> sql_value list \<Rightarrow> bool" where
  "row_fits tb columns vals \<longleftrightarrow>
     length columns = length vals \<and> distinct columns \<and>
     list_all (\<lambda>n. n \<in> set (map cl_name (tb_columns tb))) columns \<and>
     list_all (\<lambda>c. case map_of (zip columns vals) (cl_name c) of
       None \<Rightarrow> cl_default c \<or> \<not> cl_not_null c | Some v \<Rightarrow> column_fits c v) (tb_columns tb)"

definition table_named :: "string \<Rightarrow> table option" where
  "table_named name = find (\<lambda>tb. tb_name tb = name) db_schema"

primrec insert_fits :: "squirrel \<Rightarrow> bool" where
  "insert_fits (InsertInto name columns vals) \<longleftrightarrow>
     (case table_named name of None \<Rightarrow> False | Some tb \<Rightarrow> row_fits tb columns vals)"
| "insert_fits (SelectFrom a b c d e f) \<longleftrightarrow> False"

text \<open>
  What \<open>SaveOrder\<close> inserts for an order can be stored: every row fits its table and the primary
  key of the items, with the order's identifier, is not used twice.
\<close>

definition storable :: "order \<Rightarrow> bool" where
  "storable order \<longleftrightarrow>
     insert_fits (order_insert order) \<and>
     insert_fits (payment_insert (ord_OrderUID order) (ord_Payment order)) \<and>
     insert_fits (delivery_insert (ord_OrderUID order) (ord_Delivery order)) \<and>
     list_all (\<lambda>it. row_fits order_items_table item_columns (item_row (ord_OrderUID order) it)) (ord_Items order) \<and>
     distinct (map (\<lambda>it. (ord_OrderUID order, sint (itm_NmID it))) (ord_Items order))"

text \<open>The limits of the tables on an order, as far as the validator does not check them.\<close>

definition int4 :: "64 word \<Rightarrow> bool" where
  "int4 w \<longleftrightarrow> sint w < 2 ^ 31"

definition texts_within :: "(string \<times> nat) list \<Rightarrow> bool" where
  "texts_within limits \<longleftrightarrow> list_all (\<lambda>(s, n). char_count s \<le> n \<and> no_nul s) limits"

definition item_within_limits :: "order_item \<Rightarrow> bool" where
  "item_within_limits it \<longleftrightarrow>
     texts_within [(itm_TrackNumber it, 50), (itm_RID it, 50), (itm_Name it, 100), (itm_Size it, 10), (itm_Brand it, 100)] \<and>
     list_all int4 [itm_Price it, itm_TotalPrice it, itm_Status it]"

definition within_limits :: "order \<Rightarrow> bool" where
  "within_limits order \<longleftrightarrow>
     (let d = ord_Delivery order; p = ord_Payment order in
      texts_within
        [(ord_OrderUID order, 50), (ord_TrackNumber order, 50), (ord_Entry order, 10), (ord_Locale order, 2),
         (ord_InternalSignature order, 100), (ord_CustomerID order, 50), (ord_DeliveryService order, 50),
         (ord_ShardKey order, 10), (ord_OofShard order, 10),
         (dlv_Name d, 100), (dlv_Phone d, 20), (dlv_Zip d, 20), (dlv_City d, 100), (dlv_Address d, 200),
         (dlv_Region d, 100), (dlv_Email d, 100),
         (pay_Transaction p, 50), (pay_RequestID p, 50), (pay_Currency p, 3), (pay_Provider p, 50), (pay_Bank p, 50)] \<and>
      list_all int4 [ord_SmID order, pay_Amount p, pay_DeliveryCost p, pay_GoodsTotal p, pay_CustomFee p] \<and>
      ord_DateCreated order mod 1000 = 0 \<and>
      list_all item_within_limits (ord_Items order) \<and> distinct (map itm_NmID (ord_Items order)))"

section \<open>Validated orders and the tables\<close>

lemma no_nul_simps [simp]:
  "no_nul []" "no_nul (c # s) \<longleftrightarrow> c \<noteq> CHR 0x00 \<and> no_nul s" "no_nul (s @ t) \<longleftrightarrow> no_nul s \<and> no_nul t"
  by (simp_all add: no_nul_def)

lemma char_count_append [simp]: "char_count (s @ t) = char_count s + char_count t"
  by (simp add: char_count_def)

lemma char_count_simps [simp]:
  "char_count [] = 0"
  "char_count (c # s) =
     (if (of_char c :: nat) < 0x80 \<or> 0xC0 \<le> (of_char c :: nat) then Suc (char_count s) else char_count s)"
  by (simp_all add: char_count_def)

lemma char_count_le: "length s \<le> n \<Longrightarrow> char_count s \<le> n"
  unfolding char_count_def by (rule le_trans [OF length_filter_le])

lemma int4_small: "0 \<le> x \<Longrightarrow> x < 2 ^ 31 \<Longrightarrow> int4 (word_of_int x)"
  by (simp add: int4_def sint_small)

lemma order_insert_fits:
  "insert_fits (order_insert order) \<longleftrightarrow>
     texts_within [(ord_OrderUID order, 50), (ord_TrackNumber order, 50), (ord_Entry order, 10), (ord_Locale order, 2),
       (ord_InternalSignature order, 100), (ord_CustomerID order, 50), (ord_DeliveryService order, 50),
       (ord_ShardKey order, 10), (ord_OofShard order, 10)] \<and>
     - (2 ^ 31) \<le> sint (ord_SmID order) \<and> int4 (ord_SmID order) \<and> ord_DateCreated order mod 1000 = 0"
  by (auto simp: order_insert_def table_named_def db_schema_def orders_table_def row_fits_def column_fits_def
      texts_within_def int4_def)

lemma delivery_insert_fits:
  "insert_fits (delivery_insert uid d) \<longleftrightarrow>
     texts_within [(uid, 50), (dlv_Name d, 100), (dlv_Phone d, 20), (dlv_Zip d, 20), (dlv_City d, 100),
       (dlv_Address d, 200), (dlv_Region d, 100), (dlv_Email d, 100)]"
  by (auto simp: delivery_insert_def table_named_def db_schema_def orders_table_def deliveries_table_def row_fits_def
      column_fits_def texts_within_def)

lemma payment_insert_fits:
  "insert_fits (payment_insert uid p) \<longleftrightarrow>
     texts_within [(uid, 50), (pay_Transaction p, 50), (pay_RequestID p, 50), (pay_Currency p, 3), (pay_Provider p, 50),
       (pay_Bank p, 50)] \<and>
     list_all (\<lambda>w. 0 \<le> sint w \<and> int4 w) [pay_Amount p, pay_DeliveryCost p, pay_GoodsTotal p, pay_CustomFee p]"
  by (auto simp: payment_insert_def table_named_def db_schema_def orders_table_def deliveries_table_def
      payments_table_def row_fits_def column_fits_def texts_within_def int4_def)

lemma item_row_fits:
  "row_fits order_items_table item_columns (item_row uid it) \<longleftrightarrow>
     texts_within [(uid, 50), (itm_TrackNumber it, 50), (itm_RID it, 50), (itm_Name it, 100), (itm_Size it, 10),
       (itm_Brand it, 100)] \<and>
     list_all (\<lambda>w. 0 \<le> sint w \<and> int4 w) [itm_Price it, itm_TotalPrice it] \<and>
     0 \<le> sint (itm_Sale it) \<and> sint (itm_Sale it) \<le> 100 \<and> - (2 ^ 31) \<le> sint (itm_Status it) \<and> int4 (itm_Status it)"
  by (auto simp: order_items_table_def item_columns_def item_row_def row_fits_def column_fits_def texts_within_def int4_def)

lemma distinct_sint: "distinct (map (\<lambda>x. (uid, sint (f x))) xs) \<longleftrightarrow> distinct (map f xs)"
  by (induction xs) (auto simp: image_iff dest: signed_word_eqI)

lemma valid_item_row_fits:
  assumes "item_valid it" "char_count uid \<le> 50 \<and> no_nul uid"
  shows "row_fits order_items_table item_columns (item_row uid it) \<longleftrightarrow> item_within_limits it"
  using assms by (auto simp: item_row_fits item_within_limits_def item_valid_def texts_within_def)

lemma storable_iff_within_limits:
  assumes "ValidateOrder parse_address now order = None"
  shows "storable order \<longleftrightarrow> within_limits order"
proof -
  have v: "order_valid parse_address now order" using assms by (simp add: order_valid_iff)
  then have sm: "- (2 ^ 31) \<le> sint (ord_SmID order)"
    and p: "list_all (\<lambda>w. 0 \<le> sint w) [pay_Amount (ord_Payment order), pay_DeliveryCost (ord_Payment order),
      pay_GoodsTotal (ord_Payment order), pay_CustomFee (ord_Payment order)]"
    and its: "\<forall>it \<in> set (ord_Items order). item_valid it"
    by (auto simp: order_valid_def main_valid_def payment_valid_def)
  show ?thesis
  proof (cases "char_count (ord_OrderUID order) \<le> 50 \<and> no_nul (ord_OrderUID order)")
    case True
    have "list_all (\<lambda>it. row_fits order_items_table item_columns (item_row (ord_OrderUID order) it)) (ord_Items order) \<longleftrightarrow>
        list_all item_within_limits (ord_Items order)"
      using valid_item_row_fits [OF _ True] its by (auto simp: list_all_iff)
    then show ?thesis using True sm p
      by (auto simp: storable_def within_limits_def order_insert_fits delivery_insert_fits payment_insert_fits
          distinct_sint texts_within_def Let_def)
  next
    case False
    then have "\<not> storable order" "\<not> within_limits order"
      unfolding storable_def within_limits_def order_insert_fits texts_within_def Let_def by auto
    then show ?thesis by simp
  qed
qed

text \<open>
  C11: Which validated orders can be stored. The validator guarantees the checks of the tables
  (amounts that are not negative, a sale between 0 and 100) and that nothing is missing, and
  the saved rows have the columns of the tables; what it does not guarantee, and what decides
  whether a valid order fits the tables, is exactly this: the lengths of the 21 texts of the order, its
  delivery and payment and of the 5 of each item, that none of them has a zero character, the 32 bits of five amounts of the order
  and three of each item, a creation time in whole microseconds, and different
  \<open>nm_id\<close>s in the items. The database refuses every other valid order, or changes it (it cuts trailing blanks and rounds times).
\<close>

theorem valid_orders_storable_iff:
  assumes "ValidateOrder parse_address now order = None"
  shows "storable order \<longleftrightarrow> within_limits order"
  by (rule storable_iff_within_limits [OF assms])

text \<open>The same item twice.\<close>

definition doubled_order :: order where
  "doubled_order = sample_order\<lparr>ord_Items := [sample_item, sample_item]\<rparr>"

theorem valid_orders_storable_iff_witness:
  "ValidateOrder (\<lambda>_. None) 2000 sample_order = None \<and> storable sample_order \<and>
   ValidateOrder (\<lambda>_. None) 2000 doubled_order = None \<and> \<not> storable doubled_order"
proof -
  have "order_valid (\<lambda>_. None) 2000 doubled_order"
    using sample_order_valid by (simp add: order_valid_def doubled_order_def main_valid_def) (simp add: sample_order_def)
  then have v: "ValidateOrder (\<lambda>_. None) 2000 sample_order = None" "ValidateOrder (\<lambda>_. None) 2000 doubled_order = None"
    using sample_order_valid by (simp_all add: order_valid_iff)
  have "within_limits sample_order" by code_simp
  moreover have "\<not> within_limits doubled_order" by code_simp
  ultimately show ?thesis using v valid_orders_storable_iff [OF v(1)] valid_orders_storable_iff [OF v(2)] by simp
qed

section \<open>Reading typed rows\<close>

text \<open>The type of a selected column, with the aliases of the statement.\<close>

definition select_type :: "(string \<times> table) list \<Rightarrow> string \<Rightarrow> sql_type option" where
  "select_type aliases column =
     (case find (\<lambda>(a, tb). take (length a) column = a) aliases of
        None \<Rightarrow> None
      | Some (a, tb) \<Rightarrow>
          map_option cl_type (find (\<lambda>c. cl_name c = drop (length a) column) (tb_columns tb)))"

definition base_aliases :: "(string \<times> table) list" where
  "base_aliases = [(''o.'', orders_table), (''d.'', deliveries_table), (''p.'', payments_table)]"

definition base_types :: "sql_type list" where
  "base_types =
     [VARCHAR 50, VARCHAR 50, VARCHAR 10, VARCHAR 2, VARCHAR 100, VARCHAR 50, VARCHAR 50, VARCHAR 10, INTEGER,
      TIMESTAMPTZ, VARCHAR 10, TIMESTAMPTZ, TIMESTAMPTZ,
      VARCHAR 50, VARCHAR 100, VARCHAR 20, VARCHAR 20, VARCHAR 100, VARCHAR 200, VARCHAR 100, VARCHAR 100,
      VARCHAR 50, VARCHAR 50, VARCHAR 50, VARCHAR 3, VARCHAR 50, INTEGER, BIGINT, VARCHAR 50, INTEGER, INTEGER, INTEGER]"

definition item_types :: "sql_type list" where
  "item_types = [VARCHAR 50, BIGINT, VARCHAR 50, INTEGER, VARCHAR 50, VARCHAR 100, INTEGER, VARCHAR 10, INTEGER,
     BIGINT, VARCHAR 100, INTEGER]"

lemma selected_columns_exist:
  "map (select_type base_aliases) base_columns = map Some base_types"
  "map (select_type [([], order_items_table)]) item_columns = map Some item_types"
  by code_simp+

lemma type_fits_iff:
  "type_fits (VARCHAR n) v \<longleftrightarrow> (\<exists>s. v = SqlStr s \<and> char_count s \<le> n \<and> no_nul s)"
  "type_fits INTEGER v \<longleftrightarrow> (\<exists>i. v = SqlInt i \<and> - (2 ^ 31) \<le> i \<and> i < 2 ^ 31)"
  "type_fits BIGINT v \<longleftrightarrow> (\<exists>i. v = SqlInt i \<and> fits64 i)"
  "type_fits TIMESTAMPTZ v \<longleftrightarrow> (\<exists>t. v = SqlTime t \<and> t mod 1000 = 0)"
  by (cases v; simp)+

lemma fits64_int4: "- (2 ^ 31) \<le> i \<Longrightarrow> i < 2 ^ 31 \<Longrightarrow> fits64 i"
  by (simp add: fits64_def)

text \<open>
  A row that the selected columns can hold is scanned: \<open>Scan\<close> never meets a value of another type.
\<close>

lemma typed_item_rows_are_scanned:
  "list_all2 type_fits item_types row \<Longrightarrow> \<exists>item. scan_item row = Some item"
  by (auto simp: item_types_def list_all2_Cons1 type_fits_iff scan_item_def scan_end_def fits64_int4)

lemma typed_base_rows_are_scanned:
  "list_all2 type_fits base_types row \<Longrightarrow> \<exists>order. scan_base row = Some order"
  by (auto simp: base_types_def list_all2_Cons1 type_fits_iff scan_base_def scan_end_def fits64_int4)

section \<open>Names without a schema\<close>

text \<open>
  Postgres looks an unqualified name up in the schema of the user's name and in \<open>public\<close>.
\<close>

definition name_found :: "string \<Rightarrow> string \<Rightarrow> bool" where
  "name_found user name \<longleftrightarrow>
     list_ex (\<lambda>tb. tb_name tb = name \<or> tb_name tb = user @ ''.'' @ name \<or> tb_name tb = ''public.'' @ name) db_schema"

text \<open>
  The statement that reads the items and the foreign keys of the migration name their tables without
  the schema: they work exactly for a user of the schema's name, which the default
  configuration's \<open>postgres\<close> is not.
\<close>

lemma eq_with_suffix:
  "s = user @ t \<longleftrightarrow> length t \<le> length s \<and> drop (length s - length t) s = t \<and> user = take (length s - length t) s"
  by (metis append_eq_conv_conj append_take_drop_id diff_add_inverse2 le_add2 length_append)

lemma table_names: "map tb_name db_schema =
    [''order_service.orders'', ''order_service.deliveries'', ''order_service.payments'', ''order_service.order_items'']"
  by (simp add: db_schema_def orders_table_def deliveries_table_def payments_table_def order_items_table_def)

lemma items_name_found: "name_found user ''order_items'' \<longleftrightarrow> user = ''order_service''"
proof -
  have "name_found user ''order_items'' \<longleftrightarrow>
      list_ex (\<lambda>n. n = ''order_items'' \<or> n = user @ ''.order_items'' \<or> n = ''public.order_items'') (map tb_name db_schema)"
    by (simp add: name_found_def list.pred_map list_ex_iff)
  then show ?thesis unfolding table_names by (simp add: eq_with_suffix)
qed

end
