(* ===== verification/EndToEnd.thy ===== *)
theory EndToEnd
  imports Simulator DbSchema "HOL-Library.Signed_Division"
begin

text \<open>
  The end-to-end test program (\<open>integration_tests/e2e_test/main.go\<close>): it generates orders,
  posts them to the simulator, asks the service for each of them twice, compares, and reports.
  The clock, the texts of times and JSON documents, and the HTTP client come from outside. Of the
  report, the floating-point efficiency is left out.
\<close>

section \<open>Data\<close>

record e2e_delivery =
  ed_Name :: string
  ed_Phone :: string
  ed_Zip :: string
  ed_City :: string
  ed_Address :: string
  ed_Region :: string
  ed_Email :: string

record e2e_payment =
  ep_Transaction :: string
  ep_RequestID :: string
  ep_Currency :: string
  ep_Provider :: string
  ep_Amount :: go_int
  ep_PaymentDt :: go_int64
  ep_Bank :: string
  ep_DeliveryCost :: go_int
  ep_GoodsTotal :: go_int
  ep_CustomFee :: go_int

record e2e_item =
  ei_ChrtID :: go_int
  ei_TrackNumber :: string
  ei_Price :: go_int
  ei_Rid :: string
  ei_Name :: string
  ei_Sale :: go_int
  ei_Size :: string
  ei_TotalPrice :: go_int
  ei_NmID :: go_int
  ei_Brand :: string
  ei_Status :: go_int

record e2e_order =
  eo_OrderUID :: string
  eo_TrackNumber :: string
  eo_Entry :: string
  eo_Delivery :: e2e_delivery
  eo_Payment :: e2e_payment
  eo_Items :: "e2e_item list"
  eo_Locale :: string
  eo_InternalSignature :: string
  eo_CustomerID :: string
  eo_DeliveryService :: string
  eo_Shardkey :: string
  eo_SmID :: go_int
  eo_DateCreated :: string
  eo_OofShard :: string

record test_result =
  tr_OrderUID :: string
  tr_FirstRequest :: int
  tr_SecondRequest :: int
  tr_IsCached :: bool
  tr_Error :: "go_error option"

section \<open>Generating orders\<close>

text \<open>A Go string literal is its UTF-8 encoding; the words below need at most two bytes a rune.\<close>

definition utf8 :: "nat list \<Rightarrow> string" where
  "utf8 cs = concat (map (\<lambda>n. if n < 128 then [byte n] else [byte (192 + n div 64), byte (128 + n mod 64)]) cs)"

text \<open>
  Ivan, Petr, Mariya, Anna, Sergey, Olga, Dmitriy, Ekaterina; Ivanov, Petrov, Sidorov, Smirnov,
  Kuznetsov, Popov, Vasilyev; Moskva, Sankt-Peterburg, Novosibirsk, Yekaterinburg, Kazan, Nizhniy
  Novgorod; Lenina, Pushkina, Gagarina, Sovetskaya, Mira, Tsentralnaya; and the products
  smartphone, notebook, headphones, watch, tablet, camera, television, console, in Cyrillic.
\<close>

definition e2e_names :: "string list" where
  "e2e_names =
     [utf8 [1048, 1074, 1072, 1085], utf8 [1055, 1077, 1090, 1088], utf8 [1052, 1072, 1088, 1080, 1103], utf8 [1040,
      1085, 1085, 1072], utf8 [1057, 1077, 1088, 1075, 1077, 1081], utf8 [1054, 1083, 1100, 1075, 1072], utf8 [1044,
      1084, 1080, 1090, 1088, 1080, 1081], utf8 [1045, 1082, 1072, 1090, 1077, 1088, 1080, 1085, 1072]]"

definition surnames :: "string list" where
  "surnames =
     [utf8 [1048, 1074, 1072, 1085, 1086, 1074], utf8 [1055, 1077, 1090, 1088, 1086, 1074], utf8 [1057, 1080, 1076,
      1086, 1088, 1086, 1074], utf8 [1057, 1084, 1080, 1088, 1085, 1086, 1074], utf8 [1050, 1091, 1079, 1085, 1077,
      1094, 1086, 1074], utf8 [1055, 1086, 1087, 1086, 1074], utf8 [1042, 1072, 1089, 1080, 1083, 1100, 1077, 1074]]"

definition cities :: "string list" where
  "cities =
     [utf8 [1052, 1086, 1089, 1082, 1074, 1072], utf8 [1057, 1072, 1085, 1082, 1090, 45, 1055, 1077, 1090, 1077, 1088,
      1073, 1091, 1088, 1075], utf8 [1053, 1086, 1074, 1086, 1089, 1080, 1073, 1080, 1088, 1089, 1082], utf8 [1045,
      1082, 1072, 1090, 1077, 1088, 1080, 1085, 1073, 1091, 1088, 1075], utf8 [1050, 1072, 1079, 1072, 1085, 1100],
      utf8 [1053, 1080, 1078, 1085, 1080, 1081, 32, 1053, 1086, 1074, 1075, 1086, 1088, 1086, 1076]]"

definition streets :: "string list" where
  "streets =
     [utf8 [1051, 1077, 1085, 1080, 1085, 1072], utf8 [1055, 1091, 1096, 1082, 1080, 1085, 1072], utf8 [1043, 1072,
      1075, 1072, 1088, 1080, 1085, 1072], utf8 [1057, 1086, 1074, 1077, 1090, 1089, 1082, 1072, 1103], utf8 [1052,
      1080, 1088, 1072], utf8 [1062, 1077, 1085, 1090, 1088, 1072, 1083, 1100, 1085, 1072, 1103]]"

definition banks :: "string list" where
  "banks =
     [''alpha'', ''sber'', ''tinkoff'', ''vtb'', ''gazprom'']"

definition currencies :: "string list" where
  "currencies =
     [''USD'', ''EUR'', ''RUB'', ''GBP'']"

definition deliveryServices :: "string list" where
  "deliveryServices =
     [''meest'', ''cdek'', ''dhl'', ''ups'', ''fedex'']"

definition locales :: "string list" where
  "locales =
     [''en'', ''ru'', ''de'', ''fr'']"

definition products :: "(string \<times> string \<times> int) list" where
  "products =
     [(utf8 [1057, 1084, 1072, 1088, 1090, 1092, 1086, 1085], ''Xiaomi'', 25000),
      (utf8 [1053, 1086, 1091, 1090, 1073, 1091, 1082], ''Lenovo'', 45000),
      (utf8 [1053, 1072, 1091, 1096, 1085, 1080, 1082, 1080], ''Sony'', 8000),
      (utf8 [1063, 1072, 1089, 1099], ''Apple'', 35000),
      (utf8 [1055, 1083, 1072, 1085, 1096, 1077, 1090], ''Samsung'', 28000),
      (utf8 [1060, 1086, 1090, 1086, 1072, 1087, 1087, 1072, 1088, 1072, 1090], ''Canon'', 55000),
      (utf8 [1058, 1077, 1083, 1077, 1074, 1080, 1079, 1086, 1088], ''LG'', 40000),
      (utf8 [1048, 1075, 1088, 1086, 1074, 1072, 1103, 32, 1082, 1086, 1085, 1089, 1086, 1083, 1100], ''PlayStation'', 30000)]"

text \<open>\<open>%0wd\<close> and \<open>time.Time.Unix\<close>.\<close>

definition padded :: "nat \<Rightarrow> int \<Rightarrow> string" where
  "padded w i = replicate (w - length (itoa i)) (CHR ''0'') @ itoa i"

definition Unix :: "go_time \<Rightarrow> int" where
  "Unix t = t div 10 ^ 9 - 62135596800"

abbreviation pick :: "'a list \<Rightarrow> nat \<Rightarrow> 'a" where
  "pick xs i \<equiv> xs ! (i mod length xs)"

definition gen_sale :: "nat \<Rightarrow> nat \<Rightarrow> int" where
  "gen_sale i j = int (i * j) mod 50"

definition gen_total_price :: "nat \<Rightarrow> nat \<Rightarrow> int" where
  "gen_total_price i j = snd (snd (pick products (i + j))) * (100 - gen_sale i j) div 100"

definition gen_item :: "string \<Rightarrow> nat \<Rightarrow> nat \<Rightarrow> e2e_item" where
  "gen_item trackNumber i j =
     (let (name, brand, price) = pick products (i + j) in
      \<lparr>ei_ChrtID = word_of_int (1000000 + int i * 10 + int j), ei_TrackNumber = trackNumber,
       ei_Price = word_of_int price, ei_Rid = ''rid_'' @ itoa (int i) @ ''_'' @ itoa (int j), ei_Name = name,
       ei_Sale = word_of_int (gen_sale i j), ei_Size = itoa (int j),
       ei_TotalPrice = word_of_int (gen_total_price i j), ei_NmID = word_of_int (2000000 + int i * 10 + int j),
       ei_Brand = brand, ei_Status = 202\<rparr>)"

definition gen_goods :: "nat \<Rightarrow> int" where
  "gen_goods i = sum_list (map (gen_total_price i) [0..<1 + i mod 3])"

text \<open>
  One order, made at index \<open>i\<close>. \<open>t1\<close>, \<open>t2\<close>, \<open>t3\<close> are the three readings of the clock, and
  \<open>rfc3339\<close> is \<open>Format(time.RFC3339)\<close>. The index of a slice in memory is far too small for
  the other products and sums to wrap; \<open>time.Duration(i) * time.Hour\<close> is a product of words.
\<close>

definition hours :: "nat \<Rightarrow> int" where
  "hours i = sint (- (of_nat i :: go_int64) * 3600000000000)"

definition gen_order :: "(go_time \<Rightarrow> string) \<Rightarrow> go_time \<Rightarrow> go_time \<Rightarrow> go_time \<Rightarrow> nat \<Rightarrow> e2e_order" where
  "gen_order rfc3339 t1 t2 t3 i =
     (let name = pick e2e_names i; surname = pick surnames i; city = pick cities i; street = pick streets i;
          orderUID = ''test_order_'' @ itoa (Unix t1) @ ''_'' @ itoa (int i);
          trackNumber = ''WBILTEST'' @ itoa (int i);
          itemCount = 1 + i mod 3;
          totalGoods = gen_goods i;
          deliveryCost = 500 + int i mod 1500; customFee = int i mod 500;
          totalAmount = totalGoods + deliveryCost + customFee in
      \<lparr>eo_OrderUID = orderUID, eo_TrackNumber = trackNumber, eo_Entry = ''WBIL'',
       eo_Delivery =
         \<lparr>ed_Name = name @ '' '' @ surname, ed_Phone = ''+7916'' @ padded 7 (1000000 + int i),
          ed_Zip = padded 6 (100000 + int i), ed_City = city,
          ed_Address = utf8 [1091, 1083, 46, 32] @ street @ utf8 [44, 32, 1076, 46, 32] @ itoa (1 + int i mod 100),
          ed_Region = city @ utf8 [1089, 1082, 1072, 1103, 32, 1086, 1073, 1083, 1072, 1089, 1090, 1100],
          ed_Email = name @ ''.'' @ surname @ ''@gmail.com''\<rparr>,
       eo_Payment =
         \<lparr>ep_Transaction = orderUID, ep_RequestID = [], ep_Currency = pick currencies i, ep_Provider = ''wbpay'',
          ep_Amount = word_of_int totalAmount, ep_PaymentDt = word_of_int (Unix t2 - int i * 100),
          ep_Bank = pick banks i, ep_DeliveryCost = word_of_int deliveryCost,
          ep_GoodsTotal = word_of_int totalGoods, ep_CustomFee = word_of_int customFee\<rparr>,
       eo_Items = map (gen_item trackNumber i) [0..<itemCount], eo_Locale = pick locales i,
       eo_InternalSignature = [], eo_CustomerID = ''user'' @ itoa (1000 + int i),
       eo_DeliveryService = pick deliveryServices i, eo_Shardkey = itoa (1 + int i mod 9),
       eo_SmID = word_of_int (1 + int i mod 999), eo_DateCreated = rfc3339 (t3 + hours i),
       eo_OofShard = itoa (1 + int i mod 3)\<rparr>)"

text \<open>\<open>clock k\<close> is what the \<open>k\<close>-th call of \<open>time.Now()\<close> gives.\<close>

definition generateRandomOrders :: "(go_time \<Rightarrow> string) \<Rightarrow> (nat \<Rightarrow> go_time) \<Rightarrow> nat \<Rightarrow> e2e_order list" where
  "generateRandomOrders rfc3339 clock n =
     map (\<lambda>i. gen_order rfc3339 (clock (3 * i)) (clock (3 * i + 1)) (clock (3 * i + 2)) i) [0..<n]"

section \<open>The order that the service receives\<close>

text \<open>
  What \<open>json.Unmarshal\<close> of the service reads from what \<open>json.Marshal\<close> of the test wrote:
  the fields with the same JSON name, the others being zero; \<open>parse_time\<close> is how a
  \<open>time.Time\<close> reads its text.
\<close>

definition received_item :: "e2e_item \<Rightarrow> order_item" where
  "received_item it =
     \<lparr>itm_OrderID = [], itm_ChrtID = ei_ChrtID it, itm_TrackNumber = ei_TrackNumber it, itm_Price = ei_Price it,
      itm_RID = ei_Rid it, itm_Name = ei_Name it, itm_Sale = ei_Sale it, itm_Size = ei_Size it,
      itm_TotalPrice = ei_TotalPrice it, itm_NmID = ei_NmID it, itm_Brand = ei_Brand it, itm_Status = ei_Status it\<rparr>"

definition received_delivery :: "e2e_delivery \<Rightarrow> delivery" where
  "received_delivery d =
     \<lparr>dlv_OrderID = [], dlv_Name = ed_Name d, dlv_Phone = ed_Phone d, dlv_Zip = ed_Zip d, dlv_City = ed_City d,
      dlv_Address = ed_Address d, dlv_Region = ed_Region d, dlv_Email = ed_Email d\<rparr>"

definition received_payment :: "e2e_payment \<Rightarrow> payment" where
  "received_payment p =
     \<lparr>pay_OrderID = [], pay_Transaction = ep_Transaction p, pay_RequestID = ep_RequestID p,
      pay_Currency = ep_Currency p, pay_Provider = ep_Provider p, pay_Amount = ep_Amount p,
      pay_PaymentDt = ep_PaymentDt p, pay_Bank = ep_Bank p, pay_DeliveryCost = ep_DeliveryCost p,
      pay_GoodsTotal = ep_GoodsTotal p, pay_CustomFee = ep_CustomFee p\<rparr>"

definition received_order :: "(string \<Rightarrow> go_time) \<Rightarrow> e2e_order \<Rightarrow> order" where
  "received_order parse_time v =
     \<lparr>ord_OrderUID = eo_OrderUID v, ord_TrackNumber = eo_TrackNumber v, ord_Entry = eo_Entry v,
      ord_Locale = eo_Locale v, ord_InternalSignature = eo_InternalSignature v, ord_CustomerID = eo_CustomerID v,
      ord_DeliveryService = eo_DeliveryService v, ord_ShardKey = eo_Shardkey v, ord_SmID = eo_SmID v,
      ord_DateCreated = parse_time (eo_DateCreated v), ord_OofShard = eo_OofShard v, ord_CreatedAt = 0,
      ord_UpdatedAt = 0, ord_Delivery = received_delivery (eo_Delivery v),
      ord_Payment = received_payment (eo_Payment v), ord_Items = map received_item (eo_Items v)\<rparr>"

section \<open>Generated orders are valid\<close>

lemma pick_in: "xs \<noteq> [] \<Longrightarrow> pick xs i \<in> set xs"
  by simp

lemma cyrillic_not_blank: "byte 208 \<in> set s \<Longrightarrow> \<not> blank s"
  by (rule not_blank_byte) (auto simp: space_runes_def)

lemma cyrillic_words:
  "\<forall>s \<in> set e2e_names. byte 208 \<in> set s" "\<forall>s \<in> set cities. byte 208 \<in> set s"
  "\<forall>p \<in> set products. byte 208 \<in> set (fst p)"
  by (simp_all add: e2e_names_def cities_def products_def utf8_def)

lemma latin_words:
  "\<forall>s \<in> set banks. \<not> blank s" "\<forall>s \<in> set currencies. \<not> blank s" "\<forall>s \<in> set deliveryServices. \<not> blank s"
  "\<forall>s \<in> set locales. \<not> blank s" "\<forall>p \<in> set products. \<not> blank (fst (snd p))"
  by (simp_all add: banks_def currencies_def deliveryServices_def locales_def products_def not_blank_Cons)

lemma words_nonempty:
  "e2e_names \<noteq> []" "surnames \<noteq> []" "cities \<noteq> []" "streets \<noteq> []" "banks \<noteq> []" "currencies \<noteq> []"
  "deliveryServices \<noteq> []" "locales \<noteq> []" "products \<noteq> []"
  by (simp_all add: e2e_names_def surnames_def cities_def streets_def banks_def currencies_def
      deliveryServices_def locales_def products_def)

lemma price_range: "\<forall>p \<in> set products. 0 \<le> snd (snd p) \<and> snd (snd p) \<le> 55000"
  by (simp add: products_def)

lemma nat_digits_digit: "digit_char (n mod 10) \<in> set (nat_digits n)"
  by (subst nat_digits.simps) auto

lemma itoa_not_blank: "\<not> blank (itoa i)"
proof (rule not_blank)
  let ?c = "digit_char (nat \<bar>i\<bar> mod 10)"
  show "?c \<in> set (itoa i)"
    using nat_digits_digit [of "nat \<bar>i\<bar>"] by (auto simp: itoa_def abs_if)
  have "nat \<bar>i\<bar> mod 10 < 10" by simp
  then show "32 < (of_char ?c :: nat)" "(of_char ?c :: nat) < 128"
    by (simp_all add: digit_char_def)
qed

lemma gen_sale_range: "0 \<le> gen_sale i j" "gen_sale i j < 50"
  by (simp_all add: gen_sale_def)

lemma gen_total_price_range: "0 \<le> gen_total_price i j \<and> gen_total_price i j \<le> 55000"
proof -
  let ?p = "snd (snd (pick products (i + j)))" and ?s = "gen_sale i j"
  have p: "0 \<le> ?p" "?p \<le> 55000"
    using price_range pick_in [OF words_nonempty(9), of "i + j"] by auto
  have "0 \<le> ?p * (100 - ?s)" using p gen_sale_range [of i j] by simp
  moreover have "?p * (100 - ?s) \<le> 55000 * 100"
    using p gen_sale_range [of i j] by (intro mult_mono) auto
  ultimately show ?thesis by (auto simp: gen_total_price_def)
qed

lemma gen_item_valid:
  assumes "int i < 2 ^ 40" "j < 3" "\<not> blank track"
  shows "item_valid (received_item (gen_item track i j))"
proof -
  obtain name brand price where p: "pick products (i + j) = (name, brand, price)" by (metis prod_cases3)
  then have m: "(name, brand, price) \<in> set products"
    using pick_in [OF words_nonempty(9), of "i + j"] by simp
  have w: "\<not> blank name" "\<not> blank brand"
    using m cyrillic_words(3) latin_words(5) cyrillic_not_blank by fastforce+
  have pr: "0 \<le> price" "price \<le> 55000" using m price_range by fastforce+
  have t: "0 \<le> gen_total_price i j" "gen_total_price i j \<le> 55000" using gen_total_price_range by auto
  have s: "sint (word_of_int price :: 64 word) = price"
    "sint (word_of_int (gen_total_price i j) :: 64 word) = gen_total_price i j"
    "sint (word_of_int (gen_sale i j) :: 64 word) = gen_sale i j"
    "sint (word_of_int (1000000 + int i * 10 + int j) :: 64 word) = 1000000 + int i * 10 + int j"
    "sint (word_of_int (2000000 + int i * 10 + int j) :: 64 word) = 2000000 + int i * 10 + int j"
    using pr t gen_sale_range [of i j] assms(1,2) by - (rule sint_small; simp)+
  show ?thesis
    using w pr t s gen_sale_range [of i j] assms(3) itoa_not_blank
    by (simp add: item_valid_def received_item_def gen_item_def p not_blank_Cons)
qed

lemma gen_items_valid:
  assumes "int i < 2 ^ 40" "\<not> blank track" "it \<in> set (map (gen_item track i) [0..<1 + i mod 3])"
  shows "item_valid (received_item it)"
proof -
  obtain j where j: "j < 1 + i mod 3" "it = gen_item track i j"
    using assms(3) by (auto simp del: upt_Suc)
  then have "j < 3" using mod_less_divisor [of 3 i] by simp
  then show ?thesis using gen_item_valid [OF assms(1) _ assms(2)] j(2) by simp
qed

lemma gen_goods_range: "0 \<le> gen_goods i \<and> gen_goods i \<le> 165000"
proof -
  have "0 \<le> sum_list (map (gen_total_price i) [0..<k]) \<and> sum_list (map (gen_total_price i) [0..<k]) \<le> 55000 * int k" for k
  proof (induction k)
    case (Suc k)
    then show ?case using gen_total_price_range [of i k] by auto
  qed simp
  moreover have "int (1 + i mod 3) \<le> 3" by presburger
  then have "55000 * int (1 + i mod 3) \<le> 165000" by simp
  ultimately show ?thesis unfolding gen_goods_def by (meson order_trans)
qed

lemma hours_exact:
  assumes "int i \<le> 2562047"
  shows "hours i = - (int i * 3600000000000)"
proof -
  have "- (of_nat i :: go_int64) * 3600000000000 = word_of_int (- (int i * 3600000000000))" by simp
  moreover have "sint (word_of_int (- (int i * 3600000000000)) :: 64 word) = - (int i * 3600000000000)"
    using assms by - (rule sint_small; simp)
  ultimately show ?thesis by (simp add: hours_def)
qed

lemma gen_payment_valid:
  assumes "int i * 100 < Unix t2" "Unix t2 < 2 ^ 62"
  shows "payment_valid (received_payment (eo_Payment (gen_order rfc3339 t1 t2 t3 i)))"
proof -
  define d where "d = 500 + int i mod 1500"
  define f where "f = int i mod 500"
  define u where "u = Unix t2 - int i * 100"
  have r: "0 \<le> gen_goods i" "gen_goods i \<le> 165000" "500 \<le> d" "d < 2000" "0 \<le> f" "f < 500" "0 < u" "u < 2 ^ 62"
    using gen_goods_range [of i] assms by (auto simp: d_def f_def u_def)
  have s: "sint (word_of_int (gen_goods i) :: 64 word) = gen_goods i" "sint (word_of_int d :: 64 word) = d"
    "sint (word_of_int f :: 64 word) = f" "sint (word_of_int (gen_goods i + d + f) :: 64 word) = gen_goods i + d + f"
    "sint (word_of_int u :: 64 word) = u"
    using r by - (rule sint_small; simp)+
  have w: "\<not> blank (pick currencies i)" "\<not> blank (pick banks i)"
    using latin_words pick_in words_nonempty by blast+
  have p: "eo_Payment (gen_order rfc3339 t1 t2 t3 i) =
      \<lparr>ep_Transaction = ''test_order_'' @ itoa (Unix t1) @ ''_'' @ itoa (int i), ep_RequestID = [],
       ep_Currency = pick currencies i, ep_Provider = ''wbpay'', ep_Amount = word_of_int (gen_goods i + d + f),
       ep_PaymentDt = word_of_int u, ep_Bank = pick banks i, ep_DeliveryCost = word_of_int d,
       ep_GoodsTotal = word_of_int (gen_goods i), ep_CustomFee = word_of_int f\<rparr>"
    by (simp only: gen_order_def Let_def e2e_order.simps d_def f_def u_def)
  show ?thesis
    unfolding p payment_valid_def received_payment_def payment.simps e2e_payment.simps
    using w r s by (simp add: not_blank_Cons)
qed

lemma gen_delivery_valid:
  assumes "parse_address (ed_Email (eo_Delivery (gen_order rfc3339 t1 t2 t3 i))) = None"
  shows "delivery_valid parse_address (received_delivery (eo_Delivery (gen_order rfc3339 t1 t2 t3 i)))"
proof -
  have w: "byte 208 \<in> set (pick e2e_names i)" "byte 208 \<in> set (pick cities i)"
    using cyrillic_words pick_in words_nonempty by blast+
  have d: "eo_Delivery (gen_order rfc3339 t1 t2 t3 i) =
      \<lparr>ed_Name = pick e2e_names i @ '' '' @ pick surnames i, ed_Phone = ''+7916'' @ padded 7 (1000000 + int i),
       ed_Zip = padded 6 (100000 + int i), ed_City = pick cities i,
       ed_Address = utf8 [1091, 1083, 46, 32] @ pick streets i @ utf8 [44, 32, 1076, 46, 32] @ itoa (1 + int i mod 100),
       ed_Region = pick cities i @ utf8 [1089, 1082, 1072, 1103, 32, 1086, 1073, 1083, 1072, 1089, 1090, 1100],
       ed_Email = pick e2e_names i @ ''.'' @ pick surnames i @ ''@gmail.com''\<rparr>"
    by (simp only: gen_order_def Let_def e2e_order.simps)
  have "\<not> blank (padded 6 (100000 + int i))"
  proof -
    have "digit_char (nat \<bar>100000 + int i\<bar> mod 10) \<in> set (padded 6 (100000 + int i))"
      using nat_digits_digit [of "nat \<bar>100000 + int i\<bar>"] by (simp add: padded_def itoa_def)
    then show ?thesis
      by (rule not_blank) (simp_all add: digit_char_def trans_less_add1)
  qed
  moreover have "\<not> blank (utf8 [1091, 1083, 46, 32] @ s)" for s
    by (rule not_blank [of "byte 46"]) (simp_all add: utf8_def)
  moreover have "\<not> blank (pick e2e_names i @ s)" "\<not> blank (pick cities i @ s)" "\<not> blank (pick cities i)" for s
    using w by (auto intro!: cyrillic_not_blank)
  ultimately show ?thesis
    using assms unfolding d delivery_valid_def received_delivery_def delivery.simps e2e_delivery.simps
    by (simp add: not_blank_Cons)
qed

lemma gen_main_valid:
  assumes "int i \<le> 2562047" "0 < Unix t3" "t3 \<le> now" "\<forall>t. parse_time (rfc3339 t) = t - t mod 10 ^ 9"
  shows "main_valid now (received_order parse_time (gen_order rfc3339 t1 t2 t3 i))"
proof -
  let ?t = "t3 + hours i"
  have "62135596800 * 10 ^ 9 \<le> t3" using assms(2) by (simp add: Unix_def)
  then have t: "10 ^ 9 \<le> ?t" "?t \<le> now" using hours_exact [OF assms(1)] assms(1,3) by simp_all
  have m: "0 \<le> ?t mod 10 ^ 9" "?t mod 10 ^ 9 < 10 ^ 9" by simp_all
  have d: "0 < ?t - ?t mod 10 ^ 9" "?t - ?t mod 10 ^ 9 \<le> now"
    using t m by simp_all
  have s: "sint (word_of_int (1 + int i mod 999) :: 64 word) = 1 + int i mod 999"
    by - (rule sint_small; simp)
  have w: "\<not> blank (pick locales i)" "\<not> blank (pick deliveryServices i)"
    using latin_words pick_in words_nonempty by blast+
  show ?thesis
    unfolding main_valid_def received_order_def gen_order_def Let_def order.simps e2e_order.simps
    using d s w assms(4) itoa_not_blank by (simp add: not_blank_Cons)
qed

lemma gen_order_accepted:
  assumes "int i \<le> 2562047" "int i * 100 < Unix t2" "Unix t2 < 2 ^ 62" "0 < Unix t3" "t3 \<le> now"
    "\<forall>t. parse_time (rfc3339 t) = t - t mod 10 ^ 9"
    "parse_address (ed_Email (eo_Delivery (gen_order rfc3339 t1 t2 t3 i))) = None"
  shows "ValidateOrder parse_address now (received_order parse_time (gen_order rfc3339 t1 t2 t3 i)) = None"
proof -
  have i: "int i < 2 ^ 40" using assms(1) by simp
  have items: "eo_Items (gen_order rfc3339 t1 t2 t3 i) = map (gen_item (''WBILTEST'' @ itoa (int i)) i) [0..<1 + i mod 3]"
    by (simp only: gen_order_def Let_def e2e_order.simps)
  have t: "\<not> blank (''WBILTEST'' @ itoa (int i))" by (simp add: not_blank_Cons)
  have "\<forall>it \<in> set (ord_Items (received_order parse_time (gen_order rfc3339 t1 t2 t3 i))). item_valid it"
    using gen_items_valid [OF i t] unfolding received_order_def order.simps items by (auto simp del: upt_Suc)
  moreover have "ord_Items (received_order parse_time (gen_order rfc3339 t1 t2 t3 i)) \<noteq> []"
    unfolding received_order_def order.simps items by simp
  ultimately have "order_valid parse_address now (received_order parse_time (gen_order rfc3339 t1 t2 t3 i))"
    using gen_main_valid [OF assms(1,4,5,6), of t1 t2] gen_payment_valid [OF assms(2,3)]
      gen_delivery_valid [of parse_address, OF assms(7)]
    by (simp add: order_valid_def received_order_def)
  then show ?thesis by (simp add: order_valid_iff)
qed

text \<open>The texts of numbers differ, and so do the identifiers.\<close>

lemma digit_char_inj: "a < 10 \<Longrightarrow> b < 10 \<Longrightarrow> digit_char a = digit_char b \<Longrightarrow> a = b"
proof -
  assume h: "a < 10" "b < 10" "digit_char a = digit_char b"
  have "(of_char (digit_char a) :: nat) = of_char (digit_char b)" using h(3) by simp
  then show "a = b" using h(1,2) by (simp add: digit_char_def)
qed

lemma nat_digits_inj: "nat_digits m = nat_digits n \<Longrightarrow> m = n"
proof (induction m arbitrary: n rule: nat_digits.induct)
  case (1 m)
  have ne: "nat_digits k \<noteq> []" for k by (subst nat_digits.simps) simp
  have split: "nat_digits k = (if k < 10 then [] else nat_digits (k div 10)) @ [digit_char (k mod 10)]" for k
    by (subst nat_digits.simps) simp
  have "(if m < 10 then [] else nat_digits (m div 10)) = (if n < 10 then [] else nat_digits (n div 10))"
    "digit_char (m mod 10) = digit_char (n mod 10)"
    using "1.prems" by (subst (asm) (1 2) split, simp)+
  moreover from this(2) have "m mod 10 = n mod 10" by (intro digit_char_inj) simp_all
  moreover have "m div 10 = n div 10"
    using calculation(1) "1.IH" ne ne [symmetric] by (cases "m < 10"; cases "n < 10") auto
  ultimately show ?case by (metis div_mult_mod_eq)
qed

lemma no_underscore: "CHR ''_'' \<notin> set (itoa (int i))"
proof -
  have "c \<in> set (nat_digits n) \<Longrightarrow> \<exists>d < 10. c = digit_char d" for c n
  proof (induction n rule: nat_digits.induct)
    case (1 n)
    then show ?case by (subst (asm) (2) nat_digits.simps)
        (auto split: if_splits intro: exI [of _ "n mod 10"])
  qed
  moreover have "CHR ''_'' \<noteq> digit_char d" if "d < 10" for d
  proof
    assume "CHR ''_'' = digit_char d"
    then have "(of_char CHR ''_'' :: nat) = of_char (digit_char d)" by simp
    then show False using that by (simp add: digit_char_def)
  qed
  ultimately show ?thesis by (fastforce simp: itoa_def)
qed

lemma after_last_underscore:
  assumes "CHR ''_'' \<notin> set x" "CHR ''_'' \<notin> set y" "a @ CHR ''_'' # x = b @ CHR ''_'' # y"
  shows "x = y"
proof -
  have last: "takeWhile (\<lambda>c. c \<noteq> CHR ''_'') (rev z @ CHR ''_'' # w) = rev z" if "CHR ''_'' \<notin> set z" for z w :: string
    using that by (subst takeWhile_append2) auto
  have "rev (a @ CHR ''_'' # x) = rev (b @ CHR ''_'' # y)" by (simp only: assms(3))
  then have "rev x @ CHR ''_'' # rev a = rev y @ CHR ''_'' # rev b" by simp
  then have "rev x = rev y" using last [OF assms(1)] last [OF assms(2)] by metis
  then show ?thesis by simp
qed

lemma gen_order_uid:
  "eo_OrderUID (gen_order rfc t1 t2 t3 i) = (''test_order_'' @ itoa (Unix t1)) @ CHR ''_'' # itoa (int i)"
  by (simp add: gen_order_def Let_def)

lemma gen_uid_inj:
  assumes "eo_OrderUID (gen_order rfc t1 t2 t3 i) = eo_OrderUID (gen_order rfc u1 u2 u3 j)"
  shows "i = j"
proof -
  have "itoa (int i) = itoa (int j)"
    using after_last_underscore [OF no_underscore no_underscore assms [unfolded gen_order_uid]] .
  then show ?thesis by (simp add: itoa_def nat_digits_inj)
qed

lemma gen_order_amounts:
  "sint (ep_Amount (eo_Payment (gen_order rfc t1 t2 t3 i))) =
     sum_list (map (\<lambda>it. sint (ei_TotalPrice it)) (eo_Items (gen_order rfc t1 t2 t3 i))) +
     sint (ep_DeliveryCost (eo_Payment (gen_order rfc t1 t2 t3 i))) +
     sint (ep_CustomFee (eo_Payment (gen_order rfc t1 t2 t3 i)))"
proof -
  define d where "d = 500 + int i mod 1500"
  define f where "f = int i mod 500"
  have r: "0 \<le> gen_goods i" "gen_goods i \<le> 165000" "500 \<le> d" "d < 2000" "0 \<le> f" "f < 500"
    using gen_goods_range [of i] by (auto simp: d_def f_def)
  have s: "sint (word_of_int d :: 64 word) = d" "sint (word_of_int f :: 64 word) = f"
    "sint (word_of_int (gen_goods i + d + f) :: 64 word) = gen_goods i + d + f"
    using r by - (rule sint_small; simp)+
  have "sint (ei_TotalPrice (gen_item track i j)) = gen_total_price i j" for track j
    using gen_total_price_range [of i j] sint_small [of "gen_total_price i j"]
    by (simp add: gen_item_def split: prod.split)
  then have "sum_list (map (\<lambda>it. sint (ei_TotalPrice it)) (map (gen_item track i) [0..<1 + i mod 3])) = gen_goods i" for track
    by (simp add: gen_goods_def comp_def del: upt_Suc)
  then show ?thesis
    unfolding gen_order_def Let_def e2e_order.simps e2e_payment.simps d_def [symmetric] f_def [symmetric] s by simp
qed

section \<open>Generated orders fit the tables\<close>

lemma length_nat_digits: "n < 10 ^ Suc k \<Longrightarrow> length (nat_digits n) \<le> Suc k"
proof (induction k arbitrary: n)
  case 0
  then show ?case by (subst nat_digits.simps) simp
next
  case (Suc k)
  then have "n div 10 < 10 ^ Suc k" by (simp add: div_less_iff_less_mult mult.commute)
  then show ?case using Suc.IH [of "n div 10"] by (subst nat_digits.simps) simp
qed

lemma char_count_itoa: "0 \<le> i \<Longrightarrow> i < 10 ^ Suc k \<Longrightarrow> char_count (itoa i) \<le> Suc k"
  by (rule char_count_le) (use length_nat_digits [of "nat i" k] in \<open>simp add: itoa_def nat_less_iff\<close>)

lemma byte_nul: "char_of (n :: nat) = CHR 0x00 \<longleftrightarrow> n mod 256 = 0"
proof -
  have "char_of n = CHR 0x00 \<longleftrightarrow> (of_char (char_of n) :: nat) = of_char (CHR 0x00)" by (simp only: of_char_eq_iff)
  then show ?thesis by simp
qed

lemma no_nul_itoa [simp]: "no_nul (itoa i)"
proof -
  have d: "digit_char k \<noteq> CHR 0x00" if "k < 10" for k
    using that by (simp add: digit_char_def byte_nul)
  have "no_nul (nat_digits n)" for n
    by (induction n rule: nat_digits.induct) (subst nat_digits.simps, simp add: d)
  then show ?thesis by (simp add: itoa_def)
qed

lemma no_nul_padded [simp]: "no_nul (padded w i)"
proof -
  have "no_nul (replicate k (CHR ''0''))" for k by (induction k) simp_all
  then show ?thesis by (simp add: padded_def)
qed

lemma short_words:
  "list_all (\<lambda>s. char_count s \<le> 9 \<and> no_nul s) e2e_names" "list_all (\<lambda>s. char_count s \<le> 9 \<and> no_nul s) surnames"
  "list_all (\<lambda>s. char_count s \<le> 15 \<and> no_nul s) cities" "list_all (\<lambda>s. char_count s \<le> 11 \<and> no_nul s) streets"
  "list_all (\<lambda>s. char_count s \<le> 7 \<and> no_nul s) banks" "list_all (\<lambda>s. char_count s \<le> 3 \<and> no_nul s) currencies"
  "list_all (\<lambda>s. char_count s \<le> 5 \<and> no_nul s) deliveryServices" "list_all (\<lambda>s. char_count s \<le> 2 \<and> no_nul s) locales"
  "list_all (\<lambda>p. char_count (fst p) \<le> 17 \<and> no_nul (fst p) \<and> char_count (fst (snd p)) \<le> 11 \<and> no_nul (fst (snd p))) products"
  by (simp_all add: e2e_names_def surnames_def cities_def streets_def banks_def currencies_def deliveryServices_def
      locales_def products_def char_count_def utf8_def byte_nul)

lemma short_pick:
  "list_all P xs \<Longrightarrow> xs \<noteq> [] \<Longrightarrow> P (pick xs i)"
  by (simp add: list_all_length)

lemmas gen_words = short_pick [OF short_words(1) words_nonempty(1)] short_pick [OF short_words(2) words_nonempty(2)]
  short_pick [OF short_words(3) words_nonempty(3)] short_pick [OF short_words(4) words_nonempty(4)]
  short_pick [OF short_words(5) words_nonempty(5)] short_pick [OF short_words(6) words_nonempty(6)]
  short_pick [OF short_words(7) words_nonempty(7)] short_pick [OF short_words(8) words_nonempty(8)]

lemma char_count_padded: "0 \<le> i \<Longrightarrow> i < 10 ^ Suc k \<Longrightarrow> w \<le> Suc k \<Longrightarrow> char_count (padded w i) \<le> Suc k"
  by (rule char_count_le) (use length_nat_digits [of "nat i" k] in \<open>simp add: padded_def itoa_def nat_less_iff\<close>)

lemma gen_item_within_limits:
  assumes "int i \<le> 2562047" "j < 3" "char_count track \<le> 50 \<and> no_nul track"
  shows "item_within_limits (received_item (gen_item track i j))"
proof -
  obtain name brand price where p: "pick products (i + j) = (name, brand, price)" by (metis prod_cases3)
  then have w: "char_count name \<le> 17" "char_count brand \<le> 11" "no_nul name" "no_nul brand"
    using short_pick [OF short_words(9) words_nonempty(9), of "i + j"] by simp_all
  have "0 \<le> price" "price \<le> 55000"
    using p price_range pick_in [OF words_nonempty(9), of "i + j"] by fastforce+
  then have s: "sint (word_of_int price :: 64 word) < 2 ^ 31" by (simp add: sint_small)
  have t: "sint (word_of_int (gen_total_price i j) :: 64 word) < 2 ^ 31"
    using gen_total_price_range [of i j] by (simp add: sint_small)
  have "char_count (itoa (int i)) \<le> 7" "char_count (itoa (int j)) \<le> 1"
    using char_count_itoa [of "int i" 6] char_count_itoa [of "int j" 0] assms(1,2) by simp_all
  then show ?thesis using w s t assms(3)
    by (simp add: item_within_limits_def texts_within_def received_item_def gen_item_def p int4_def)
qed

lemma gen_nm_ids_distinct:
  assumes "int i \<le> 2562047" "k \<le> 10"
  shows "distinct (map (\<lambda>j. itm_NmID (received_item (gen_item track i j))) [0..<k])"
proof -
  have "sint (ei_NmID (gen_item track i j)) = 2000000 + int i * 10 + int j" if "j < 10" for j
    using assms(1) that sint_small [of "2000000 + int i * 10 + int j"] by (simp add: gen_item_def split: prod.split)
  then have "ei_NmID (gen_item track i j) = ei_NmID (gen_item track i j') \<Longrightarrow> j = j'" if "j < 10" "j' < 10" for j j'
    using that by (metis add_left_cancel of_nat_eq_iff)
  then show ?thesis using assms(2) by (auto simp: distinct_map received_item_def intro!: inj_onI)
qed

lemma gen_order_within_limits:
  assumes "int i \<le> 2562047" "0 \<le> Unix t1" "Unix t1 < 2 ^ 62" "\<forall>t. parse_time (rfc t) = t - t mod 10 ^ 9"
  shows "within_limits (received_order parse_time (gen_order rfc t1 t2 t3 i))"
proof -
  let ?v = "gen_order rfc t1 t2 t3 i" and ?track = "''WBILTEST'' @ itoa (int i)"
  have c: "char_count (itoa (int i)) \<le> 7" "char_count (itoa (Unix t1)) \<le> 19"
    "char_count (itoa (1000 + int i)) \<le> 7" "char_count (itoa (1 + int i mod 9)) \<le> 1"
    "char_count (itoa (1 + int i mod 3)) \<le> 1" "char_count (itoa (1 + int i mod 100)) \<le> 3"
    "char_count (padded 7 (1000000 + int i)) \<le> 7" "char_count (padded 6 (100000 + int i)) \<le> 7"
    using char_count_itoa [of "int i" 6] char_count_itoa [of "Unix t1" 18] char_count_itoa [of "1000 + int i" 6]
      char_count_itoa [of "1 + int i mod 9" 0] char_count_itoa [of "1 + int i mod 3" 0]
      char_count_itoa [of "1 + int i mod 100" 2] char_count_padded [of "1000000 + int i" 6 7]
      char_count_padded [of "100000 + int i" 6 6] assms by simp_all
  have u: "char_count (utf8 [1091, 1083, 46, 32]) = 4" "char_count (utf8 [44, 32, 1076, 46, 32]) = 5"
    "char_count (utf8 [1089, 1082, 1072, 1103, 32, 1086, 1073, 1083, 1072, 1089, 1090, 1100]) = 12"
    "no_nul (utf8 [1091, 1083, 46, 32])" "no_nul (utf8 [44, 32, 1076, 46, 32])"
    "no_nul (utf8 [1089, 1082, 1072, 1103, 32, 1086, 1073, 1083, 1072, 1089, 1090, 1100])"
    by (simp_all add: utf8_def byte_nul)
  have n: "int4 (word_of_int (1 + int i mod 999))" "int4 (word_of_int (gen_goods i))"
    "int4 (word_of_int (500 + int i mod 1500))" "int4 (word_of_int (int i mod 500))"
    "int4 (word_of_int (gen_goods i + (500 + int i mod 1500) + int i mod 500))"
  proof -
    have r: "0 \<le> gen_goods i" "gen_goods i \<le> 165000" "0 \<le> int i mod 500" "int i mod 500 < 500"
      "0 \<le> int i mod 1500" "int i mod 1500 < 1500" "0 \<le> int i mod 999" "int i mod 999 < 999"
      using gen_goods_range [of i] by simp_all
    then show "int4 (word_of_int (1 + int i mod 999))" "int4 (word_of_int (gen_goods i))"
      "int4 (word_of_int (500 + int i mod 1500))" "int4 (word_of_int (int i mod 500))"
      "int4 (word_of_int (gen_goods i + (500 + int i mod 1500) + int i mod 500))"
      by - (rule int4_small; simp)+
  qed
  have its: "list_all item_within_limits (map received_item (map (gen_item ?track i) [0..<1 + i mod 3]))"
  proof -
    have j: "j < 3" if "j < 1 + i mod 3" for j using that mod_less_divisor [of 3 i] by linarith
    have "char_count ?track \<le> 50 \<and> no_nul ?track" using c(1) by simp
    from gen_item_within_limits [OF assms(1) j this] show ?thesis by (auto simp: list_all_iff simp del: upt_Suc append.simps)
  qed
  have m: "(t - t mod 10 ^ 9) mod 1000 = 0" for t :: int
  proof -
    have "t - t mod 10 ^ 9 = 1000 * (10 ^ 6 * (t div 10 ^ 9))" by (simp add: minus_mod_eq_mult_div)
    then show ?thesis by simp
  qed
  have "distinct (map itm_NmID (map received_item (map (gen_item ?track i) [0..<1 + i mod 3])))"
    using gen_nm_ids_distinct [OF assms(1), of "1 + i mod 3" ?track] by (simp add: comp_def del: upt_Suc)
  then show ?thesis
    using c u gen_words [of i] n its m assms(4)
    unfolding within_limits_def Let_def texts_within_def received_order_def received_delivery_def received_payment_def
      gen_order_def order.simps delivery.simps payment.simps e2e_order.simps e2e_delivery.simps e2e_payment.simps
    by (simp del: upt_Suc)
qed

text \<open>
  C30: Every order that the test program generates is accepted by the validation of the
  service, whatever the clock gave: for up to 2562048 orders (beyond, the age of an order in hours
  overflows a duration), made by a clock that is late enough for their ages and not ahead of the
  service, by any text format of times that keeps seconds, and for emails that
  \<open>mail.ParseAddress\<close> takes; and it can be stored in the tables of the service. The
  identifiers differ, and the amount of a payment is the sum
  of its items' prices, the delivery cost and the fee.
\<close>

theorem generated_orders_are_accepted:
  assumes "int n \<le> 2562048" "\<forall>k. 100 * int n < Unix (clock k) \<and> clock k \<le> now" "Unix now < 2 ^ 62"
    and "\<forall>t. parse_time (rfc t) = t - t mod 10 ^ 9"
    and "\<forall>v \<in> set (generateRandomOrders rfc clock n). parse_address (ed_Email (eo_Delivery v)) = None"
  shows "(\<forall>v \<in> set (generateRandomOrders rfc clock n).
       ValidateOrder parse_address now (received_order parse_time v) = None \<and>
       storable (received_order parse_time v) \<and>
       sint (ep_Amount (eo_Payment v)) = sum_list (map (\<lambda>it. sint (ei_TotalPrice it)) (eo_Items v)) +
         sint (ep_DeliveryCost (eo_Payment v)) + sint (ep_CustomFee (eo_Payment v))) \<and>
    distinct (map eo_OrderUID (generateRandomOrders rfc clock n))"
proof (intro conjI ballI)
  show "distinct (map eo_OrderUID (generateRandomOrders rfc clock n))"
    unfolding generateRandomOrders_def map_map comp_def
    by (subst distinct_map) (auto intro!: inj_onI dest: gen_uid_inj)
next
  fix v
  assume v: "v \<in> set (generateRandomOrders rfc clock n)"
  then obtain i where i: "i < n" "v = gen_order rfc (clock (3 * i)) (clock (3 * i + 1)) (clock (3 * i + 2)) i"
    by (auto simp: generateRandomOrders_def)
  have n: "int i \<le> 2562047" "int i * 100 < 100 * int n" using assms(1) i(1) by simp_all
  have c: "100 * int n < Unix (clock k)" "clock k \<le> now" for k using assms(2) by auto
  have "int i * 100 < Unix (clock (3 * i + 1))" using n(2) c(1) by (rule less_trans)
  moreover have "Unix (clock (3 * i + 1)) \<le> Unix now"
    using c(2) by (simp add: Unix_def zdiv_mono1)
  then have "Unix (clock (3 * i + 1)) < 2 ^ 62" using assms(3) by (rule le_less_trans)
  moreover have "0 < Unix (clock (3 * i + 2))" using c(1) [of "3 * i + 2"] by simp
  ultimately show valid: "ValidateOrder parse_address now (received_order parse_time v) = None"
    using gen_order_accepted [where i = i and parse_time = parse_time, OF n(1) _ _ _ c(2) assms(4)] assms(5) v
    unfolding i(2) by blast
  have "0 < Unix (clock (3 * i))" "Unix (clock (3 * i)) < 2 ^ 62"
    using c [of "3 * i"] assms(3) by (simp, simp add: Unix_def zdiv_mono1 le_less_trans)
  then have "within_limits (received_order parse_time v)"
    using gen_order_within_limits [OF n(1) _ _ assms(4)] unfolding i(2) by simp
  then show "storable (received_order parse_time v)" by (simp add: storable_iff_within_limits [OF valid])
  show "sint (ep_Amount (eo_Payment v)) = sum_list (map (\<lambda>it. sint (ei_TotalPrice it)) (eo_Items v)) +
      sint (ep_DeliveryCost (eo_Payment v)) + sint (ep_CustomFee (eo_Payment v))"
    unfolding i(2) by (rule gen_order_amounts)
qed

text \<open>Fifty orders, as \<open>main\<close> makes them, by a clock that stands still in November 2023.\<close>

definition still_clock :: "nat \<Rightarrow> go_time" where
  "still_clock k = (62135596800 + 1700000000) * 10 ^ 9"

text \<open>Seconds as decimal text, and back.\<close>

definition text_of_time :: "go_time \<Rightarrow> string" where
  "text_of_time t = itoa (t div 10 ^ 9)"

definition time_of_text :: "string \<Rightarrow> go_time" where
  "time_of_text s = 10 ^ 9 *
     (case s of
        c # cs \<Rightarrow> if c = CHR ''-'' then - (case decimal cs of Some n \<Rightarrow> int n | None \<Rightarrow> 0)
                 else (case decimal s of Some n \<Rightarrow> int n | None \<Rightarrow> 0)
      | [] \<Rightarrow> 0)"

lemma digit_char_digit: "d < 10 \<Longrightarrow> ascii_digit (digit_char d) \<and> (of_char (digit_char d) :: nat) = 48 + d \<and> digit_char d \<noteq> CHR ''-''"
proof -
  assume d: "d < 10"
  then have "(of_char (digit_char d) :: nat) = 48 + d" by (simp add: digit_char_def)
  moreover have "(of_char CHR ''-'' :: nat) = 45" by simp
  moreover have "digit_char d \<noteq> CHR ''-''"
  proof
    assume "digit_char d = CHR ''-''"
    then have "(of_char (digit_char d) :: nat) = of_char CHR ''-''" by simp
    then show False using calculation by simp
  qed
  ultimately show ?thesis using d by (simp add: ascii_digit_def)
qed

lemma decimal_nat_digits: "decimal (nat_digits n) = Some n \<and> hd (nat_digits n) \<noteq> CHR ''-''"
proof (induction n rule: nat_digits.induct)
  case (1 n)
  show ?case
  proof (cases "n < 10")
    case True
    then show ?thesis using digit_char_digit [of n] by (subst (1 2) nat_digits.simps) (simp add: decimal_def)
  next
    case False
    have "n mod 10 < 10" by simp
    note d = digit_char_digit [OF this]
    have ih: "nat_digits (n div 10) \<noteq> []" "list_all ascii_digit (nat_digits (n div 10))"
      "foldl (\<lambda>n c. 10 * n + (of_char c - 48)) 0 (nat_digits (n div 10)) = n div 10"
      "hd (nat_digits (n div 10)) \<noteq> CHR ''-''"
      using "1.IH" [OF False] by (simp_all add: decimal_def split: if_splits)
    then show ?thesis using d False by (subst (1 2) nat_digits.simps) (simp add: decimal_def)
  qed
qed

lemma text_of_time_inverse: "time_of_text (text_of_time t) = t - t mod 10 ^ 9"
proof -
  have ne: "nat_digits k \<noteq> []" for k by (subst nat_digits.simps) simp
  have "time_of_text (itoa k) = 10 ^ 9 * k" for k
    using decimal_nat_digits [of "nat k"] decimal_nat_digits [of "nat (- k)"] ne [of "nat k"]
    by (auto simp: time_of_text_def itoa_def split: list.split)
  then show ?thesis by (simp add: text_of_time_def minus_mod_eq_mult_div)
qed

theorem generated_orders_are_accepted_witness:
  "list_all (\<lambda>v. ValidateOrder (\<lambda>_. None) (still_clock 0) (received_order time_of_text v) = None \<and>
       storable (received_order time_of_text v))
     (generateRandomOrders text_of_time still_clock 50)"
  using generated_orders_are_accepted [of 50 still_clock "still_clock 0" time_of_text text_of_time "\<lambda>_. None"]
    text_of_time_inverse
  by (simp add: still_clock_def Unix_def list_all_iff)

section \<open>Sending the orders\<close>

text \<open>
  The HTTP client: \<open>hc_Do\<close> is \<open>client.Do\<close> over the state \<open>'w\<close> of the world, a response
  being its status and the bytes of its body. \<open>hc_NewRequest\<close> is the error of
  \<open>http.NewRequestWithContext\<close> for a URL, \<open>hc_Marshal\<close> and \<open>hc_Decode\<close> are JSON's.
\<close>

record e2e_request =
  rq_Method :: string
  rq_URL :: string
  rq_ContentType :: "string option"
  rq_Body :: string

record 'w e2e_client =
  hc_Do :: "e2e_request \<Rightarrow> ('w, go_error + int \<times> string) run"
  hc_NewRequest :: "string \<Rightarrow> go_error option"
  hc_Marshal :: "e2e_order \<Rightarrow> go_error + string"
  hc_Decode :: "string \<Rightarrow> go_error + e2e_order"

definition send_error :: "string \<Rightarrow> e2e_order \<Rightarrow> go_error \<Rightarrow> go_error" where
  "send_error what v err = Wrap (''failed to '' @ what @ eo_OrderUID v @ '': '') err ''''"

primrec sendOrders :: "'w e2e_client \<Rightarrow> string \<Rightarrow> e2e_order list \<Rightarrow> ('w, go_error option) run" where
  "sendOrders c url [] = ret None"
| "sendOrders c url (v # vs) =
     (case hc_Marshal c v of
        Inl err \<Rightarrow> ret (Some (send_error ''marshal order '' v err))
      | Inr jsonData \<Rightarrow>
          (case hc_NewRequest c url of
             Some err \<Rightarrow> ret (Some (send_error ''create request for order '' v err))
           | None \<Rightarrow>
               bind_run (hc_Do c \<lparr>rq_Method = ''POST'', rq_URL = url, rq_ContentType = Some ''application/json'',
                   rq_Body = jsonData\<rparr>) (\<lambda>resp.
                 case resp of
                   Inl err \<Rightarrow> ret (Some (send_error ''send order '' v err))
                 | Inr (status, body) \<Rightarrow>
                     if status \<noteq> 200 \<and> status \<noteq> 201
                     then ret (Some (Errorf (''unexpected status for order '' @ eo_OrderUID v @ '': '' @ itoa status @
                            '', body: '' @ body)))
                     else sendOrders c url vs)))"

text \<open>The client connected to the simulator, behind a proxy that passes \<open>/create\<close>.\<close>

definition to_simulator ::
  "(sim_message list \<Rightarrow> 'k \<Rightarrow> 'k \<times> go_error option) \<Rightarrow> string \<Rightarrow> e2e_request \<Rightarrow> ('k, go_error + int \<times> string) run" where
  "to_simulator WriteMessages key req k =
     (case NewMux WriteMessages key ''/create'' (rq_Method req) (Inr (rq_Body req)) new_writer k of
        (k', w) \<Rightarrow> (k', Returns (Inr (case wr_status w of None \<Rightarrow> 200 | Some s \<Rightarrow> s, wr_body w))))"

text \<open>A client that gets the status 202 for whatever it sends.\<close>

lemma sendOrders_refuses_202:
  assumes "hc_Marshal c v = Inr data" "hc_NewRequest c url = None" "\<And>req w. \<exists>w' body. hc_Do c req w = (w', Returns (Inr (202, body)))"
  shows "\<exists>w' e. sendOrders c url (v # vs) w = (w', Returns (Some e))"
proof -
  obtain w' body where "hc_Do c \<lparr>rq_Method = ''POST'', rq_URL = url, rq_ContentType = Some ''application/json'',
      rq_Body = data\<rparr> w = (w', Returns (Inr (202, body)))"
    using assms(3) by blast
  then show ?thesis using assms(1,2) by (simp add: ret_def)
qed

lemma simulator_takes:
  assumes "WriteMessages [\<lparr>sm_Key = key, sm_Value = rq_Body req\<rparr>] k = (k', None)" "rq_Method req = ''POST''"
  shows "to_simulator WriteMessages key req k = (k', Returns (Inr (200, ok_body)))"
  using assms
  by (simp add: to_simulator_def NewMux_def NewCreateOrderHandler_def wr_Write_def wr_WriteHeader_def new_writer_def Let_def)

text \<open>
  The test's sender and the simulator fit together: if Kafka takes every message, then
  all orders are sent without an error, and the topic holds them in their order, each once, with
  the simulator's key and the JSON text as it was sent. It rests on the simulator's answering
  200: with the 202 that its code means to answer, the sender would give up at the first order.
\<close>

lemma simulator_takes_all_orders:
  assumes "hc_Do c = to_simulator (\<lambda>ms k. (k @ ms, None)) key" "hc_NewRequest c url = None"
    and "\<forall>v \<in> set vs. hc_Marshal c v = Inr (text v)"
  shows "sendOrders c url vs topic = (topic @ map (\<lambda>v. \<lparr>sm_Key = key, sm_Value = text v\<rparr>) vs, Returns None) \<and>
    (vs \<noteq> [] \<longrightarrow> (\<exists>w e. sendOrders (c\<lparr>hc_Do := (\<lambda>req w. (w, Returns (Inr (202, ok_body))))\<rparr>) url vs topic = (w, Returns (Some e))))"
proof
  show "sendOrders c url vs topic = (topic @ map (\<lambda>v. \<lparr>sm_Key = key, sm_Value = text v\<rparr>) vs, Returns None)"
    using assms(3)
  proof (induction vs arbitrary: topic)
    case (Cons v vs)
    then show ?case by (simp add: assms(1,2) simulator_takes)
  qed (simp add: ret_def)
  show "vs \<noteq> [] \<longrightarrow> (\<exists>w e. sendOrders (c\<lparr>hc_Do := (\<lambda>req w. (w, Returns (Inr (202, ok_body))))\<rparr>) url vs topic = (w, Returns (Some e)))"
    using sendOrders_refuses_202 [where c = "c\<lparr>hc_Do := (\<lambda>req w. (w, Returns (Inr (202, ok_body))))\<rparr>"] assms(2,3)
    by (cases vs) auto
qed

lemma simulator_takes_all_orders_witness:
  "sendOrders \<lparr>hc_Do = to_simulator (\<lambda>ms k. (k @ ms, None)) ''key'', hc_NewRequest = (\<lambda>_. None),
       hc_Marshal = (\<lambda>v. Inr (eo_OrderUID v)), hc_Decode = (\<lambda>_. Inl (Ext ''not json''))\<rparr> ''http://host/simulator/create''
     (generateRandomOrders text_of_time still_clock 50) [] =
   (map (\<lambda>v. \<lparr>sm_Key = ''key'', sm_Value = eo_OrderUID v\<rparr>) (generateRandomOrders text_of_time still_clock 50), Returns None)"
  using simulator_takes_all_orders [of "\<lparr>hc_Do = to_simulator (\<lambda>ms k. (k @ ms, None)) ''key'', hc_NewRequest = (\<lambda>_. None),
       hc_Marshal = (\<lambda>v. Inr (eo_OrderUID v)), hc_Decode = (\<lambda>_. Inl (Ext ''not json''))\<rparr>" "''key''"
      "''http://host/simulator/create''" "generateRandomOrders text_of_time still_clock 50" eo_OrderUID "[]"]
  by simp

section \<open>Asking for the orders\<close>

text \<open>\<open>getOrder\<close> on the result of \<open>client.Get\<close>; with an error its order is not used.\<close>

definition getOrder :: "(string \<Rightarrow> go_error + e2e_order) \<Rightarrow> go_error + int \<times> string \<Rightarrow> go_error + e2e_order" where
  "getOrder decode resp =
     (case resp of
        Inl err \<Rightarrow> Inl (Wrap ''GET request failed: '' err '''')
      | Inr (status, body) \<Rightarrow>
          if status \<noteq> 200 then Inl (Errorf (''unexpected status: '' @ itoa status))
          else (case decode body of
                  Inl err \<Rightarrow> Inl (Wrap ''failed to decode response: '' err '''')
                | Inr v \<Rightarrow> Inr v))"

definition compareOrders :: "e2e_order \<Rightarrow> e2e_order \<Rightarrow> bool" where
  "compareOrders a b \<longleftrightarrow>
     eo_OrderUID a = eo_OrderUID b \<and> eo_TrackNumber a = eo_TrackNumber b \<and>
     ep_Transaction (eo_Payment a) = ep_Transaction (eo_Payment b) \<and>
     ep_Amount (eo_Payment a) = ep_Amount (eo_Payment b) \<and>
     length (eo_Items a) = length (eo_Items b)"

text \<open>
  The goroutine of one order: \<open>first\<close> and \<open>second\<close> are the answers to its two
  requests, and the durations what \<open>time.Since\<close> measured.
\<close>

definition test_order ::
  "(string \<Rightarrow> go_error + e2e_order) \<Rightarrow> e2e_order \<Rightarrow> go_error + int \<times> string \<Rightarrow> int \<Rightarrow>
   go_error + int \<times> string \<Rightarrow> int \<Rightarrow> test_result" where
  "test_order decode v first d1 second d2 =
     (let result = \<lparr>tr_OrderUID = eo_OrderUID v, tr_FirstRequest = d1, tr_SecondRequest = 0, tr_IsCached = False,
            tr_Error = None\<rparr> in
      case getOrder decode first of
        Inl err \<Rightarrow> result\<lparr>tr_Error := Some err\<rparr>
      | Inr order1 \<Rightarrow>
          if \<not> compareOrders v order1 then result\<lparr>tr_Error := Some (Errorf ''order data mismatch'')\<rparr>
          else
            (let result = result\<lparr>tr_SecondRequest := d2\<rparr> in
             case getOrder decode second of
               Inl err \<Rightarrow> result\<lparr>tr_Error := Some err\<rparr>
             | Inr order2 \<Rightarrow>
                 if \<not> compareOrders v order2 then result\<lparr>tr_Error := Some (Errorf ''cached order data mismatch'')\<rparr>
                 else result\<lparr>tr_IsCached := d2 < d1\<rparr>))"

text \<open>
  All goroutines: \<open>answer i k\<close> is the answer that the goroutine of order \<open>i\<close> got for its
  request \<open>k\<close>, however the goroutines interleaved, and \<open>took i k\<close> its duration. Each
  goroutine writes its own slot of the results.
\<close>

definition testCachePerformance ::
  "(string \<Rightarrow> go_error + e2e_order) \<Rightarrow> (nat \<Rightarrow> nat \<Rightarrow> go_error + int \<times> string) \<Rightarrow> (nat \<Rightarrow> nat \<Rightarrow> int) \<Rightarrow>
   e2e_order list \<Rightarrow> test_result list" where
  "testCachePerformance decode answer took vs =
     map (\<lambda>i. test_order decode (vs ! i) (answer i 0) (took i 0) (answer i 1) (took i 1)) [0..<length vs]"

section \<open>The report\<close>

text \<open>The report, and the orders and errors that are logged one by one.\<close>

record report =
  rp_total :: int
  rp_successful :: int
  rp_cached :: int
  rp_avg_first :: int
  rp_avg_second :: int
  rp_failures :: int
  rp_log :: "(string \<times> go_error) list"

record tally =
  ta_successful :: int
  ta_cached :: int
  ta_first :: int
  ta_second :: int
  ta_log :: "(string \<times> go_error) list"

definition count_result :: "test_result \<Rightarrow> tally \<Rightarrow> tally" where
  "count_result r t =
     (case tr_Error r of
        None \<Rightarrow> t\<lparr>ta_successful := ta_successful t + 1,
                 ta_cached := (if tr_IsCached r then ta_cached t + 1 else ta_cached t),
                 ta_first := ta_first t + tr_FirstRequest r, ta_second := ta_second t + tr_SecondRequest r\<rparr>
      | Some err \<Rightarrow> t\<lparr>ta_log := ta_log t @ [(tr_OrderUID r, err)]\<rparr>)"

definition analyzeResults :: "test_result list \<Rightarrow> report" where
  "analyzeResults results =
     (let t = fold count_result results \<lparr>ta_successful = 0, ta_cached = 0, ta_first = 0, ta_second = 0, ta_log = []\<rparr>;
          total = int (length results) in
      \<lparr>rp_total = total, rp_successful = ta_successful t, rp_cached = ta_cached t,
       rp_avg_first = (if ta_successful t > 0 then ta_first t sdiv ta_successful t else 0),
       rp_avg_second = (if ta_successful t > 0 then ta_second t sdiv ta_successful t else 0),
       rp_failures = total - ta_successful t, rp_log = ta_log t\<rparr>)"

lemma fold_count_result:
  "fold count_result rs t =
     t\<lparr>ta_successful := ta_successful t + int (length (filter (\<lambda>r. tr_Error r = None) rs)),
       ta_cached := ta_cached t + int (length (filter (\<lambda>r. tr_Error r = None \<and> tr_IsCached r) rs)),
       ta_first := ta_first t + sum_list (map tr_FirstRequest (filter (\<lambda>r. tr_Error r = None) rs)),
       ta_second := ta_second t + sum_list (map tr_SecondRequest (filter (\<lambda>r. tr_Error r = None) rs)),
       ta_log := ta_log t @ map (\<lambda>r. (tr_OrderUID r, the (tr_Error r))) (filter (\<lambda>r. tr_Error r \<noteq> None) rs)\<rparr>"
  by (induction rs arbitrary: t) (auto simp: count_result_def split: option.split)

text \<open>An order passes when both of its requests are answered by an order with its key fields.\<close>

definition answered :: "(string \<Rightarrow> go_error + e2e_order) \<Rightarrow> e2e_order \<Rightarrow> go_error + int \<times> string \<Rightarrow> bool" where
  "answered decode v resp \<longleftrightarrow>
     (case resp of
        Inr (status, body) \<Rightarrow>
          status = 200 \<and> (case decode body of Inr w \<Rightarrow> compareOrders v w | Inl _ \<Rightarrow> False)
      | Inl _ \<Rightarrow> False)"

lemma answered_getOrder:
  "answered decode v resp \<longleftrightarrow> (\<exists>w. getOrder decode resp = Inr w \<and> compareOrders v w)"
proof (cases resp)
  case (Inr p)
  then show ?thesis
    by (cases p; cases "fst p = 200"; cases "decode (snd p)") (auto simp: answered_def getOrder_def)
qed (simp add: answered_def getOrder_def)

lemma test_order_passes:
  "tr_Error (test_order decode v a1 d1 a2 d2) = None \<longleftrightarrow> answered decode v a1 \<and> answered decode v a2"
  "tr_Error (test_order decode v a1 d1 a2 d2) = None \<Longrightarrow> tr_IsCached (test_order decode v a1 d1 a2 d2) \<longleftrightarrow> d2 < d1"
  "tr_OrderUID (test_order decode v a1 d1 a2 d2) = eo_OrderUID v"
  by (auto simp: test_order_def answered_getOrder Let_def split: sum.split)

text \<open>
  The report counts what happened: an order is a success exactly when both of its
  requests were answered with status 200 by a document with the key fields of the order that was
  sent; it counts as cached exactly when besides the second answer came faster; every other order
  is a failure and is logged, once, under its identifier, in the order of the list.
\<close>

lemma report_counts:
  "let r = analyzeResults (testCachePerformance decode answer took vs);
       passed = \<lambda>i. answered decode (vs ! i) (answer i 0) \<and> answered decode (vs ! i) (answer i 1) in
   rp_total r = int (length vs) \<and>
   rp_successful r = int (length (filter passed [0..<length vs])) \<and>
   rp_cached r = int (length (filter (\<lambda>i. passed i \<and> took i 1 < took i 0) [0..<length vs])) \<and>
   rp_failures r = int (length (filter (\<lambda>i. \<not> passed i) [0..<length vs])) \<and>
   map fst (rp_log r) = map (\<lambda>i. eo_OrderUID (vs ! i)) (filter (\<lambda>i. \<not> passed i) [0..<length vs])"
proof -
  define test where "test i = test_order decode (vs ! i) (answer i 0) (took i 0) (answer i 1) (took i 1)" for i
  define passed where "passed i \<longleftrightarrow> answered decode (vs ! i) (answer i 0) \<and> answered decode (vs ! i) (answer i 1)" for i
  have t: "tr_Error (test i) = None \<longleftrightarrow> passed i" "tr_OrderUID (test i) = eo_OrderUID (vs ! i)"
    "tr_Error (test i) = None \<and> tr_IsCached (test i) \<longleftrightarrow> passed i \<and> took i 1 < took i 0" for i
    using test_order_passes by (auto simp: test_def passed_def)
  have t': "passed i \<and> tr_IsCached (test i) \<longleftrightarrow> passed i \<and> took i (Suc 0) < took i 0"
    "(\<exists>e. tr_Error (test i) = Some e) \<longleftrightarrow> \<not> passed i" for i
    using t [of i] by auto
  have m: "testCachePerformance decode answer took vs = map test [0..<length vs]"
    by (simp add: testCachePerformance_def test_def)
  have "int (length (filter passed is)) + int (length (filter (\<lambda>i. \<not> passed i) is)) = int (length is)" for "is" :: "nat list"
    using sum_length_filter_compl [of passed "is"] by (simp flip: of_nat_add)
  from this [of "[0..<length vs]"] show ?thesis
    unfolding Let_def passed_def [symmetric] analyzeResults_def m fold_count_result
    by (simp add: filter_map comp_def t(1,2) t')
qed

text \<open>
  The file of results: \<open>fl_Create\<close> is \<open>os.Create\<close> of a name, \<open>fl_Encode\<close> writes the
  results as indented JSON. An error is only logged; the file is closed when there is one.
\<close>

record 'f file_lib =
  fl_Create :: "string \<Rightarrow> 'f \<Rightarrow> 'f \<times> go_error option"
  fl_Encode :: "test_result list \<Rightarrow> 'f \<Rightarrow> 'f \<times> go_error option"
  fl_Close :: "'f \<Rightarrow> 'f"

definition saveResultsToFile :: "'f file_lib \<Rightarrow> test_result list \<Rightarrow> string \<Rightarrow> 'f \<Rightarrow> 'f \<times> string list" where
  "saveResultsToFile fl results filename f =
     (case fl_Create fl filename f of
        (f, Some err) \<Rightarrow> (f, [''Failed to create results file: '' @ err_text err])
      | (f, None) \<Rightarrow>
          (let (f, err) = fl_Encode fl results f
           in (fl_Close fl f, case err of None \<Rightarrow> [] | Some err \<Rightarrow> [''Failed to encode results: '' @ err_text err])))"

text \<open>
  \<open>main\<close> of the test: it stops when the orders cannot be sent (\<open>None\<close>, \<open>logger.Fatal\<close>),
  and otherwise reports, whatever the results are, and saves them. The three seconds that it
  waits are in what \<open>answer\<close> gives.
\<close>

definition e2e_main ::
  "(go_time \<Rightarrow> string) \<Rightarrow> (nat \<Rightarrow> go_time) \<Rightarrow> 'w e2e_client \<Rightarrow> 'f file_lib \<Rightarrow> string \<Rightarrow>
   (nat \<Rightarrow> nat \<Rightarrow> go_error + int \<times> string) \<Rightarrow> (nat \<Rightarrow> nat \<Rightarrow> int) \<Rightarrow> ('w \<times> 'f, (report \<times> string list) option) run" where
  "e2e_main rfc clock c fl baseURL answer took = (\<lambda>(w, f).
     (let orders = generateRandomOrders rfc clock 50 in
      case sendOrders c (baseURL @ ''/simulator/create'') orders w of
        (w, Panics) \<Rightarrow> ((w, f), Panics)
      | (w, Returns (Some err)) \<Rightarrow> ((w, f), Returns None)
      | (w, Returns None) \<Rightarrow>
          (let results = testCachePerformance (hc_Decode c) answer took orders;
               (f, logged) = saveResultsToFile fl results ''integration_test_results.json'' f
           in ((w, f), Returns (Some (analyzeResults results, logged))))))"

text \<open>
  The test always ends with its report once the orders are sent: failing to save the results,
  like failing results, is only logged.
\<close>

lemma e2e_main_reports:
  assumes "sendOrders c (baseURL @ ''/simulator/create'') (generateRandomOrders rfc clock 50) w = (w', Returns None)"
  shows "\<exists>f' logged. e2e_main rfc clock c fl baseURL answer took (w, f) =
    ((w', f'), Returns (Some (analyzeResults (testCachePerformance (hc_Decode c) answer took
       (generateRandomOrders rfc clock 50)), logged)))"
  using assms by (simp add: e2e_main_def Let_def split: prod.split)

end
