(* ===== verification/Database.thy ===== *)
theory Database
  imports DbSchema "HOL-Library.Multiset"
begin

text \<open>
  What the storage relies on from Postgres and its driver: the documented meaning of its
  statements over the tables of the migration. The contents of the tables are rows of
  values by column; the inserts keep the primary and foreign keys; the text of a SELECT's joins,
  columns and order is read and evaluated. \<open>postgres\<close> says of a driver that it behaves so,
  with calls that may fail at any time, and \<open>reliable\<close> that they do not fail. The
  transactions of a process are taken one after the other.
\<close>

section \<open>Contents\<close>

type_synonym db_row = "string \<Rightarrow> sql_value option"

type_synonym contents = "string \<Rightarrow> db_row list"

text \<open>
  What is committed, and the open transaction: its time, which the defaults take, and what it
  sees. \<open>None\<close> when there is none or when it was aborted.
\<close>

record session =
  se_committed :: contents
  se_open :: "(go_time \<times> contents) option"

text \<open>The table that a name denotes for a user, in the schema of this name or in \<open>public\<close>.\<close>

definition resolve :: "string \<Rightarrow> string \<Rightarrow> table option" where
  "resolve user name =
     find (\<lambda>tb. tb_name tb = name \<or> tb_name tb = user @ ''.'' @ name \<or> tb_name tb = ''public.'' @ name) db_schema"

section \<open>Inserting\<close>

definition new_row :: "go_time \<Rightarrow> table \<Rightarrow> string list \<Rightarrow> sql_value list \<Rightarrow> db_row" where
  "new_row now tb columns vals name =
     (case map_of (zip columns vals) name of
        Some v \<Rightarrow> Some v
      | None \<Rightarrow>
          (case find (\<lambda>c. cl_name c = name) (tb_columns tb) of
             Some c \<Rightarrow> if cl_default c then Some (SqlTime now) else None
           | None \<Rightarrow> None))"

definition key_of :: "table \<Rightarrow> db_row \<Rightarrow> sql_value option list" where
  "key_of tb r = map r (tb_key tb)"

text \<open>The primary key is not used yet, and the row that the foreign key refers to exists.\<close>

definition keys_ok :: "string \<Rightarrow> table \<Rightarrow> db_row \<Rightarrow> contents \<Rightarrow> bool" where
  "keys_ok user tb r w \<longleftrightarrow>
     list_all (\<lambda>r'. key_of tb r' \<noteq> key_of tb r) (w (tb_name tb)) \<and>
     (case tb_references tb of
        None \<Rightarrow> True
      | Some (c, target, c') \<Rightarrow>
          (case resolve user target of
             None \<Rightarrow> False
           | Some tb' \<Rightarrow> list_ex (\<lambda>r'. r' c' = r c) (w (tb_name tb'))))"

primrec insert_rows ::
  "string \<Rightarrow> go_time \<Rightarrow> table \<Rightarrow> string list \<Rightarrow> sql_value list list \<Rightarrow> contents \<Rightarrow> contents option" where
  "insert_rows user now tb columns [] w = Some w"
| "insert_rows user now tb columns (vals # rest) w =
     (let r = new_row now tb columns vals in
      if keys_ok user tb r w
      then insert_rows user now tb columns rest (w(tb_name tb := w (tb_name tb) @ [r])) else None)"

section \<open>Selecting\<close>

text \<open>A tuple of joined rows has the values of the columns by their qualified names.\<close>

fun words :: "string \<Rightarrow> string \<Rightarrow> string list" where
  "words acc [] = [acc]"
| "words acc (c # cs) = (if c = CHR '' '' then acc # words [] cs else words (acc @ [c]) cs)"

definition qualify :: "string \<Rightarrow> db_row \<Rightarrow> db_row" where
  "qualify p r = (\<lambda>c. if take (length p) c = p then r (drop (length p) c) else None)"

text \<open>The prefixes of the aliases so far and the tuples, from \<open>FROM\<close> and from \<open>JOIN ... ON a = b\<close>.\<close>

definition from_tuples :: "string \<Rightarrow> contents \<Rightarrow> string \<Rightarrow> (string list \<times> db_row list) option" where
  "from_tuples user w text =
     (case words [] text of
        [name] \<Rightarrow> map_option (\<lambda>tb. ([[]], w (tb_name tb))) (resolve user name)
      | [name, al] \<Rightarrow>
          map_option (\<lambda>tb. ([al @ ''.''], map (qualify (al @ ''.'')) (w (tb_name tb)))) (resolve user name)
      | _ \<Rightarrow> None)"

definition join_tuples ::
  "string \<Rightarrow> contents \<Rightarrow> string \<Rightarrow> string list \<times> db_row list \<Rightarrow> (string list \<times> db_row list) option" where
  "join_tuples user w text = (\<lambda>(ps, ts).
     (case words [] text of
        [name, al, on, a, eq, b] \<Rightarrow>
          if on = ''ON'' \<and> eq = ''=''
          then map_option (\<lambda>tb. (ps @ [al @ ''.''],
              concat (map (\<lambda>t. filter (\<lambda>u. u a \<noteq> None \<and> u a = u b)
                (map (\<lambda>r. qualify (al @ ''.'') r ++ t) (w (tb_name tb)))) ts))) (resolve user name)
          else None
      | _ \<Rightarrow> None))"

primrec joins_tuples ::
  "string \<Rightarrow> contents \<Rightarrow> string list \<Rightarrow> string list \<times> db_row list \<Rightarrow> (string list \<times> db_row list) option" where
  "joins_tuples user w [] acc = Some acc"
| "joins_tuples user w (text # texts) acc =
     (case join_tuples user w text acc of None \<Rightarrow> None | Some acc' \<Rightarrow> joins_tuples user w texts acc')"

text \<open>A column by its qualified name, or by its own name when only one of the tables has it.\<close>

definition value_of :: "string list \<Rightarrow> db_row \<Rightarrow> string \<Rightarrow> sql_value option" where
  "value_of ps t c =
     (case t c of
        Some v \<Rightarrow> Some v
      | None \<Rightarrow> (case filter (\<lambda>p. t (p @ c) \<noteq> None) ps of [p] \<Rightarrow> t (p @ c) | _ \<Rightarrow> None))"

primrec selected ::
  "string \<Rightarrow> contents \<Rightarrow> squirrel \<Rightarrow> (string list \<times> db_row list) option" where
  "selected user w (InsertInto a b c) = None"
| "selected user w (SelectFrom columns from joins condition order_by limit) =
     (case from_tuples user w from of
        None \<Rightarrow> None
      | Some acc \<Rightarrow>
          map_option (\<lambda>(ps, ts).
              (ps, case condition of None \<Rightarrow> ts | Some (c, v) \<Rightarrow> filter (\<lambda>t. value_of ps t c = Some v) ts))
            (joins_tuples user w joins acc))"

text \<open>\<open>ORDER BY c DESC\<close>; rows with the same value, and all rows without this clause, come in any order.\<close>

definition time_of :: "sql_value option \<Rightarrow> go_time" where
  "time_of v = (case v of Some (SqlTime t) \<Rightarrow> t | _ \<Rightarrow> 0)"

definition in_order :: "string option \<Rightarrow> db_row list \<Rightarrow> bool" where
  "in_order order_by ts \<longleftrightarrow>
     (case order_by of
        None \<Rightarrow> True
      | Some text \<Rightarrow>
          (case words [] text of
             [c, dir] \<Rightarrow> dir = ''DESC'' \<and> sorted_wrt (\<lambda>t u. time_of (u c) \<le> time_of (t c)) ts
           | _ \<Rightarrow> False))"

primrec answers :: "string \<Rightarrow> contents \<Rightarrow> squirrel \<Rightarrow> sql_value list list \<Rightarrow> bool" where
  "answers user w (InsertInto a b c) rows \<longleftrightarrow> False"
| "answers user w (SelectFrom columns from joins condition order_by limit) rows \<longleftrightarrow>
     (case selected user w (SelectFrom columns from joins condition order_by limit) of
        None \<Rightarrow> False
      | Some (ps, ts) \<Rightarrow>
          (\<exists>ts' all_rows. mset ts' = mset ts \<and> in_order order_by ts' \<and>
             map Some all_rows = map (\<lambda>t. those (map (value_of ps t) columns)) ts' \<and>
             rows = (case limit of None \<Rightarrow> all_rows | Some n \<Rightarrow> take n all_rows)))"

lemma answers_unlimited:
  "answers user w (SelectFrom columns from joins condition None None) rows \<longleftrightarrow>
     (\<exists>ps ts ts'. selected user w (SelectFrom columns from joins condition None None) = Some (ps, ts) \<and>
        mset ts' = mset ts \<and> map Some rows = map (\<lambda>t. those (map (value_of ps t) columns)) ts')"
  unfolding answers.simps
  by (auto simp: in_order_def simp del: selected.simps split: option.split)

section \<open>The driver\<close>

text \<open>
  The statements that the storage builds. (With a negative limit the last one asks for more rows than a
  \<open>bigint\<close> can count, and nothing is said of it.)
\<close>

definition storage_insert :: "squirrel \<Rightarrow> bool" where
  "storage_insert q \<longleftrightarrow>
     (\<exists>v. q = order_insert v) \<or> (\<exists>uid p. q = payment_insert uid p) \<or> (\<exists>uid d. q = delivery_insert uid d)"

definition storage_select :: "squirrel \<Rightarrow> bool" where
  "storage_select q \<longleftrightarrow> (\<exists>uid. q = base_select uid) \<or> (\<exists>n. 0 \<le> sint n \<and> q = last_select n) \<or> (\<exists>uid. q = items_select uid)"

definition items_text :: "string \<Rightarrow> string" where
  "items_text values_text =
     ''INSERT INTO order_service.order_items('' @
     join '', '' (map (\<lambda>c. CHR ''\"'' # c @ ''\"'') item_columns) @ '') VALUES '' @ values_text"

text \<open>
  What executing a statement may do in an open transaction: insert all of its rows, one by one,
  or fail and abort the transaction. Of rows that do not fit the table nothing is said.
\<close>

definition may_insert ::
  "string \<Rightarrow> table \<Rightarrow> string list \<Rightarrow> sql_value list list \<Rightarrow> session \<Rightarrow> session \<Rightarrow> go_error + int \<Rightarrow> bool" where
  "may_insert user tb columns rows s s' res \<longleftrightarrow>
     se_committed s' = se_committed s \<and>
     (case res of
        Inl e \<Rightarrow> se_open s' = None
      | Inr n \<Rightarrow> n = int (length rows) \<and>
          (\<forall>now w. se_open s = Some (now, w) \<longrightarrow>
             (\<exists>w'. insert_rows user now tb columns rows w = Some w' \<and> se_open s' = Some (now, w'))))"

definition transaction_law :: "'db pgx \<Rightarrow> ('db \<Rightarrow> session) \<Rightarrow> bool" where
  "transaction_law pg view \<longleftrightarrow>
     (\<forall>ctx d. case pg_Begin pg ctx d of (d', e) \<Rightarrow>
        se_committed (view d') = se_committed (view d) \<and>
        (e = None \<longrightarrow> (\<exists>now. se_open (view d') = Some (now, se_committed (view d))))) \<and>
     (\<forall>ctx d. case pg_Rollback pg ctx d of (d', e) \<Rightarrow>
        se_committed (view d') = se_committed (view d) \<and> se_open (view d') = None) \<and>
     (\<forall>ctx d. case pg_Commit pg ctx d of (d', e) \<Rightarrow>
        (case se_open (view d) of
           None \<Rightarrow> se_committed (view d') = se_committed (view d)
         | Some (now, w) \<Rightarrow>
             se_committed (view d') = w \<or> e \<noteq> None \<and> se_committed (view d') = se_committed (view d)))"

definition insert_law :: "'db pgx \<Rightarrow> ('db \<Rightarrow> session) \<Rightarrow> string \<Rightarrow> bool" where
  "insert_law pg view user \<longleftrightarrow>
     (\<forall>ctx t cs vs tb sql args d. storage_insert (InsertInto t cs vs) \<longrightarrow> table_named t = Some tb \<longrightarrow>
        row_fits tb cs vs \<longrightarrow> pg_ToSql pg (InsertInto t cs vs) = Inr (sql, args) \<longrightarrow>
        (case pg_Exec pg ctx sql args d of (d', res) \<Rightarrow> may_insert user tb cs [vs] (view d) (view d') res))"

definition items_law :: "'db pgx \<Rightarrow> ('db \<Rightarrow> session) \<Rightarrow> string \<Rightarrow> bool" where
  "items_law pg view user \<longleftrightarrow>
     (\<forall>ctx text rows d. sql_rows text = Some rows \<longrightarrow>
        list_all (row_fits order_items_table item_columns) rows \<longrightarrow>
        (case pg_Exec pg ctx (items_text text) [] d of
           (d', res) \<Rightarrow> may_insert user order_items_table item_columns rows (view d) (view d') res))"

definition select_law :: "'db pgx \<Rightarrow> ('db \<Rightarrow> session) \<Rightarrow> string \<Rightarrow> bool" where
  "select_law pg view user \<longleftrightarrow>
     (\<forall>ctx q sql args d. storage_select q \<longrightarrow> pg_ToSql pg q = Inr (sql, args) \<longrightarrow>
        (case snd (pg_Query pg ctx sql args d) of
           Inr (rows, None) \<Rightarrow> answers user (se_committed (view d)) q rows
         | _ \<Rightarrow> True) \<and>
        (case snd (pg_QueryRow pg ctx sql args d) of
           Inr row \<Rightarrow> \<exists>rows. answers user (se_committed (view d)) q (row # rows)
         | Inl e \<Rightarrow> errors_is e ErrNoRows \<longrightarrow> answers user (se_committed (view d)) q []))"

definition postgres :: "'db pgx \<Rightarrow> ('db \<Rightarrow> session) \<Rightarrow> string \<Rightarrow> bool" where
  "postgres pg view user \<longleftrightarrow>
     reads_only pg \<and> transaction_law pg view \<and> insert_law pg view user \<and> items_law pg view user \<and>
     select_law pg view user"

text \<open>No call fails for another reason than the contents of the tables.\<close>

definition reliable_transactions :: "'db pgx \<Rightarrow> ('db \<Rightarrow> session) \<Rightarrow> bool" where
  "reliable_transactions pg view \<longleftrightarrow>
     (\<forall>q. storage_insert q \<or> storage_select q \<longrightarrow> (\<exists>sql args. pg_ToSql pg q = Inr (sql, args))) \<and>
     (\<forall>ctx d. snd (pg_Begin pg ctx d) = None) \<and>
     (\<forall>ctx d. se_open (view d) \<noteq> None \<longrightarrow> snd (pg_Commit pg ctx d) = None)"

definition reliable_inserts :: "'db pgx \<Rightarrow> ('db \<Rightarrow> session) \<Rightarrow> string \<Rightarrow> bool" where
  "reliable_inserts pg view user \<longleftrightarrow>
     (\<forall>ctx t cs vs tb sql args d now w. storage_insert (InsertInto t cs vs) \<longrightarrow> table_named t = Some tb \<longrightarrow>
        row_fits tb cs vs \<longrightarrow> pg_ToSql pg (InsertInto t cs vs) = Inr (sql, args) \<longrightarrow>
        se_open (view d) = Some (now, w) \<longrightarrow> insert_rows user now tb cs [vs] w \<noteq> None \<longrightarrow>
        (\<exists>n. snd (pg_Exec pg ctx sql args d) = Inr n)) \<and>
     (\<forall>ctx text rows d now w. sql_rows text = Some rows \<longrightarrow>
        list_all (row_fits order_items_table item_columns) rows \<longrightarrow> se_open (view d) = Some (now, w) \<longrightarrow>
        insert_rows user now order_items_table item_columns rows w \<noteq> None \<longrightarrow>
        (\<exists>n. snd (pg_Exec pg ctx (items_text text) [] d) = Inr n))"

definition reliable_selects :: "'db pgx \<Rightarrow> ('db \<Rightarrow> session) \<Rightarrow> string \<Rightarrow> bool" where
  "reliable_selects pg view user \<longleftrightarrow>
     (\<forall>ctx q sql args d. storage_select q \<longrightarrow> pg_ToSql pg q = Inr (sql, args) \<longrightarrow>
        (\<exists>rows. answers user (se_committed (view d)) q rows) \<longrightarrow>
        (\<exists>rows. snd (pg_Query pg ctx sql args d) = Inr (rows, None)) \<and>
        (case snd (pg_QueryRow pg ctx sql args d) of Inr row \<Rightarrow> True | Inl e \<Rightarrow> errors_is e ErrNoRows))"

definition reliable :: "'db pgx \<Rightarrow> ('db \<Rightarrow> session) \<Rightarrow> string \<Rightarrow> bool" where
  "reliable pg view user \<longleftrightarrow>
     reliable_transactions pg view \<and> reliable_inserts pg view user \<and> reliable_selects pg view user"

lemma items_sql_text: "items_sql uid items = items_text (items_values uid items)"
  by (simp add: items_sql_def items_text_def)

end
