(* ===== verification/DatabaseProps.thy ===== *)
theory DatabaseProps
  imports Database
begin

text \<open>
  The Postgres storage as an abstract store: the contents of the tables represent a list of
  saved orders with their times (\<open>db_rep\<close>), \<open>SaveOrder\<close> appends to it or leaves it as it is, and
  the lookups read it.
\<close>

section \<open>Saved orders\<close>

type_synonym saved = "(go_time \<times> order) list"

primrec inserted :: "go_time \<Rightarrow> table \<Rightarrow> squirrel \<Rightarrow> db_row" where
  "inserted now tb (InsertInto t cs vs) = new_row now tb cs vs"
| "inserted now tb (SelectFrom a b c d e f) = (\<lambda>_. None)"

definition order_rows :: "saved \<Rightarrow> db_row list" where
  "order_rows = map (\<lambda>(t, v). inserted t orders_table (order_insert v))"

definition payment_rows :: "saved \<Rightarrow> db_row list" where
  "payment_rows = map (\<lambda>(t, v). inserted t payments_table (payment_insert (ord_OrderUID v) (ord_Payment v)))"

definition delivery_rows :: "saved \<Rightarrow> db_row list" where
  "delivery_rows = map (\<lambda>(t, v). inserted t deliveries_table (delivery_insert (ord_OrderUID v) (ord_Delivery v)))"

definition item_db_row :: "go_time \<Rightarrow> string \<Rightarrow> order_item \<Rightarrow> db_row" where
  "item_db_row now uid it = new_row now order_items_table item_columns (item_row uid it)"

definition item_rows :: "saved \<Rightarrow> db_row list" where
  "item_rows saved = concat (map (\<lambda>(t, v). map (item_db_row t (ord_OrderUID v)) (ord_Items v)) saved)"

definition uids :: "saved \<Rightarrow> string list" where
  "uids saved = map (\<lambda>(t, v). ord_OrderUID v) saved"

definition db_rep :: "saved \<Rightarrow> contents \<Rightarrow> bool" where
  "db_rep saved w \<longleftrightarrow>
     w ''order_service.orders'' = order_rows saved \<and>
     w ''order_service.payments'' = payment_rows saved \<and>
     w ''order_service.deliveries'' = delivery_rows saved \<and>
     mset (w ''order_service.order_items'') = mset (item_rows saved) \<and>
     distinct (uids saved)"

lemma table_names_simps [simp]:
  "tb_name orders_table = ''order_service.orders''" "tb_name payments_table = ''order_service.payments''"
  "tb_name deliveries_table = ''order_service.deliveries''" "tb_name order_items_table = ''order_service.order_items''"
  "tb_key orders_table = [''order_uid'']" "tb_key payments_table = [''order_id'']"
  "tb_key deliveries_table = [''order_id'']" "tb_key order_items_table = [''order_id'', ''nm_id'']"
  "tb_references orders_table = None"
  "tb_references payments_table = Some (''order_id'', ''orders'', ''order_uid'')"
  "tb_references deliveries_table = Some (''order_id'', ''orders'', ''order_uid'')"
  "tb_references order_items_table = Some (''order_id'', ''orders'', ''order_uid'')"
  by (simp_all add: orders_table_def payments_table_def deliveries_table_def order_items_table_def)

lemma resolved [simp]:
  "resolve ''order_service'' ''orders'' = Some orders_table"
  "resolve ''order_service'' ''order_items'' = Some order_items_table"
  "resolve u ''order_service.orders'' = Some orders_table"
  "resolve u ''order_service.payments'' = Some payments_table"
  "resolve u ''order_service.deliveries'' = Some deliveries_table"
  "resolve u ''order_service.order_items'' = Some order_items_table"
  by (simp_all add: resolve_def db_schema_def)

lemma named_tables [simp]:
  "table_named ''order_service.orders'' = Some orders_table"
  "table_named ''order_service.payments'' = Some payments_table"
  "table_named ''order_service.deliveries'' = Some deliveries_table"
  "table_named ''order_service.order_items'' = Some order_items_table"
  by (simp_all add: table_named_def db_schema_def)

text \<open>The keys of the rows.\<close>

lemma row_keys [simp]:
  "inserted t orders_table (order_insert v) ''order_uid'' = Some (SqlStr (ord_OrderUID v))"
  "inserted t payments_table (payment_insert uid p) ''order_id'' = Some (SqlStr uid)"
  "inserted t deliveries_table (delivery_insert uid d) ''order_id'' = Some (SqlStr uid)"
  "item_db_row t uid it ''order_id'' = Some (SqlStr uid)"
  "item_db_row t uid it ''nm_id'' = Some (int_value (itm_NmID it))"
  by (simp_all add: order_insert_def payment_insert_def delivery_insert_def new_row_def item_db_row_def
      item_columns_def item_row_def)

lemma rows_snoc [simp]:
  "order_rows (saved @ [(t, v)]) = order_rows saved @ [inserted t orders_table (order_insert v)]"
  "payment_rows (saved @ [(t, v)]) =
     payment_rows saved @ [inserted t payments_table (payment_insert (ord_OrderUID v) (ord_Payment v))]"
  "delivery_rows (saved @ [(t, v)]) =
     delivery_rows saved @ [inserted t deliveries_table (delivery_insert (ord_OrderUID v) (ord_Delivery v))]"
  "item_rows (saved @ [(t, v)]) = item_rows saved @ map (item_db_row t (ord_OrderUID v)) (ord_Items v)"
  "uids (saved @ [(t, v)]) = uids saved @ [ord_OrderUID v]"
  by (simp_all add: order_rows_def payment_rows_def delivery_rows_def item_rows_def uids_def)

lemma rows_keys:
  "map (key_of orders_table) (order_rows saved) = map (\<lambda>u. [Some (SqlStr u)]) (uids saved)"
  "map (key_of payments_table) (payment_rows saved) = map (\<lambda>u. [Some (SqlStr u)]) (uids saved)"
  "map (key_of deliveries_table) (delivery_rows saved) = map (\<lambda>u. [Some (SqlStr u)]) (uids saved)"
  by (induction saved) (auto simp: order_rows_def payment_rows_def delivery_rows_def uids_def key_of_def)

lemma item_rows_keys:
  "r \<in> set (item_rows saved) \<Longrightarrow> \<exists>uid \<in> set (uids saved). r ''order_id'' = Some (SqlStr uid)"
  by (induction saved) (auto simp: item_rows_def uids_def)

section \<open>Inserting an order\<close>

text \<open>Which rows the keys admit.\<close>

lemma keys_free_iff:
  "list_all (\<lambda>r'. key_of tb r' \<noteq> k) rows \<longleftrightarrow> k \<notin> set (map (key_of tb) rows)"
  by (auto simp: list_all_iff)

lemma order_known:
  "list_ex (\<lambda>r'. r' ''order_uid'' = Some (SqlStr u)) (order_rows saved) \<longleftrightarrow> u \<in> set (uids saved)"
  by (induction saved) (auto simp: order_rows_def uids_def)

lemma order_key_ok:
  assumes "w ''order_service.orders'' = order_rows saved"
  shows "keys_ok user orders_table (inserted t orders_table (order_insert v)) w \<longleftrightarrow> ord_OrderUID v \<notin> set (uids saved)"
  using assms by (simp add: keys_ok_def keys_free_iff rows_keys del: set_map) (auto simp: key_of_def)

lemma part_key_ok:
  assumes "w ''order_service.orders'' = order_rows saved" "user = ''order_service''"
    "map (key_of tb) (w (tb_name tb)) = map (\<lambda>u. [Some (SqlStr u)]) us"
    "tb_key tb = [''order_id'']" "tb_references tb = Some (''order_id'', ''orders'', ''order_uid'')"
    "r ''order_id'' = Some (SqlStr u)"
  shows "keys_ok user tb r w \<longleftrightarrow> u \<notin> set us \<and> u \<in> set (uids saved)"
  using assms by (simp add: keys_ok_def keys_free_iff order_known del: set_map) (auto simp: key_of_def)

text \<open>Rows of items, each with the identifier of its order.\<close>

lemma insert_items_ok:
  assumes "w ''order_service.orders'' = order_rows saved" "user = ''order_service''"
    "\<forall>(u, it) \<in> set ps. u \<in> set (uids saved)" "distinct (map (\<lambda>(u, it). (u, itm_NmID it)) ps)"
    "\<forall>r \<in> set (w ''order_service.order_items''). \<forall>(u, it) \<in> set ps.
       r ''order_id'' = Some (SqlStr u) \<longrightarrow> r ''nm_id'' \<noteq> Some (int_value (itm_NmID it))"
  shows "insert_rows user now order_items_table item_columns (map (\<lambda>(u, it). item_row u it) ps) w =
    Some (w(''order_service.order_items'' := w ''order_service.order_items'' @ map (\<lambda>(u, it). item_db_row now u it) ps))"
  using assms
proof (induction ps arbitrary: w)
  case (Cons p ps)
  obtain u it where p: "p = (u, it)" by fastforce
  let ?w = "w(''order_service.order_items'' := w ''order_service.order_items'' @ [item_db_row now u it])"
  have k: "keys_ok user order_items_table (item_db_row now u it) w"
    using Cons.prems by (auto simp: p keys_ok_def order_known list_all_iff key_of_def)
  have "insert_rows user now order_items_table item_columns (map (\<lambda>(u, it). item_row u it) ps) ?w =
    Some (?w(''order_service.order_items'' := ?w ''order_service.order_items'' @ map (\<lambda>(u, it). item_db_row now u it) ps))"
    using Cons.prems by (intro Cons.IH) (auto simp: p image_iff dest!: signed_word_eqI)
  then show ?case using k by (simp add: p item_db_row_def [symmetric] Let_def) (simp add: fun_eq_iff)
qed simp

lemma item_rows_not_uid:
  "uid \<notin> set (uids saved) \<Longrightarrow> r \<in> set (item_rows saved) \<Longrightarrow> r ''order_id'' \<noteq> Some (SqlStr uid)"
  by (auto dest: item_rows_keys)

lemma insert_rows_single:
  "insert_rows user now tb cs [vs] w =
     (let r = new_row now tb cs vs in
      if keys_ok user tb r w then Some (w(tb_name tb := w (tb_name tb) @ [r])) else None)"
  by (simp add: Let_def)

lemma inserted_eq:
  "order_insert v = InsertInto t cs vs \<Longrightarrow> new_row now tb cs vs = inserted now tb (order_insert v)"
  "payment_insert u p = InsertInto t cs vs \<Longrightarrow> new_row now tb cs vs = inserted now tb (payment_insert u p)"
  "delivery_insert u d = InsertInto t cs vs \<Longrightarrow> new_row now tb cs vs = inserted now tb (delivery_insert u d)"
  by simp_all

text \<open>The transaction, on the contents: after the order, its payment, its delivery and its items.\<close>

definition with_rows :: "string \<Rightarrow> db_row list \<Rightarrow> contents \<Rightarrow> contents" where
  "with_rows name rows w = w(name := w name @ rows)"

lemma with_rows_simps [simp]:
  "with_rows name rows w name' = (if name' = name then w name @ rows else w name')"
  "with_rows name [] w = w"
  by (simp_all add: with_rows_def)

definition add_parts :: "go_time \<Rightarrow> order \<Rightarrow> contents \<Rightarrow> contents" where
  "add_parts now v w =
     with_rows ''order_service.deliveries''
       [inserted now deliveries_table (delivery_insert (ord_OrderUID v) (ord_Delivery v))]
      (with_rows ''order_service.payments''
         [inserted now payments_table (payment_insert (ord_OrderUID v) (ord_Payment v))]
        (with_rows ''order_service.orders'' [inserted now orders_table (order_insert v)] w))"

definition add_order :: "go_time \<Rightarrow> order \<Rightarrow> contents \<Rightarrow> contents" where
  "add_order now v w =
     with_rows ''order_service.order_items'' (map (item_db_row now (ord_OrderUID v)) (ord_Items v)) (add_parts now v w)"

lemma add_parts_tables:
  assumes "db_rep saved w"
  shows "add_parts now v w ''order_service.orders'' = order_rows (saved @ [(now, v)])"
    "add_parts now v w ''order_service.payments'' = payment_rows (saved @ [(now, v)])"
    "add_parts now v w ''order_service.deliveries'' = delivery_rows (saved @ [(now, v)])"
    "add_parts now v w ''order_service.order_items'' = w ''order_service.order_items''"
  using assms by (simp_all add: add_parts_def db_rep_def)

lemma db_rep_add_order:
  "db_rep saved w \<Longrightarrow> ord_OrderUID v \<notin> set (uids saved) \<Longrightarrow> db_rep (saved @ [(now, v)]) (add_order now v w)"
  using add_parts_tables [of saved w now v] by (simp add: db_rep_def add_order_def)

text \<open>The statements of one order, in the order of the code.\<close>

primrec run_insert :: "string \<Rightarrow> go_time \<Rightarrow> table \<Rightarrow> squirrel \<Rightarrow> contents \<Rightarrow> contents option" where
  "run_insert user now tb (InsertInto t cs vs) w = insert_rows user now tb cs [vs] w"
| "run_insert user now tb (SelectFrom a b c d e f) w = None"

lemma run_insert_eq:
  assumes "q = InsertInto t cs vs"
  shows "run_insert user now tb q w =
    (if keys_ok user tb (inserted now tb q) w then Some (with_rows (tb_name tb) [inserted now tb q] w) else None)"
  using assms by (simp add: with_rows_def Let_def)

lemma run_order_insert:
  assumes "db_rep saved w"
  shows "run_insert user now orders_table (order_insert v) w =
    (if ord_OrderUID v \<in> set (uids saved) then None
     else Some (with_rows ''order_service.orders'' [inserted now orders_table (order_insert v)] w))"
  using assms order_key_ok [of w saved user now v]
  by (simp add: run_insert_eq [OF order_insert_def] db_rep_def)

lemma run_part_inserts:
  fixes now :: go_time
  assumes "db_rep saved w" "ord_OrderUID v \<notin> set (uids saved)"
  defines "w1 \<equiv> with_rows ''order_service.orders'' [inserted now orders_table (order_insert v)] w"
  defines "w2 \<equiv> with_rows ''order_service.payments''
    [inserted now payments_table (payment_insert (ord_OrderUID v) (ord_Payment v))] w1"
  defines "w3 \<equiv> with_rows ''order_service.deliveries''
    [inserted now deliveries_table (delivery_insert (ord_OrderUID v) (ord_Delivery v))] w2"
  shows "run_insert ''order_service'' now payments_table (payment_insert (ord_OrderUID v) (ord_Payment v)) w1 = Some w2"
    "run_insert ''order_service'' now deliveries_table (delivery_insert (ord_OrderUID v) (ord_Delivery v)) w2 = Some w3"
proof -
  let ?saved = "saved @ [(now, v)]"
  have o: "w1 ''order_service.orders'' = order_rows ?saved" "w2 ''order_service.orders'' = order_rows ?saved"
    using assms(1) by (simp_all add: w1_def w2_def db_rep_def)
  have "map (key_of payments_table) (w1 ''order_service.payments'') = map (\<lambda>u. [Some (SqlStr u)]) (uids saved)"
    "map (key_of deliveries_table) (w2 ''order_service.deliveries'') = map (\<lambda>u. [Some (SqlStr u)]) (uids saved)"
    using assms(1) by (simp_all add: w1_def w2_def db_rep_def rows_keys)
  then have
    "keys_ok ''order_service'' payments_table (inserted now payments_table (payment_insert (ord_OrderUID v) (ord_Payment v))) w1"
    "keys_ok ''order_service'' deliveries_table (inserted now deliveries_table (delivery_insert (ord_OrderUID v) (ord_Delivery v))) w2"
    using part_key_ok [of w1 ?saved "''order_service''" payments_table "uids saved", OF o(1) refl]
      part_key_ok [of w2 ?saved "''order_service''" deliveries_table "uids saved", OF o(2) refl] assms(2) by simp_all
  then show
    "run_insert ''order_service'' now payments_table (payment_insert (ord_OrderUID v) (ord_Payment v)) w1 = Some w2"
    "run_insert ''order_service'' now deliveries_table (delivery_insert (ord_OrderUID v) (ord_Delivery v)) w2 = Some w3"
    by (simp_all add: run_insert_eq [OF payment_insert_def] run_insert_eq [OF delivery_insert_def] w2_def w3_def)
qed

lemma run_items_insert:
  assumes "db_rep saved w" "ord_OrderUID v \<notin> set (uids saved)" "distinct (map itm_NmID (ord_Items v))"
  shows "insert_rows ''order_service'' now order_items_table item_columns (map (item_row (ord_OrderUID v)) (ord_Items v))
    (add_parts now v w) = Some (add_order now v w)"
proof -
  let ?ps = "map (Pair (ord_OrderUID v)) (ord_Items v)"
  have "set (w ''order_service.order_items'') = set (item_rows saved)"
    using assms(1) by (intro mset_eq_setD) (simp add: db_rep_def)
  then have fresh: "\<forall>r \<in> set (w ''order_service.order_items''). r ''order_id'' \<noteq> Some (SqlStr (ord_OrderUID v))"
    using item_rows_not_uid [OF assms(2)] by simp
  have "insert_rows ''order_service'' now order_items_table item_columns (map (\<lambda>(u, it). item_row u it) ?ps) (add_parts now v w) =
    Some ((add_parts now v w)(''order_service.order_items'' :=
      add_parts now v w ''order_service.order_items'' @ map (\<lambda>(u, it). item_db_row now u it) ?ps))"
    using assms(3) fresh add_parts_tables [OF assms(1), of now v]
    by (intro insert_items_ok [of _ "saved @ [(now, v)]"]) (auto simp: comp_def distinct_map inj_on_def)
  then show ?thesis by (simp add: add_order_def with_rows_def comp_def)
qed

section \<open>Saving\<close>

text \<open>The tables' part of \<open>storable\<close>, statement by statement.\<close>

lemma storable_parts:
  assumes "storable v"
  shows "insert_fits (order_insert v)" "insert_fits (payment_insert (ord_OrderUID v) (ord_Payment v))"
    "insert_fits (delivery_insert (ord_OrderUID v) (ord_Delivery v))"
    "list_all (row_fits order_items_table item_columns) (map (item_row (ord_OrderUID v)) (ord_Items v))"
    "distinct (map itm_NmID (ord_Items v))"
  using assms by (simp_all add: storable_def distinct_sint list.pred_map comp_def)

text \<open>The laws on the statements that the storage builds.\<close>

lemma storage_statements [simp]:
  "storage_insert (order_insert v)" "storage_insert (payment_insert uid p)" "storage_insert (delivery_insert uid dl)"
  "storage_select (base_select uid)" "0 \<le> sint n \<Longrightarrow> storage_select (last_select n)" "storage_select (items_select uid)"
  by (auto simp: storage_insert_def storage_select_def)

lemma may_insert_one:
  assumes "postgres pg view user" "storage_insert (InsertInto t cs vs)" "table_named t = Some tb" "row_fits tb cs vs"
    "pg_ToSql pg (InsertInto t cs vs) = Inr (sql, args)" "pg_Exec pg ctx sql args d = (d', res)"
  shows "may_insert user tb cs [vs] (view d) (view d') res"
proof -
  have "insert_law pg view user" using assms(1) by (simp add: postgres_def)
  from this [unfolded insert_law_def, rule_format, OF assms(2-5), where ctx = ctx and d = d] show ?thesis using assms(6) by simp
qed

lemma may_insert_items:
  assumes "postgres pg view user" "sql_rows text = Some rows" "list_all (row_fits order_items_table item_columns) rows"
    "pg_Exec pg ctx (items_text text) [] d = (d', res)"
  shows "may_insert user order_items_table item_columns rows (view d) (view d') res"
proof -
  have "items_law pg view user" using assms(1) by (simp add: postgres_def)
  from this [unfolded items_law_def, rule_format, OF assms(2,3), where ctx = ctx and d = d] show ?thesis using assms(4) by simp
qed

text \<open>
  An insert that the storage builds, executed in an open transaction: what \<open>exec_insert\<close> returns
  tells what happened, and on a reliable database it succeeds when the keys admit the row.
\<close>

lemma exec_insert_law:
  assumes "postgres pg view user" "storage_insert q" "q = InsertInto t cs vs" "table_named t = Some tb" "insert_fits q"
    "se_open (view d) = Some (now, w)" "exec_insert pg ctx q et rt d = (d', r)"
  shows "se_committed (view d') = se_committed (view d) \<and>
    (r = None \<longrightarrow> (\<exists>w'. run_insert user now tb q w = Some w' \<and> se_open (view d') = Some (now, w'))) \<and>
    (reliable pg view user \<longrightarrow> run_insert user now tb q w \<noteq> None \<longrightarrow> r = None)"
proof (cases "pg_ToSql pg q")
  case (Inl err)
  then have "d' = d" "r \<noteq> None" using assms(7) by (auto simp: exec_insert_def)
  moreover have "\<not> reliable pg view user"
    using Inl assms(2) by (auto simp: reliable_def reliable_transactions_def)
  ultimately show ?thesis by auto
next
  case (Inr sa)
  have fits: "row_fits tb cs vs" using assms(3-5) by simp
  obtain sql args where sa: "sa = (sql, args)" by fastforce
  obtain d1 res where ex: "pg_Exec pg ctx sql args d = (d1, res)" by fastforce
  have law: "may_insert user tb cs [vs] (view d) (view d1) res"
    using may_insert_one [OF assms(1) _ assms(4) fits _ ex] assms(2,3) Inr sa by simp
  have d1: "d' = d1" and r: "r = None \<longleftrightarrow> res = Inr 1"
    using assms(7) Inr sa ex by (auto simp: exec_insert_def split: sum.splits if_splits)
  have "\<exists>n. snd (pg_Exec pg ctx sql args d) = Inr n" if "reliable pg view user" "run_insert user now tb q w \<noteq> None"
  proof -
    have "insert_rows user now tb cs [vs] w \<noteq> None" using that(2) assms(3) by simp
    then show ?thesis
      using that(1) assms(2-4,6) fits Inr sa unfolding reliable_def reliable_inserts_def by blast
  qed
  then show ?thesis using law d1 r ex assms(3,6) by (auto simp: may_insert_def)
qed

text \<open>The rows that the statement of the items denotes, and that they fit.\<close>

definition items_denote :: "string \<Rightarrow> order_item list \<Rightarrow> sql_value list list \<Rightarrow> bool" where
  "items_denote uid items rows \<longleftrightarrow>
     (if items = [] then rows = [] else sql_rows (items_values uid items) = Some rows) \<and>
     list_all (row_fits order_items_table item_columns) rows"

lemma saveItems_law:
  assumes "postgres pg view user" "items_denote uid items rows"
    "se_open (view d) = Some (now, w)" "saveItems pg ctx uid items d = (d', r)"
  defines "inserts \<equiv> insert_rows user now order_items_table item_columns rows w"
  shows "se_committed (view d') = se_committed (view d) \<and>
    (r = None \<longrightarrow> (\<exists>w'. inserts = Some w' \<and> se_open (view d') = Some (now, w'))) \<and>
    (reliable pg view user \<longrightarrow> inserts \<noteq> None \<longrightarrow> r = None)"
proof (cases "items = []")
  case True
  then show ?thesis using assms(2-4) by (simp add: saveItems_def inserts_def items_denote_def)
next
  case False
  have rows: "sql_rows (items_values uid items) = Some rows" "list_all (row_fits order_items_table item_columns) rows"
    using assms(2) False by (simp_all add: items_denote_def)
  obtain d1 res where ex: "pg_Exec pg ctx (items_text (items_values uid items)) [] d = (d1, res)" by fastforce
  have law: "may_insert user order_items_table item_columns rows (view d) (view d1) res"
    by (rule may_insert_items [OF assms(1) rows ex])
  have d1: "d' = d1" and r: "r = None \<longleftrightarrow> (\<exists>n. res = Inr n)"
    using assms(4) False ex by (auto simp: saveItems_def items_sql_text split: sum.splits)
  have "\<exists>n. snd (pg_Exec pg ctx (items_text (items_values uid items)) [] d) = Inr n"
    if "reliable pg view user" "inserts \<noteq> None"
    using that assms(3) rows unfolding reliable_def reliable_inserts_def inserts_def by blast
  then show ?thesis using law d1 r ex assms(3) by (auto simp: may_insert_def inserts_def)
qed

text \<open>
  The statements of \<open>SaveOrder\<close>, in a transaction that sees the represented orders: nothing is committed yet; when
  all succeed the transaction sees the order added, with the rows that the text of its items denotes;
  and they fail when the order is known.
\<close>

definition parts_fit :: "order \<Rightarrow> bool" where
  "parts_fit v \<longleftrightarrow> insert_fits (order_insert v) \<and> insert_fits (payment_insert (ord_OrderUID v) (ord_Payment v)) \<and>
     insert_fits (delivery_insert (ord_OrderUID v) (ord_Delivery v))"

lemma save_steps_law:
  assumes pg: "postgres pg view ''order_service''" and rep: "db_rep saved w" and v: "parts_fit v"
    and rows: "items_denote (ord_OrderUID v) (ord_Items v) rows"
    and items: "ord_OrderUID v \<notin> set (uids saved) \<Longrightarrow>
      insert_rows ''order_service'' now order_items_table item_columns rows (add_parts now v w) = Some w'"
    and op: "se_open (view d) = Some (now, w)" and run: "save_steps pg ctx v d = (d', err, res)"
  shows "se_committed (view d') = se_committed (view d) \<and>
    (err = None \<longrightarrow> ord_OrderUID v \<notin> set (uids saved) \<and> se_open (view d') = Some (now, w')) \<and>
    (reliable pg view ''order_service'' \<longrightarrow> ord_OrderUID v \<notin> set (uids saved) \<longrightarrow> err = None)"
proof -
  let ?user = "''order_service''" and ?uid = "ord_OrderUID v"
  have fits: "insert_fits (order_insert v)" "insert_fits (payment_insert ?uid (ord_Payment v))"
    "insert_fits (delivery_insert ?uid (ord_Delivery v))" using v by (simp_all add: parts_fit_def)
  obtain d1 r1 where s1: "saveOrder pg ctx v d = (d1, r1)" by fastforce
  note l1 = exec_insert_law [OF pg storage_statements(1) order_insert_def named_tables(1) fits(1) op s1 [unfolded saveOrder_def]]
  obtain d2 r2 where s2: "savePayment pg ctx ?uid (ord_Payment v) d1 = (d2, r2)" by fastforce
  note l2 = exec_insert_law [OF pg storage_statements(2) payment_insert_def named_tables(2) fits(2) _ s2 [unfolded savePayment_def]]
  obtain d3 r3 where s3: "saveDelivery pg ctx ?uid (ord_Delivery v) d2 = (d3, r3)" by fastforce
  note l3 = exec_insert_law [OF pg storage_statements(3) delivery_insert_def named_tables(3) fits(3) _ s3 [unfolded saveDelivery_def]]
  obtain d4 r4 where s4: "saveItems pg ctx ?uid (ord_Items v) d3 = (d4, r4)" by fastforce
  note l4 = saveItems_law [OF pg rows _ s4]
  note first = run_order_insert [OF rep, of ?user now v]
  show ?thesis
  proof (cases "?uid \<in> set (uids saved)")
    case True
    then have "r1 \<noteq> None" using l1 first by auto
    then show ?thesis using True l1 run s1 by (auto simp: save_steps_def)
  next
    case False
    note rest = run_part_inserts [OF rep False, of now]
    let ?w1 = "with_rows ''order_service.orders'' [inserted now orders_table (order_insert v)] w"
    let ?w2 = "with_rows ''order_service.payments''
      [inserted now payments_table (payment_insert ?uid (ord_Payment v))] ?w1"
    let ?w3 = "add_parts now v w"
    have t1: "r1 = None \<Longrightarrow> se_open (view d1) = Some (now, ?w1)" using l1 first False by auto
    have t2: "r2 = None \<Longrightarrow> se_open (view d2) = Some (now, ?w2) \<and> se_committed (view d2) = se_committed (view d)"
      if "r1 = None" using l2 [OF t1 [OF that]] l1 rest(1) by auto
    have t3: "r3 = None \<Longrightarrow> se_open (view d3) = Some (now, ?w3) \<and> se_committed (view d3) = se_committed (view d)"
      if "r1 = None" "r2 = None" using l3 t2 [OF that] rest(2) by (auto simp: add_parts_def)
    show ?thesis
    proof (cases "r1 = None \<and> r2 = None \<and> r3 = None")
      case True
      then have "se_open (view d3) = Some (now, ?w3)" using t3 by simp
      from l4 [OF this] show ?thesis
        using True run s1 s2 s3 s4 t3 items [OF False] False by (auto simp: save_steps_def split: option.splits)
    next
      case some_fails: False
      consider "r1 \<noteq> None" | "r1 = None" "r2 \<noteq> None" | "r1 = None" "r2 = None" "r3 \<noteq> None"
        using some_fails by fastforce
      then show ?thesis
      proof cases
        case 1
        then show ?thesis using run s1 l1 first False by (auto simp: save_steps_def)
      next
        case 2
        then show ?thesis using run s1 s2 l1 l2 [OF t1 [OF 2(1)]] rest(1) by (auto simp: save_steps_def)
      next
        case 3
        then show ?thesis using run s1 s2 s3 t2 l3 rest(2) by (auto simp: save_steps_def)
      qed
    qed
  qed
qed

text \<open>The deferred function: a failed transaction is rolled back, and its commit changes nothing.\<close>

lemma transaction_laws:
  assumes "postgres pg view user"
  shows "pg_Begin pg ctx d = (d', e) \<Longrightarrow> se_committed (view d') = se_committed (view d) \<and>
      (e = None \<longrightarrow> (\<exists>now. se_open (view d') = Some (now, se_committed (view d))))"
    "pg_Rollback pg ctx d = (d', e) \<Longrightarrow> se_committed (view d') = se_committed (view d) \<and> se_open (view d') = None"
    "pg_Commit pg ctx d = (d', e) \<Longrightarrow>
      (case se_open (view d) of
         None \<Rightarrow> se_committed (view d') = se_committed (view d)
       | Some (now, w) \<Rightarrow>
           se_committed (view d') = w \<or> e \<noteq> None \<and> se_committed (view d') = se_committed (view d))"
proof -
  have l: "transaction_law pg view" using assms by (simp add: postgres_def)
  note b = l [unfolded transaction_law_def, THEN conjunct1, rule_format, where ctx = ctx and d = d]
    and r = l [unfolded transaction_law_def, THEN conjunct2, THEN conjunct1, rule_format, where ctx = ctx and d = d]
    and c = l [unfolded transaction_law_def, THEN conjunct2, THEN conjunct2, rule_format, where ctx = ctx and d = d]
  show "se_committed (view d') = se_committed (view d) \<and>
      (e = None \<longrightarrow> (\<exists>now. se_open (view d') = Some (now, se_committed (view d))))" if "pg_Begin pg ctx d = (d', e)"
    using b that by simp
  show "se_committed (view d') = se_committed (view d) \<and> se_open (view d') = None" if "pg_Rollback pg ctx d = (d', e)"
    using r that by simp
  show "case se_open (view d) of
         None \<Rightarrow> se_committed (view d') = se_committed (view d)
       | Some (now, w) \<Rightarrow>
           se_committed (view d') = w \<or> e \<noteq> None \<and> se_committed (view d') = se_committed (view d)"
    if "pg_Commit pg ctx d = (d', e)"
    using c that by simp
qed

lemma deferred_law:
  assumes pg: "postgres pg view user" and run: "deferred pg ctx err d = (d', r)"
  shows "err \<noteq> None \<Longrightarrow> se_committed (view d') = se_committed (view d)"
    "err = None \<Longrightarrow> se_open (view d) = Some (now, w) \<Longrightarrow>
      se_committed (view d') = w \<or> \<not> reliable pg view user \<and> se_committed (view d') = se_committed (view d)"
proof -
  have commit: "d' = fst (pg_Commit pg ctx (case err of None \<Rightarrow> d | Some _ \<Rightarrow> fst (pg_Rollback pg ctx d)))"
    using deferred_state [of pg ctx err d] run by simp
  show "se_committed (view d') = se_committed (view d)" if "err \<noteq> None"
  proof -
    obtain d1 e1 where rb: "pg_Rollback pg ctx d = (d1, e1)" by fastforce
    obtain d2 e2 where cm: "pg_Commit pg ctx d1 = (d2, e2)" by fastforce
    show ?thesis
      using transaction_laws(2) [OF pg rb] transaction_laws(3) [OF pg cm] commit that rb cm by auto
  qed
  show "se_committed (view d') = w \<or> \<not> reliable pg view user \<and> se_committed (view d') = se_committed (view d)"
    if "err = None" "se_open (view d) = Some (now, w)"
  proof -
    obtain d2 e2 where cm: "pg_Commit pg ctx d = (d2, e2)" by fastforce
    have "reliable pg view user \<Longrightarrow> snd (pg_Commit pg ctx d) = None"
      using that(2) by (simp add: reliable_def reliable_transactions_def)
    then show ?thesis using transaction_laws(3) [OF pg cm] commit that cm by auto
  qed
qed

text \<open>\<open>SaveOrder\<close>: all or nothing, and on a reliable database exactly for the orders that are not there yet.\<close>

lemma SaveOrder_pg_rows:
  assumes pg: "postgres pg view ''order_service''" and rep: "db_rep saved (se_committed (view d))" and v: "parts_fit v"
    and rows: "items_denote (ord_OrderUID v) (ord_Items v) rows"
    and items: "\<And>now. ord_OrderUID v \<notin> set (uids saved) \<Longrightarrow>
      insert_rows ''order_service'' now order_items_table item_columns rows (add_parts now v (se_committed (view d))) = Some (f now)"
    and run: "SaveOrder_pg pg ctx v d = (d', res)"
  shows "(se_committed (view d') = se_committed (view d) \<or>
      res = None \<and> ord_OrderUID v \<notin> set (uids saved) \<and> (\<exists>now. se_committed (view d') = f now)) \<and>
    (ord_OrderUID v \<in> set (uids saved) \<longrightarrow> res \<noteq> None) \<and>
    (reliable pg view ''order_service'' \<longrightarrow> ord_OrderUID v \<notin> set (uids saved) \<longrightarrow>
      res = None \<and> (\<exists>now. se_committed (view d') = f now))"
proof -
  obtain d0 e0 where b: "pg_Begin pg ctx d = (d0, e0)" by fastforce
  show ?thesis
  proof (cases e0)
    case (Some e)
    then have "d' = d0" "res \<noteq> None" using run b by (auto simp: SaveOrder_pg_eq)
    moreover have "\<not> reliable pg view ''order_service''"
    proof
      assume "reliable pg view ''order_service''"
      then have "snd (pg_Begin pg ctx d) = None" by (simp add: reliable_def reliable_transactions_def)
      then show False using b Some by simp
    qed
    ultimately show ?thesis using transaction_laws(1) [OF pg b] by simp
  next
    case None
    then obtain now where now: "se_open (view d0) = Some (now, se_committed (view d))"
      "se_committed (view d0) = se_committed (view d)" using transaction_laws(1) [OF pg b] by auto
    obtain d1 err res' where st: "save_steps pg ctx v d0 = (d1, err, res')" using prod_cases3 by blast
    obtain r' where df: "deferred pg ctx err d1 = (d', r')"
      using run b None st by (cases "deferred pg ctx err d1") (simp add: SaveOrder_pg_eq)
    have res: "res' = res" "err = None \<longleftrightarrow> res = None"
      using run b None st save_steps_cases [of pg ctx v d0] by (auto simp: SaveOrder_pg_eq)
    note steps = save_steps_law [OF pg rep v rows items now(1) st]
    show ?thesis
    proof (cases err)
      case (Some e)
      then show ?thesis using steps res deferred_law(1) [OF pg df] now(2) by auto
    next
      case None
      then have n: "ord_OrderUID v \<notin> set (uids saved)"
        and o: "se_open (view d1) = Some (now, f now)" using steps by auto
      show ?thesis
        using steps res None n deferred_law(2) [OF pg df None o] now(2) by auto
    qed
  qed
qed

text \<open>The orders that are stored as they are: they fit the tables, and no text of the items statement has a quote.\<close>

definition savable :: "order \<Rightarrow> bool" where
  "savable v \<longleftrightarrow> storable v \<and> quote \<notin> set (ord_OrderUID v) \<and> list_all no_quotes (ord_Items v)"

lemma SaveOrder_pg_law:
  assumes "postgres pg view ''order_service''" "db_rep saved (se_committed (view d))" "savable v"
    "SaveOrder_pg pg ctx v d = (d', res)"
  shows "(se_committed (view d') = se_committed (view d) \<or>
      res = None \<and> ord_OrderUID v \<notin> set (uids saved) \<and> (\<exists>now. db_rep (saved @ [(now, v)]) (se_committed (view d')))) \<and>
    (ord_OrderUID v \<in> set (uids saved) \<longrightarrow> res \<noteq> None) \<and>
    (reliable pg view ''order_service'' \<longrightarrow> ord_OrderUID v \<notin> set (uids saved) \<longrightarrow>
      res = None \<and> (\<exists>now. db_rep (saved @ [(now, v)]) (se_committed (view d'))))"
proof -
  have st: "storable v" and q: "quote \<notin> set (ord_OrderUID v)" "\<forall>it \<in> set (ord_Items v). no_quotes it"
    using assms(3) by (simp_all add: savable_def list_all_iff)
  note parts = storable_parts [OF st]
  have "parts_fit v" using parts by (simp add: parts_fit_def)
  moreover have "items_denote (ord_OrderUID v) (ord_Items v) (map (item_row (ord_OrderUID v)) (ord_Items v))"
    using sql_rows_items [OF q] parts(4) by (simp add: items_denote_def)
  ultimately show ?thesis
    using SaveOrder_pg_rows [OF assms(1,2) _ _ run_items_insert [OF assms(2) _ parts(5)] assms(4)] db_rep_add_order [OF assms(2)]
    by metis
qed

end
