(* ===== verification/DatabaseReads.thy ===== *)
theory DatabaseReads
  imports DatabaseProps
begin

text \<open>
  The lookups of the Postgres storage, over tables that represent the saved orders: what the
  selects denote, what \<open>GetOrderByID\<close> and \<open>GetLastOrders\<close> return, and what follows for orders
  without items and for texts with quotes.
\<close>

section \<open>What the selects denote\<close>

text \<open>The order that is loaded without its items, and the row that the base selects have for it.\<close>

definition loaded :: "go_time \<Rightarrow> order \<Rightarrow> order" where
  "loaded t v = v\<lparr>ord_CreatedAt := t, ord_UpdatedAt := t,
     ord_Delivery := (ord_Delivery v)\<lparr>dlv_OrderID := ord_OrderUID v\<rparr>,
     ord_Payment := (ord_Payment v)\<lparr>pay_OrderID := ord_OrderUID v\<rparr>, ord_Items := []\<rparr>"

definition base_row :: "go_time \<Rightarrow> order \<Rightarrow> sql_value list" where
  "base_row t v = the (those (map (joined_value t v) base_columns))"

lemma base_row:
  "those (map (joined_value t v) base_columns) = Some (base_row t v)" "scan_base (base_row t v) = Some (loaded t v)"
  using saved_columns_scan_back [of t v] by (auto simp: base_row_def loaded_def)

text \<open>The joined rows of one order.\<close>

definition o_tuple :: "go_time \<times> order \<Rightarrow> db_row" where
  "o_tuple x = qualify ''o.'' (inserted (fst x) orders_table (order_insert (snd x)))"

definition d_tuple :: "go_time \<times> order \<Rightarrow> db_row" where
  "d_tuple x = qualify ''d.'' (inserted (fst x) deliveries_table
     (delivery_insert (ord_OrderUID (snd x)) (ord_Delivery (snd x))))"

definition p_tuple :: "go_time \<times> order \<Rightarrow> db_row" where
  "p_tuple x = qualify ''p.'' (inserted (fst x) payments_table
     (payment_insert (ord_OrderUID (snd x)) (ord_Payment (snd x))))"

definition base_tuple :: "go_time \<times> order \<Rightarrow> db_row" where
  "base_tuple x = p_tuple x ++ (d_tuple x ++ o_tuple x)"

lemma qualify_simps: "qualify (c # cs) r (x # xs) = (if x = c then qualify cs r xs else None)" "qualify [] r = r"
  "qualify (c # cs) r [] = None"
  by (auto simp: qualify_def fun_eq_iff)

lemma tuple_keys:
  "o_tuple x ''o.order_uid'' = Some (SqlStr (ord_OrderUID (snd x)))" "o_tuple x (CHR ''d'' # s) = None"
  "o_tuple x (CHR ''p'' # s) = None" "o_tuple x (CHR ''i'' # s) = None"
  "d_tuple x ''d.order_id'' = Some (SqlStr (ord_OrderUID (snd x)))" "d_tuple x (CHR ''o'' # s) = None"
  "d_tuple x (CHR ''p'' # s) = None" "d_tuple x (CHR ''i'' # s) = None"
  "p_tuple x ''p.order_id'' = Some (SqlStr (ord_OrderUID (snd x)))" "p_tuple x (CHR ''o'' # s) = None"
  "p_tuple x (CHR ''d'' # s) = None" "p_tuple x (CHR ''i'' # s) = None"
  by (simp_all add: o_tuple_def d_tuple_def p_tuple_def qualify_simps)

lemma base_tuple_values:
  assumes "c \<in> set base_columns"
  shows "base_tuple (t, v) c = joined_value t v c" "joined_value t v c \<noteq> None"
proof -
  have "\<forall>c \<in> set base_columns. base_tuple (t, v) c = joined_value t v c \<and> joined_value t v c \<noteq> None"
    by (simp add: base_columns_def base_tuple_def map_add_def tuple_keys o_tuple_def d_tuple_def p_tuple_def
        qualify_simps joined_value_def order_insert_def delivery_insert_def payment_insert_def new_row_def
        orders_table_def)
  then show "base_tuple (t, v) c = joined_value t v c" "joined_value t v c \<noteq> None" using assms by blast+
qed

lemma base_tuple_row:
  assumes "\<forall>c \<in> set base_columns. u c = base_tuple (t, v) c"
  shows "those (map (value_of ps u) base_columns) = Some (base_row t v)"
proof -
  have "value_of ps u c = joined_value t v c" if "c \<in> set base_columns" for c
    using base_tuple_values [OF that, of t v] assms that by (auto simp: value_of_def)
  then have m: "map (value_of ps u) base_columns = map (joined_value t v) base_columns" by simp
  show ?thesis unfolding m by (rule base_row(1))
qed

section \<open>Joins on unique keys\<close>

lemma filter_unique_key:
  "distinct (map key xs) \<Longrightarrow> x \<in> set xs \<Longrightarrow> filter (\<lambda>y. key y = key x) xs = [x]"
  by (induction xs) (auto simp: filter_empty_conv image_iff)

lemma join_unique_key:
  assumes "distinct (map key xs)"
    "\<And>x y. (qualify p (G y) ++ F x) a = Some (SqlStr (key y))" "\<And>x y. (qualify p (G y) ++ F x) b = Some (SqlStr (key x))"
  shows "concat (map (\<lambda>t. filter (\<lambda>u. u a \<noteq> None \<and> u a = u b) (map (\<lambda>r. qualify p r ++ t) (map G xs))) (map F xs)) =
    map (\<lambda>x. qualify p (G x) ++ F x) xs"
proof -
  have "filter (\<lambda>u. u a \<noteq> None \<and> u a = u b) (map (\<lambda>r. qualify p r ++ F x) (map G xs)) = [qualify p (G x) ++ F x]"
    if "x \<in> set xs" for x
    using filter_unique_key [OF assms(1) that] by (simp add: filter_map comp_def assms(2,3))
  then have "concat (map (\<lambda>x. filter (\<lambda>u. u a \<noteq> None \<and> u a = u b) (map (\<lambda>r. qualify p r ++ F x) (map G xs))) xs) =
      concat (map (\<lambda>x. [qualify p (G x) ++ F x]) xs)"
    by (intro arg_cong [where f = concat] map_cong refl)
  then show ?thesis by (simp add: comp_def)
qed

lemma mset_map_split:
  "mset ts = mset (map f xs) \<Longrightarrow> \<exists>ys. mset ys = mset xs \<and> ts = map f ys"
proof (induction ts arbitrary: xs)
  case (Cons t ts)
  then have "t \<in> set (map f xs)" by (metis list.set_intros(1) mset_eq_setD)
  then obtain x where x: "x \<in> set xs" "t = f x" by auto
  have "mset ts = mset (map f xs) - {#f x#}"
    using Cons.prems x(2) by (metis add_mset_remove_trivial mset.simps(2))
  then have "mset ts = mset (map f (remove1 x xs))" using x(1) by (simp add: image_mset_Diff)
  from Cons.IH [OF this] obtain ys where "mset ys = mset (remove1 x xs)" "ts = map f ys" by blast
  then show ?case using x by (intro exI [of _ "x # ys"]) simp
qed simp

section \<open>The base selects\<close>

lemma base_words:
  "words [] ''order_service.orders o'' = [''order_service.orders'', ''o'']"
  "words [] ''order_service.deliveries d ON d.order_id = o.order_uid'' =
     [''order_service.deliveries'', ''d'', ''ON'', ''d.order_id'', ''='', ''o.order_uid'']"
  "words [] ''order_service.payments p ON p.order_id = o.order_uid'' =
     [''order_service.payments'', ''p'', ''ON'', ''p.order_id'', ''='', ''o.order_uid'']"
  "words [] ''order_service.order_items i ON i.order_id = o.order_uid'' =
     [''order_service.order_items'', ''i'', ''ON'', ''i.order_id'', ''='', ''o.order_uid'']"
  "words [] ''o.created_at DESC'' = [''o.created_at'', ''DESC'']" "words [] ''order_items'' = [''order_items'']"
  by simp_all

lemma uids_key: "uids saved = map (\<lambda>x. ord_OrderUID (snd x)) saved"
  by (simp add: uids_def case_prod_beta)

lemma rows_by_order:
  "order_rows saved = map (\<lambda>x. inserted (fst x) orders_table (order_insert (snd x))) saved"
  "delivery_rows saved = map (\<lambda>x. inserted (fst x) deliveries_table
     (delivery_insert (ord_OrderUID (snd x)) (ord_Delivery (snd x)))) saved"
  "payment_rows saved = map (\<lambda>x. inserted (fst x) payments_table
     (payment_insert (ord_OrderUID (snd x)) (ord_Payment (snd x)))) saved"
  by (simp_all add: order_rows_def delivery_rows_def payment_rows_def case_prod_beta)

lemma base_from:
  assumes "db_rep saved w"
  shows "from_tuples user w ''order_service.orders o'' = Some ([''o.''], map o_tuple saved)"
  using assms by (simp add: from_tuples_def base_words db_rep_def rows_by_order o_tuple_def comp_def)

lemma base_joins:
  assumes "db_rep saved w"
  shows "joins_tuples user w
    [''order_service.deliveries d ON d.order_id = o.order_uid'', ''order_service.payments p ON p.order_id = o.order_uid'']
    ([''o.''], map o_tuple saved) = Some ([''o.'', ''d.'', ''p.''], map base_tuple saved)"
proof -
  have d: "distinct (map (\<lambda>x. ord_OrderUID (snd x)) saved)" using assms by (simp add: db_rep_def uids_key)
  have "join_tuples user w ''order_service.deliveries d ON d.order_id = o.order_uid'' ([''o.''], map o_tuple saved) =
      Some ([''o.'', ''d.''], map (\<lambda>x. d_tuple x ++ o_tuple x) saved)"
    using assms join_unique_key [OF d, of "''d.''" "\<lambda>x. inserted (fst x) deliveries_table
        (delivery_insert (ord_OrderUID (snd x)) (ord_Delivery (snd x)))" o_tuple "''d.order_id''" "''o.order_uid''"]
    by (simp add: join_tuples_def base_words db_rep_def rows_by_order d_tuple_def [symmetric] map_add_def tuple_keys)
  moreover have "join_tuples user w ''order_service.payments p ON p.order_id = o.order_uid''
        ([''o.'', ''d.''], map (\<lambda>x. d_tuple x ++ o_tuple x) saved) =
      Some ([''o.'', ''d.'', ''p.''], map base_tuple saved)"
    using assms join_unique_key [OF d, of "''p.''" "\<lambda>x. inserted (fst x) payments_table
        (payment_insert (ord_OrderUID (snd x)) (ord_Payment (snd x)))" "\<lambda>x. d_tuple x ++ o_tuple x"
        "''p.order_id''" "''o.order_uid''"]
    by (simp add: join_tuples_def base_words db_rep_def rows_by_order p_tuple_def [symmetric] map_add_def tuple_keys
        base_tuple_def)
  ultimately show ?thesis by simp
qed

lemma map_Some_eq: "map Some rows = map (\<lambda>x. Some (g x)) xs \<Longrightarrow> rows = map g xs"
  by (induction rows arbitrary: xs) (auto simp: Cons_eq_map_conv)

lemma created_at: "base_tuple x ''o.created_at'' = Some (SqlTime (fst x))"
  using base_tuple_values [of "''o.created_at''" "fst x" "snd x"] by (simp add: base_columns_def joined_value_def)

text \<open>The last orders: a selection of the latest ones, the latest first.\<close>

lemma last_select_rows:
  assumes "db_rep saved w" "answers user w (last_select limit) rows"
  shows "\<exists>xs. mset xs = mset saved \<and> sorted_wrt (\<lambda>x y. fst y \<le> fst x) xs \<and>
    rows = map (\<lambda>x. base_row (fst x) (snd x)) (take (unat limit) xs)"
proof -
  obtain ts all_rows where ts: "mset ts = mset (map base_tuple saved)" "in_order (Some ''o.created_at DESC'') ts"
    "map Some all_rows = map (\<lambda>t. those (map (value_of [''o.'', ''d.'', ''p.''] t) base_columns)) ts"
    "rows = take (unat limit) all_rows"
    using assms(2) by (auto simp: last_select_def base_from [OF assms(1)] base_joins [OF assms(1)]
        simp del: joins_tuples.simps)
  obtain xs where xs: "mset xs = mset saved" "ts = map base_tuple xs" using mset_map_split [OF ts(1)] by blast
  have "sorted_wrt (\<lambda>x y. fst y \<le> fst x) xs"
    using ts(2) by (simp add: xs(2) in_order_def base_words sorted_wrt_map created_at time_of_def)
  moreover have b: "those (map (value_of [''o.'', ''d.'', ''p.''] (base_tuple x)) base_columns) = Some (base_row (fst x) (snd x))"
    for x using base_tuple_row [of "base_tuple x" "fst x" "snd x"] by simp
  have "map Some all_rows = map (\<lambda>x. Some (base_row (fst x) (snd x))) xs"
    using ts(3) unfolding xs(2) map_map comp_def b .
  then have "all_rows = map (\<lambda>x. base_row (fst x) (snd x)) xs" by (rule map_Some_eq)
  then have "rows = map (\<lambda>x. base_row (fst x) (snd x)) (take (unat limit) xs)" using ts(4) by (simp add: take_map)
  ultimately show ?thesis using xs(1) by blast
qed

lemma last_answered:
  assumes "db_rep saved w"
  shows "\<exists>rows. answers user w (last_select limit) rows"
proof -
  let ?xs = "sort_key (\<lambda>x. - fst x) saved"
  have "sorted_wrt (\<lambda>x y. fst y \<le> fst x) ?xs"
    using sorted_sort_key [of "\<lambda>x. - fst x" saved] by (simp add: sorted_wrt_map)
  then have "in_order (Some ''o.created_at DESC'') (map base_tuple ?xs)"
    by (simp add: in_order_def base_words sorted_wrt_map created_at time_of_def)
  moreover have "map Some (map (\<lambda>x. base_row (fst x) (snd x)) ?xs) =
      map (\<lambda>t. those (map (value_of [''o.'', ''d.'', ''p.''] t) base_columns)) (map base_tuple ?xs)"
    using base_tuple_row by (simp add: comp_def) (metis prod.collapse)
  moreover have "mset (map base_tuple ?xs) = mset (map base_tuple saved)" by simp
  ultimately have "answers user w (last_select limit) (take (unat limit) (map (\<lambda>x. base_row (fst x) (snd x)) ?xs))"
    by (simp only: last_select_def answers.simps selected.simps base_from [OF assms] base_joins [OF assms] option.case
        option.map prod.case) blast
  then show ?thesis by blast
qed

text \<open>The order of one identifier: its row once for each of its items.\<close>

lemma joined_uid:
  assumes "r = item_db_row t uid it"
  shows "value_of [''o.'', ''d.'', ''p.'', ''i.''] (qualify ''i.'' r ++ base_tuple x) ''order_uid'' =
    Some (SqlStr (ord_OrderUID (snd x)))"
    "(qualify ''i.'' r ++ base_tuple x) ''o.order_uid'' = Some (SqlStr (ord_OrderUID (snd x)))"
    "(qualify ''i.'' r ++ base_tuple x) ''i.order_id'' = Some (SqlStr uid)"
    "c \<in> set base_columns \<Longrightarrow> (qualify ''i.'' r ++ base_tuple x) c = base_tuple x c"
  using assms
  by (auto simp: value_of_def map_add_def base_tuple_def qualify_simps tuple_keys item_db_row_def new_row_def
      item_row_def item_columns_def order_items_table_def o_tuple_def d_tuple_def p_tuple_def base_columns_def
      deliveries_table_def payments_table_def delivery_insert_def payment_insert_def split: option.split)

lemma joins_append:
  "joins_tuples user w (xs @ ys) acc =
     (case joins_tuples user w xs acc of None \<Rightarrow> None | Some acc' \<Rightarrow> joins_tuples user w ys acc')"
  by (induction xs arbitrary: acc) (auto split: option.split)

lemma joined_cond:
  "u = qualify ''i.'' (item_db_row t uid' it) ++ base_tuple x \<and>
     u ''i.order_id'' \<noteq> None \<and> u ''i.order_id'' = u ''o.order_uid'' \<and>
     value_of [''o.'', ''d.'', ''p.'', ''i.''] u ''order_uid'' = Some (SqlStr uid) \<longleftrightarrow>
   u = qualify ''i.'' (item_db_row t uid' it) ++ base_tuple x \<and> ord_OrderUID (snd x) = uid \<and> uid' = uid"
proof (cases "u = qualify ''i.'' (item_db_row t uid' it) ++ base_tuple x")
  case True
  show ?thesis unfolding True joined_uid(1-3) [OF refl] by auto
qed simp

lemma bex_members:
  assumes "\<And>r. r \<in> R \<longleftrightarrow> (\<exists>y \<in> Y. \<exists>i \<in> I y. r = g y i)"
  shows "(\<exists>r \<in> R. P r) \<longleftrightarrow> (\<exists>y \<in> Y. \<exists>i \<in> I y. P (g y i))"
proof -
  have "R = (\<Union>y \<in> Y. g y ` I y)" by (intro set_eqI) (simp add: assms image_iff)
  then show ?thesis by simp
qed

lemma ex_built:
  "(\<exists>u. \<exists>x \<in> X. \<exists>y \<in> Y. \<exists>i \<in> I y. u = h x y i \<and> P x y) \<longleftrightarrow> (\<exists>x \<in> X. \<exists>y \<in> Y. \<exists>i \<in> I y. P x y)"
  by (simp add: ex_simps Bex_def) metis

lemma set_joined:
  "u \<in> set (filter V (concat (map (\<lambda>t. filter C (map (f t) rows)) (map F xs)))) \<longleftrightarrow>
     (\<exists>x \<in> set xs. \<exists>r \<in> set rows. u = f (F x) r \<and> C u \<and> V u)"
  by auto

lemma base_selected:
  assumes "db_rep saved w"
  shows "\<exists>us. selected user w (base_select uid) = Some ([''o.'', ''d.'', ''p.'', ''i.''], us) \<and>
    (\<forall>u \<in> set us. \<exists>x \<in> set saved. ord_OrderUID (snd x) = uid \<and> (\<forall>c \<in> set base_columns. u c = base_tuple x c)) \<and>
    (us = [] \<longleftrightarrow> (\<forall>x \<in> set saved. ord_OrderUID (snd x) = uid \<longrightarrow> ord_Items (snd x) = []))"
proof -
  let ?i = "''order_service.order_items i ON i.order_id = o.order_uid''" and ?ps = "[''o.'', ''d.'', ''p.'', ''i.'']"
  let ?rows = "w ''order_service.order_items''"
  define ts where "ts = concat (map (\<lambda>t. filter (\<lambda>u. u ''i.order_id'' \<noteq> None \<and> u ''i.order_id'' = u ''o.order_uid'')
    (map (\<lambda>r. qualify ''i.'' r ++ t) ?rows)) (map base_tuple saved))"
  define us where "us = filter (\<lambda>u. value_of ?ps u ''order_uid'' = Some (SqlStr uid)) ts"
  have sel: "selected user w (base_select uid) = Some (?ps, us)"
    using joins_append [of user w "[''order_service.deliveries d ON d.order_id = o.order_uid'',
        ''order_service.payments p ON p.order_id = o.order_uid'']" "[?i]"]
    by (simp add: base_select_def base_from [OF assms] base_joins [OF assms] join_tuples_def base_words us_def ts_def
        del: joins_tuples.simps(2)) (simp add: join_tuples_def base_words)
  have rows: "set ?rows = set (item_rows saved)" using assms by (intro mset_eq_setD) (simp add: db_rep_def)
  have in_rows: "r \<in> set ?rows \<longleftrightarrow> (\<exists>y \<in> set saved. \<exists>it \<in> set (ord_Items (snd y)). r = item_db_row (fst y) (ord_OrderUID (snd y)) it)"
    for r unfolding rows by (force simp: item_rows_def)
  have in_us: "u \<in> set us \<longleftrightarrow> (\<exists>x \<in> set saved. \<exists>y \<in> set saved. \<exists>it \<in> set (ord_Items (snd y)).
      u = qualify ''i.'' (item_db_row (fst y) (ord_OrderUID (snd y)) it) ++ base_tuple x \<and>
      ord_OrderUID (snd x) = uid \<and> ord_OrderUID (snd y) = uid)" for u
  proof -
    have "u \<in> set us \<longleftrightarrow> (\<exists>x \<in> set saved. \<exists>r \<in> set ?rows. u = qualify ''i.'' r ++ base_tuple x \<and>
        u ''i.order_id'' \<noteq> None \<and> u ''i.order_id'' = u ''o.order_uid'' \<and>
        value_of ?ps u ''order_uid'' = Some (SqlStr uid))"
      unfolding us_def ts_def set_joined by simp
    also have "\<dots> \<longleftrightarrow> (\<exists>x \<in> set saved. \<exists>y \<in> set saved. \<exists>it \<in> set (ord_Items (snd y)).
        u = qualify ''i.'' (item_db_row (fst y) (ord_OrderUID (snd y)) it) ++ base_tuple x \<and>
        u ''i.order_id'' \<noteq> None \<and> u ''i.order_id'' = u ''o.order_uid'' \<and>
        value_of ?ps u ''order_uid'' = Some (SqlStr uid))"
      by (simp only: bex_members [OF in_rows])
    also have "\<dots> \<longleftrightarrow> (\<exists>x \<in> set saved. \<exists>y \<in> set saved. \<exists>it \<in> set (ord_Items (snd y)).
        u = qualify ''i.'' (item_db_row (fst y) (ord_OrderUID (snd y)) it) ++ base_tuple x \<and>
        ord_OrderUID (snd x) = uid \<and> ord_OrderUID (snd y) = uid)"
      by (simp only: joined_cond)
    finally show ?thesis .
  qed
  have "\<exists>x \<in> set saved. ord_OrderUID (snd x) = uid \<and> (\<forall>c \<in> set base_columns. u c = base_tuple x c)" if "u \<in> set us" for u
    using that unfolding in_us by (auto simp: joined_uid(4) [OF refl])
  moreover have "us = [] \<longleftrightarrow> (\<forall>x \<in> set saved. ord_OrderUID (snd x) = uid \<longrightarrow> ord_Items (snd x) = [])"
  proof -
    have "us \<noteq> [] \<longleftrightarrow> (\<exists>u. u \<in> set us)" by (simp add: ex_in_conv)
    also have "\<dots> \<longleftrightarrow> (\<exists>x \<in> set saved. \<exists>y \<in> set saved. \<exists>it \<in> set (ord_Items (snd y)).
        ord_OrderUID (snd x) = uid \<and> ord_OrderUID (snd y) = uid)" by (simp only: in_us ex_built)
    also have "\<dots> \<longleftrightarrow> (\<exists>y \<in> set saved. ord_OrderUID (snd y) = uid \<and> set (ord_Items (snd y)) \<noteq> {})"
      by (auto simp only: ex_in_conv [symmetric])
    finally show ?thesis by auto
  qed
  ultimately show ?thesis using sel by blast
qed

text \<open>What is stored under an identifier.\<close>

definition stored_at :: "saved \<Rightarrow> string \<Rightarrow> (go_time \<times> order) option" where
  "stored_at saved uid = map_of (map (\<lambda>x. (ord_OrderUID (snd x), x)) saved) uid"

lemma stored_at_iff:
  "distinct (uids saved) \<Longrightarrow> stored_at saved uid = Some x \<longleftrightarrow> x \<in> set saved \<and> ord_OrderUID (snd x) = uid"
  by (induction saved) (auto simp: stored_at_def uids_key image_iff)

lemma stored_at_None: "stored_at saved uid = None \<longleftrightarrow> uid \<notin> set (uids saved)"
  by (auto simp: stored_at_def uids_key map_of_eq_None_iff image_iff)

lemma base_select_rows:
  assumes "db_rep saved w" "answers user w (base_select uid) rows"
  shows "case stored_at saved uid of
      None \<Rightarrow> rows = []
    | Some (t, v) \<Rightarrow> (rows = [] \<longleftrightarrow> ord_Items v = []) \<and> (\<forall>row \<in> set rows. row = base_row t v)"
proof -
  obtain us where us: "selected user w (base_select uid) = Some ([''o.'', ''d.'', ''p.'', ''i.''], us)"
    "\<forall>u \<in> set us. \<exists>x \<in> set saved. ord_OrderUID (snd x) = uid \<and> (\<forall>c \<in> set base_columns. u c = base_tuple x c)"
    "us = [] \<longleftrightarrow> (\<forall>x \<in> set saved. ord_OrderUID (snd x) = uid \<longrightarrow> ord_Items (snd x) = [])"
    using base_selected [OF assms(1), of user uid] by (elim exE conjE)
  have "\<exists>ts. mset ts = mset us \<and> in_order None ts \<and>
      map Some rows = map (\<lambda>t. those (map (value_of [''o.'', ''d.'', ''p.'', ''i.''] t) base_columns)) ts"
    using assms(2) us(1) unfolding base_select_def answers_unlimited by (auto simp: in_order_def simp del: selected.simps)
  then obtain ts where ts: "mset ts = mset us"
    "map Some rows = map (\<lambda>t. those (map (value_of [''o.'', ''d.'', ''p.'', ''i.''] t) base_columns)) ts"
    by (elim exE conjE)
  have st: "stored_at saved uid = Some x \<longleftrightarrow> x \<in> set saved \<and> ord_OrderUID (snd x) = uid" for x
    using assms(1) by (intro stored_at_iff) (simp add: db_rep_def)
  have "length rows = length us"
    using arg_cong [OF ts(2), of length] mset_eq_length [OF ts(1)] by (simp only: length_map)
  then have "rows = [] \<longleftrightarrow> us = []" by (metis length_0_conv)
  have row: "row = base_row (fst x) (snd x)" if x: "stored_at saved uid = Some x" and r: "row \<in> set rows" for x row
  proof -
    have "Some row \<in> set (map Some rows)" using r by simp
    then obtain u where u: "u \<in> set us" "Some row = those (map (value_of [''o.'', ''d.'', ''p.'', ''i.''] u) base_columns)"
      unfolding ts(2) using mset_eq_setD [OF ts(1)] by auto
    then obtain y where y: "y \<in> set saved" "ord_OrderUID (snd y) = uid" "\<forall>c \<in> set base_columns. u c = base_tuple y c"
      using us(2) by blast
    then have "y = x" using st x by (metis option.inject)
    then show ?thesis using base_tuple_row [of u "fst x" "snd x"] u(2) y(3) by simp
  qed
  show ?thesis
  proof (cases "stored_at saved uid")
    case None
    then have "\<forall>x \<in> set saved. ord_OrderUID (snd x) \<noteq> uid" using st by (metis option.distinct(1))
    then have "us = []" using us(3) by blast
    then show ?thesis using None \<open>rows = [] \<longleftrightarrow> us = []\<close> by simp
  next
    case (Some x)
    have "us = [] \<longleftrightarrow> ord_Items (snd x) = []" using us(3) st Some by (metis option.inject)
    then show ?thesis using Some \<open>rows = [] \<longleftrightarrow> us = []\<close> row by (auto split: prod.split)
  qed
qed

lemma base_answered:
  assumes "db_rep saved w"
  shows "\<exists>rows. answers user w (base_select uid) rows"
proof -
  obtain us where us: "selected user w (base_select uid) = Some ([''o.'', ''d.'', ''p.'', ''i.''], us)"
    "\<forall>u \<in> set us. \<exists>x \<in> set saved. ord_OrderUID (snd x) = uid \<and> (\<forall>c \<in> set base_columns. u c = base_tuple x c)"
    using base_selected [OF assms(1), of user uid] by (elim exE conjE)
  let ?v = "\<lambda>u. those (map (value_of [''o.'', ''d.'', ''p.'', ''i.''] u) base_columns)"
  have "?v u = Some (the (?v u))" if "u \<in> set us" for u
  proof -
    obtain x where "\<forall>c \<in> set base_columns. u c = base_tuple x c" using us(2) \<open>u \<in> set us\<close> by blast
    then show ?thesis using base_tuple_row [of u "fst x" "snd x"] by simp
  qed
  then have "map Some (map (\<lambda>u. the (?v u)) us) = map ?v us" by simp
  then have "answers user w (base_select uid) (map (\<lambda>u. the (?v u)) us)"
    using us(1) unfolding base_select_def answers_unlimited by blast
  then show ?thesis by blast
qed

section \<open>The items select\<close>

lemma item_db_row_values:
  "value_of [[]] (item_db_row t uid it) ''order_id'' = Some (SqlStr uid)"
  "those (map (value_of [[]] (item_db_row t uid it)) item_columns) = Some (item_row uid it)"
  by (simp_all add: value_of_def item_db_row_def new_row_def item_columns_def item_row_def)

lemma items_selected:
  assumes "db_rep saved w"
  shows "selected ''order_service'' w (items_select uid) =
    Some ([[]], filter (\<lambda>r. value_of [[]] r ''order_id'' = Some (SqlStr uid)) (w ''order_service.order_items''))"
  by (simp add: items_select_def from_tuples_def base_words)

lemma items_answered:
  assumes "db_rep saved w"
  shows "\<exists>rows. answers ''order_service'' w (items_select uid) rows"
proof -
  let ?v = "\<lambda>u. those (map (value_of [[]] u) item_columns)"
  let ?rows = "filter (\<lambda>r. value_of [[]] r ''order_id'' = Some (SqlStr uid)) (w ''order_service.order_items'')"
  have "set (w ''order_service.order_items'') = set (item_rows saved)"
    using assms by (intro mset_eq_setD) (simp add: db_rep_def)
  then have "?v u = Some (the (?v u))" if "u \<in> set ?rows" for u
    using that by (auto simp: item_rows_def item_db_row_values)
  then have "map Some (map (\<lambda>u. the (?v u)) ?rows) = map ?v ?rows" by simp
  then have "answers ''order_service'' w (items_select uid) (map (\<lambda>u. the (?v u)) ?rows)"
    using items_selected [OF assms, of uid] unfolding items_select_def answers_unlimited by blast
  then show ?thesis by blast
qed

lemma filter_item_rows:
  assumes "distinct (uids saved)"
  shows "filter (\<lambda>r. value_of [[]] r ''order_id'' = Some (SqlStr uid)) (item_rows saved) =
    (case stored_at saved uid of None \<Rightarrow> [] | Some (t, v) \<Rightarrow> map (item_db_row t uid) (ord_Items v))"
  using assms
proof (induction saved)
  case (Cons x saved)
  obtain t v where x: "x = (t, v)" by fastforce
  have h: "filter (\<lambda>r. value_of [[]] r ''order_id'' = Some (SqlStr uid)) (map (item_db_row t (ord_OrderUID v)) (ord_Items v)) =
      (if ord_OrderUID v = uid then map (item_db_row t uid) (ord_Items v) else [])"
    by (simp add: filter_map comp_def item_db_row_values)
  have c: "item_rows (x # saved) = map (item_db_row t (ord_OrderUID v)) (ord_Items v) @ item_rows saved"
    by (simp add: item_rows_def x)
  show ?case
  proof (cases "ord_OrderUID v = uid")
    case True
    then have "stored_at saved uid = None" using Cons.prems by (simp add: stored_at_None x uids_def)
    then show ?thesis using Cons True x c h by (simp add: stored_at_def uids_def)
  next
    case False
    then show ?thesis using Cons x c h by (simp add: stored_at_def uids_def)
  qed
qed (simp add: item_rows_def stored_at_def)

lemma items_select_rows:
  assumes "db_rep saved w" "answers ''order_service'' w (items_select uid) rows"
  shows "\<exists>items. mset items = mset (case stored_at saved uid of None \<Rightarrow> [] | Some (t, v) \<Rightarrow> ord_Items v) \<and>
    rows = map (item_row uid) items"
proof -
  let ?f = "filter (\<lambda>r. value_of [[]] r ''order_id'' = Some (SqlStr uid))"
  have "\<exists>ts. mset ts = mset (?f (w ''order_service.order_items'')) \<and> in_order None ts \<and>
      map Some rows = map (\<lambda>t. those (map (value_of [[]] t) item_columns)) ts"
    using assms(2) items_selected [OF assms(1), of uid] unfolding items_select_def answers_unlimited
    by (auto simp: in_order_def simp del: selected.simps)
  then obtain ts where ts: "mset ts = mset (?f (w ''order_service.order_items''))"
    "map Some rows = map (\<lambda>t. those (map (value_of [[]] t) item_columns)) ts" by (elim exE conjE)
  have "mset (w ''order_service.order_items'') = mset (item_rows saved)" "distinct (uids saved)"
    using assms(1) by (simp_all add: db_rep_def)
  then have m: "mset ts = mset (case stored_at saved uid of None \<Rightarrow> [] | Some (t, v) \<Rightarrow> map (item_db_row t uid) (ord_Items v))"
    using ts(1) filter_item_rows [of saved uid] by (metis mset_filter)
  show ?thesis
  proof (cases "stored_at saved uid")
    case None
    then show ?thesis using m ts(2) by simp
  next
    case (Some x)
    then have "mset ts = mset (map (item_db_row (fst x) uid) (ord_Items (snd x)))" using m by (simp add: case_prod_beta)
    then obtain items where i: "mset items = mset (ord_Items (snd x))" "ts = map (item_db_row (fst x) uid) items"
      using mset_map_split by blast
    have "map Some rows = map (\<lambda>it. Some (item_row uid it)) items"
      using ts(2) unfolding i(2) map_map comp_def item_db_row_values(2) .
    then have "rows = map (item_row uid) items" by (rule map_Some_eq)
    then show ?thesis using i(1) Some by (auto simp: case_prod_beta)
  qed
qed

section \<open>The lookups\<close>

lemma reliable_query:
  assumes "postgres pg view user" "reliable pg view user" "storage_select q"
    "\<exists>rows. answers user (se_committed (view d)) q rows"
  shows "\<exists>sql args. pg_ToSql pg q = Inr (sql, args) \<and>
    (\<exists>rows. pg_Query pg ctx sql args d = (d, Inr (rows, None)) \<and> answers user (se_committed (view d)) q rows) \<and>
    ((\<exists>e. pg_QueryRow pg ctx sql args d = (d, Inl e) \<and> errors_is e ErrNoRows \<and> answers user (se_committed (view d)) q []) \<or>
     (\<exists>row rows. pg_QueryRow pg ctx sql args d = (d, Inr row) \<and> answers user (se_committed (view d)) q (row # rows)))"
proof -
  obtain sql args where s: "pg_ToSql pg q = Inr (sql, args)"
    using assms(2,3) by (auto simp: reliable_def reliable_transactions_def)
  have "select_law pg view user" "reliable_selects pg view user" using assms(1,2) by (simp_all add: postgres_def reliable_def)
  note law = this(1) [unfolded select_law_def, rule_format, OF assms(3) s, where ctx = ctx and d = d]
    and rel = this(2) [unfolded reliable_selects_def, rule_format, OF assms(3) s assms(4), where ctx = ctx]
  have ro: "fst (pg_Query pg ctx sql args d) = d" "fst (pg_QueryRow pg ctx sql args d) = d"
    using assms(1) by (simp_all add: postgres_def reads_only_def)
  obtain rows where "snd (pg_Query pg ctx sql args d) = Inr (rows, None)" using rel by blast
  then have "pg_Query pg ctx sql args d = (d, Inr (rows, None)) \<and> answers user (se_committed (view d)) q rows"
    using law ro(1) by (simp add: prod_eq_iff)
  moreover have "(\<exists>e. pg_QueryRow pg ctx sql args d = (d, Inl e) \<and> errors_is e ErrNoRows \<and> answers user (se_committed (view d)) q []) \<or>
     (\<exists>row rows. pg_QueryRow pg ctx sql args d = (d, Inr row) \<and> answers user (se_committed (view d)) q (row # rows))"
    using law rel ro(2) by (cases "snd (pg_QueryRow pg ctx sql args d)") (auto simp: prod_eq_iff)
  ultimately show ?thesis using s by blast
qed

text \<open>The items of an order in the order in which the database gives them.\<close>

definition items_at :: "saved \<Rightarrow> string \<Rightarrow> order_item list" where
  "items_at saved uid = (case stored_at saved uid of None \<Rightarrow> [] | Some (t, v) \<Rightarrow> ord_Items v)"

abbreviation owned_by :: "string \<Rightarrow> order_item list \<Rightarrow> order_item list" where
  "owned_by uid \<equiv> map (itm_OrderID_update (\<lambda>_. uid))"

lemma getOrderItemsByID_stored:
  assumes "postgres pg view ''order_service''" "reliable pg view ''order_service''" "db_rep saved (se_committed (view d))"
  shows "\<exists>items. mset items = mset (items_at saved uid) \<and> getOrderItemsByID pg ctx uid d = (d, Inr (owned_by uid items))"
proof -
  from reliable_query [OF assms(1,2) storage_statements(6) items_answered [OF assms(3)], of uid ctx]
  obtain sql args rows where q: "pg_ToSql pg (items_select uid) = Inr (sql, args)"
    "pg_Query pg ctx sql args d = (d, Inr (rows, None))" "answers ''order_service'' (se_committed (view d)) (items_select uid) rows"
    by blast
  obtain items where "mset items = mset (items_at saved uid)" "rows = map (item_row uid) items"
    using items_select_rows [OF assms(3) q(3)] by (auto simp: items_at_def)
  then show ?thesis using q(1,2) by (auto simp: getOrderItemsByID_def scan_item_rows)
qed

lemma getOrderByIDBase_stored:
  assumes "postgres pg view user" "reliable pg view user" "db_rep saved (se_committed (view d))"
  shows "getOrderByIDBase pg ctx uid d =
    (d, case stored_at saved uid of
          Some (t, v) \<Rightarrow> if ord_Items v = [] \<or> uid = [] then Inl (Sentinel ErrOrderNotFound) else Inr (loaded t v)
        | None \<Rightarrow> Inl (Sentinel ErrOrderNotFound))"
proof -
  let ?w = "se_committed (view d)"
  have uid: "ord_OrderUID (loaded t v) = uid" if "stored_at saved uid = Some (t, v)" for t v
    using that assms(3) stored_at_iff [of saved uid "(t, v)"] by (simp add: loaded_def db_rep_def)
  obtain sql args where q: "pg_ToSql pg (base_select uid) = Inr (sql, args)"
    and r: "(\<exists>e. pg_QueryRow pg Background sql args d = (d, Inl e) \<and> errors_is e ErrNoRows \<and> answers user ?w (base_select uid) []) \<or>
      (\<exists>row rows. pg_QueryRow pg Background sql args d = (d, Inr row) \<and> answers user ?w (base_select uid) (row # rows))"
    using reliable_query [OF assms(1,2) storage_statements(4) base_answered [OF assms(3)], of uid Background] by blast
  from r show ?thesis
  proof (elim disjE exE conjE)
    fix e assume e: "pg_QueryRow pg Background sql args d = (d, Inl e)" "errors_is e ErrNoRows" "answers user ?w (base_select uid) []"
    show ?thesis using base_select_rows [OF assms(3) e(3)] q e(1,2)
      by (auto simp: getOrderByIDBase_def Let_def split: option.split)
  next
    fix row rows assume e: "pg_QueryRow pg Background sql args d = (d, Inr row)" "answers user ?w (base_select uid) (row # rows)"
    obtain t v where s: "stored_at saved uid = Some (t, v)" "ord_Items v \<noteq> []" "row = base_row t v"
      using base_select_rows [OF assms(3) e(2)] by (auto split: option.splits)
    then show ?thesis using q e(1) uid [OF s(1)] by (simp add: getOrderByIDBase_def Let_def base_row(2))
  qed
qed

lemma GetOrderByID_stored:
  assumes pg: "postgres pg view ''order_service''" "reliable pg view ''order_service''" "db_rep saved (se_committed (view d))"
  shows "\<exists>res. GetOrderByID pg items_first ctx uid d = (d, res) \<and>
    (case stored_at saved uid of
       Some (t, v) \<Rightarrow>
         if ord_Items v = [] \<or> uid = [] then fst res = zero_order \<and> (\<exists>e. snd res = Some e \<and> errors_is e ErrOrderNotFound)
         else (\<exists>items. mset items = mset (ord_Items v) \<and> res = ((loaded t v)\<lparr>ord_Items := owned_by uid items\<rparr>, None))
     | None \<Rightarrow> fst res = zero_order \<and> (\<exists>e. snd res = Some e \<and> errors_is e ErrOrderNotFound))"
proof -
  obtain items where i: "mset items = mset (items_at saved uid)" "getOrderItemsByID pg ctx uid d = (d, Inr (owned_by uid items))"
    using getOrderItemsByID_stored [OF assms, of uid ctx] by blast
  have r: "reads_only pg" using pg(1) by (simp add: postgres_def)
  show ?thesis
    using i unfolding GetOrderByID_eq [OF r] getOrderByIDBase_stored [OF assms]
    by (auto simp: items_at_def split: option.split)
qed

end
