(* ===== verification/MemoryDatabase.thy ===== *)
theory MemoryDatabase
  imports DatabaseReads
begin

text \<open>
  A database in memory that keeps the laws of \<open>Database\<close>: its state is a \<open>session\<close>, its statements
  are recognised by their tables, and its clock stands still. It shows that the laws can hold and
  serves as the database of the examples.
\<close>

section \<open>The database\<close>

definition mem_ToSql :: "squirrel \<Rightarrow> go_error + string \<times> sql_value list" where
  "mem_ToSql q =
     (case q of
        InsertInto t cs vs \<Rightarrow> Inr (t, vs)
      | SelectFrom cs t js condition ob lim \<Rightarrow>
          Inr (t, (case condition of None \<Rightarrow> [] | Some (c, v) \<Rightarrow> [v]) @
             (case lim of None \<Rightarrow> [] | Some n \<Rightarrow> [SqlInt (int n)])))"

text \<open>The columns of the three inserts by their table.\<close>

definition mem_columns :: "string \<Rightarrow> string list" where
  "mem_columns name =
     (case (if name = ''order_service.orders'' then order_insert zero_order
            else if name = ''order_service.payments'' then payment_insert [] zero_payment
            else delivery_insert [] zero_delivery) of
        InsertInto t cs vs \<Rightarrow> cs
      | SelectFrom a b c d e f \<Rightarrow> [])"

definition mem_plan :: "string \<Rightarrow> sql_value list \<Rightarrow> (table \<times> string list \<times> sql_value list list) option" where
  "mem_plan sql args =
     (let prefix = items_text [] in
      if args = [] \<and> take (length prefix) sql = prefix
      then map_option (\<lambda>rows. (order_items_table, item_columns, rows)) (sql_rows (drop (length prefix) sql))
      else map_option (\<lambda>tb. (tb, mem_columns sql, [args])) (table_named sql))"

definition mem_Exec :: "string \<Rightarrow> sql_value list \<Rightarrow> session \<Rightarrow> session \<times> (go_error + int)" where
  "mem_Exec sql args s =
     (let failed = (s\<lparr>se_open := None\<rparr>, Inl (Ext ''transaction is aborted'')) in
      case (se_open s, mem_plan sql args) of
        (Some (now, w), Some (tb, cs, rows)) \<Rightarrow>
          (if list_all (row_fits tb cs) rows
           then (case insert_rows ''order_service'' now tb cs rows w of
                   Some w' \<Rightarrow> (s\<lparr>se_open := Some (now, w')\<rparr>, Inr (int (length rows)))
                 | None \<Rightarrow> failed)
           else failed)
      | _ \<Rightarrow> failed)"

definition mem_query :: "string \<Rightarrow> sql_value list \<Rightarrow> squirrel option" where
  "mem_query sql args =
     (case args of
        [SqlStr uid] \<Rightarrow>
          if sql = ''order_items'' then Some (items_select uid) else Some (base_select uid)
      | [SqlInt n] \<Rightarrow> Some (last_select (word_of_int n))
      | _ \<Rightarrow> None)"

definition mem_rows :: "string \<Rightarrow> sql_value list \<Rightarrow> session \<Rightarrow> sql_value list list option" where
  "mem_rows sql args s =
     (case mem_query sql args of
        Some (SelectFrom columns from joins condition order_by limit) \<Rightarrow>
          (case selected ''order_service'' (se_committed s) (SelectFrom columns from joins condition order_by limit) of
             None \<Rightarrow> None
           | Some (ps, ts) \<Rightarrow>
               map_option (\<lambda>rows. case limit of None \<Rightarrow> rows | Some n \<Rightarrow> take n rows)
                 (those (map (\<lambda>t. those (map (value_of ps t) columns))
                    (if order_by = None then ts else sort_key (\<lambda>t. - time_of (t ''o.created_at'')) ts))))
      | _ \<Rightarrow> None)"

definition mem_pg :: "session pgx" where
  "mem_pg =
     \<lparr>pg_ToSql = mem_ToSql,
      pg_Begin = (\<lambda>ctx s. (s\<lparr>se_open := Some (7000, se_committed s)\<rparr>, None)),
      pg_Exec = (\<lambda>ctx. mem_Exec),
      pg_Rollback = (\<lambda>ctx s. (s\<lparr>se_open := None\<rparr>, None)),
      pg_Commit = (\<lambda>ctx s.
         case se_open s of
           None \<Rightarrow> (s, Some (Ext ''tx is closed''))
         | Some (now, w) \<Rightarrow> (s\<lparr>se_committed := w, se_open := None\<rparr>, None)),
      pg_QueryRow = (\<lambda>ctx sql args s.
         (s, case mem_rows sql args s of
               None \<Rightarrow> Inl (Ext ''syntax error'') | Some [] \<Rightarrow> Inl (Sentinel ErrNoRows) | Some (row # rows) \<Rightarrow> Inr row)),
      pg_Query = (\<lambda>ctx sql args s.
         (s, case mem_rows sql args s of None \<Rightarrow> Inl (Ext ''syntax error'') | Some rows \<Rightarrow> Inr (rows, None))),
      pg_scan_err = (\<lambda>row. Ext ''can't scan'')\<rparr>"

definition empty_session :: session where
  "empty_session = \<lparr>se_committed = (\<lambda>_. []), se_open = None\<rparr>"

lemma mem_pg_simps [simp]:
  "pg_ToSql mem_pg = mem_ToSql" "pg_Exec mem_pg ctx = mem_Exec"
  "pg_Begin mem_pg ctx s = (s\<lparr>se_open := Some (7000, se_committed s)\<rparr>, None)"
  "pg_Rollback mem_pg ctx s = (s\<lparr>se_open := None\<rparr>, None)"
  by (simp_all add: mem_pg_def)

section \<open>It keeps the laws\<close>

lemma mem_transactions: "transaction_law mem_pg id" "reliable_transactions mem_pg id" "reads_only mem_pg"
  by (auto simp: transaction_law_def reliable_transactions_def reads_only_def mem_pg_def storage_insert_def
      storage_select_def order_insert_def payment_insert_def delivery_insert_def base_select_def last_select_def
      items_select_def mem_ToSql_def split: option.splits)

lemma mem_Exec_may_insert:
  assumes "mem_plan sql args = Some (tb, cs, rows)" "list_all (row_fits tb cs) rows" "mem_Exec sql args s = (s', res)"
  shows "may_insert ''order_service'' tb cs rows s s' res"
    "se_open s = Some (now, w) \<Longrightarrow> insert_rows ''order_service'' now tb cs rows w \<noteq> None \<Longrightarrow> \<exists>n. res = Inr n"
  using assms by (auto simp: mem_Exec_def may_insert_def Let_def split: option.splits prod.splits)

lemma mem_plan_insert:
  assumes "storage_insert (InsertInto t cs vs)" "table_named t = Some tb"
  shows "mem_plan t vs = Some (tb, cs, [vs])"
  using assms by (auto simp: storage_insert_def mem_plan_def mem_columns_def order_insert_def payment_insert_def
      delivery_insert_def)

lemma mem_plan_items:
  assumes "sql_rows text = Some rows"
  shows "mem_plan (items_text text) [] = Some (order_items_table, item_columns, rows)"
proof -
  have "items_text text = items_text [] @ text" by (simp add: items_text_def)
  then show ?thesis using assms by (simp add: mem_plan_def Let_def)
qed

lemma mem_inserts: "insert_law mem_pg id ''order_service''" "items_law mem_pg id ''order_service''"
  by (auto simp: insert_law_def items_law_def mem_ToSql_def list_all_iff
      intro!: mem_Exec_may_insert(1) [OF mem_plan_insert] mem_Exec_may_insert(1) [OF mem_plan_items])

lemma mem_reliable_inserts: "reliable_inserts mem_pg id ''order_service''"
proof -
  have "\<exists>n. snd (mem_Exec sql args s) = Inr n"
    if "mem_plan sql args = Some (tb, cs, rows)" "list_all (row_fits tb cs) rows" "se_open s = Some (now, w)"
      "insert_rows ''order_service'' now tb cs rows w \<noteq> None" for sql args tb cs rows s now w
    using mem_Exec_may_insert(2) [OF that(1,2) surjective_pairing that(3,4)] by blast
  from this [OF mem_plan_insert] this [OF mem_plan_items] show ?thesis
    unfolding reliable_inserts_def mem_pg_simps id_apply by (intro conjI allI impI) (fastforce simp: mem_ToSql_def)+
qed

text \<open>The queries: when there is an answer, the rows are one.\<close>

lemma those_Some_iff: "those xs = Some ys \<longleftrightarrow> map Some ys = xs"
proof (induction xs arbitrary: ys)
  case (Cons x xs)
  then show ?case by (cases x) (auto simp: Cons_eq_map_conv)
qed auto

lemma mem_query_statement:
  assumes "storage_select q" "mem_ToSql q = Inr (sql, args)"
  shows "mem_query sql args = Some q"
  using assms by (auto simp: storage_select_def mem_query_def mem_ToSql_def base_select_def last_select_def
      items_select_def simp flip: uint_nat)

lemma mem_rows_answers:
  assumes "storage_select q" "mem_ToSql q = Inr (sql, args)"
  shows "mem_rows sql args s = Some rows \<Longrightarrow> answers ''order_service'' (se_committed s) q rows"
    "answers ''order_service'' (se_committed s) q rows' \<Longrightarrow> mem_rows sql args s \<noteq> None"
proof -
  obtain columns tbl joins condition order_by limit where q: "q = SelectFrom columns tbl joins condition order_by limit"
    and ob: "order_by \<in> {None, Some ''o.created_at DESC''}"
    using assms(1) by (auto simp: storage_select_def base_select_def last_select_def items_select_def)
  let ?sorted = "\<lambda>ts. if order_by = None then ts else sort_key (\<lambda>t. - time_of (t ''o.created_at'')) ts"
  let ?v = "\<lambda>ps t. those (map (value_of ps t) columns)"
  have order: "in_order order_by (?sorted ts)" "mset (?sorted ts) = mset ts" for ts
    using ob sorted_sort_key [of "\<lambda>t. - time_of (t ''o.created_at'')" ts]
    by (auto simp: in_order_def base_words sorted_wrt_map)
  show "answers ''order_service'' (se_committed s) q rows" if r: "mem_rows sql args s = Some rows"
  proof -
    obtain ps ts all_rows where "selected ''order_service'' (se_committed s) q = Some (ps, ts)"
      "those (map (?v ps) (?sorted ts)) = Some all_rows"
      "rows = (case limit of None \<Rightarrow> all_rows | Some n \<Rightarrow> take n all_rows)"
      using r mem_query_statement [OF assms] by (auto simp: mem_rows_def q simp del: selected.simps split: option.splits)
    then show ?thesis using order [of ts] by (auto simp: q those_Some_iff simp del: selected.simps)
  qed
  show "mem_rows sql args s \<noteq> None" if r: "answers ''order_service'' (se_committed s) q rows'"
  proof -
    obtain ps ts ts' all_rows where sel: "selected ''order_service'' (se_committed s) q = Some (ps, ts)"
      and ts': "mset ts' = mset ts" "map Some all_rows = map (?v ps) ts'"
      using r by (auto simp: q simp del: selected.simps split: option.splits)
    have "set (?sorted ts) = set ts'" using ts'(1) order(2) [of ts] by (metis mset_eq_setD)
    moreover have "\<forall>t \<in> set ts'. ?v ps t \<noteq> None"
    proof
      fix t assume "t \<in> set ts'"
      then have "?v ps t \<in> set (map Some all_rows)" unfolding ts'(2) by simp
      then show "?v ps t \<noteq> None" by auto
    qed
    ultimately have "map Some (map (\<lambda>t. the (?v ps t)) (?sorted ts)) = map (?v ps) (?sorted ts)" by auto
    then have "those (map (?v ps) (?sorted ts)) = Some (map (\<lambda>t. the (?v ps t)) (?sorted ts))"
      by (simp only: those_Some_iff)
    then show ?thesis using mem_query_statement [OF assms] sel by (simp add: mem_rows_def q del: selected.simps)
  qed
qed

lemma mem_selects: "select_law mem_pg id ''order_service''" "reliable_selects mem_pg id ''order_service''"
proof -
  have "\<exists>rows. answers ''order_service'' (se_committed s) q (row # rows)"
    if "storage_select q" "mem_ToSql q = Inr (sql, args)" "mem_rows sql args s = Some (row # rows)" for q sql args s row rows
    using mem_rows_answers(1) [OF that] by blast
  then show "select_law mem_pg id ''order_service''"
    using mem_rows_answers(1) by (auto simp: select_law_def mem_pg_def simp del: answers.simps split: option.splits list.splits)
  show "reliable_selects mem_pg id ''order_service''"
    using mem_rows_answers(2)
    by (fastforce simp: reliable_selects_def mem_pg_def simp del: answers.simps split: option.splits list.splits)
qed

lemma mem_pg_laws: "postgres mem_pg id ''order_service''" "reliable mem_pg id ''order_service''"
  by (simp_all add: postgres_def reliable_def mem_transactions mem_inserts mem_reliable_inserts mem_selects)

end
