(* ===== verification/StorageContract.thy ===== *)
theory StorageContract
  imports MemoryDatabase
begin

text \<open>
  What the Postgres storage promises to the service over a database that keeps the laws of
  \<open>Database\<close>: an order is saved completely or not at all, read back as it was saved, and the
  latest orders come first. What it does not keep: an order without items (which the validation keeps out)
  is not found again, and a text with a quote can change another order.
\<close>

section \<open>Saving\<close>

text \<open>
  C6: \<open>SaveOrder\<close> over Postgres, whatever calls fail: the tables hold either the orders that they held
  or these and the new one, complete with its payment, delivery and items, and never a part of it; when
  it returns an error, and when the order was there before, nothing is changed. On a reliable database
  it succeeds exactly for an order that is not there yet, and then the order is stored. So an order
  that is delivered twice is refused the second time, as an error. (For orders that fit the tables and
  whose identifier and items have no quotes.)
\<close>

theorem SaveOrder_pg_all_or_nothing:
  assumes "postgres pg view ''order_service''" "db_rep saved (se_committed (view d))" "savable v"
    and "SaveOrder_pg pg ctx v d = (d', res)"
  shows "(se_committed (view d') = se_committed (view d) \<or>
      res = None \<and> ord_OrderUID v \<notin> set (uids saved) \<and> (\<exists>now. db_rep (saved @ [(now, v)]) (se_committed (view d')))) \<and>
    (ord_OrderUID v \<in> set (uids saved) \<longrightarrow> res \<noteq> None) \<and>
    (reliable pg view ''order_service'' \<longrightarrow> ord_OrderUID v \<notin> set (uids saved) \<longrightarrow>
      res = None \<and> (\<exists>now. db_rep (saved @ [(now, v)]) (se_committed (view d'))))"
  by (rule SaveOrder_pg_law [OF assms])

lemma empty_rep: "db_rep [] (se_committed (id empty_session))"
  by (simp add: empty_session_def db_rep_def order_rows_def payment_rows_def delivery_rows_def item_rows_def uids_def)

lemma sample_savable: "savable sample_order"
proof -
  have "within_limits sample_order" by code_simp
  then have "storable sample_order"
    using storable_iff_within_limits [of "\<lambda>_. None" 2000 sample_order] sample_order_valid by (simp add: order_valid_iff)
  then show ?thesis by (simp add: savable_def sample_order_def sample_item_def no_quotes_def)
qed

lemma sample_saved:
  "\<exists>d now. SaveOrder_pg mem_pg Background sample_order empty_session = (d, None) \<and>
    db_rep [(now, sample_order)] (se_committed (id d))"
proof -
  obtain d res where r: "SaveOrder_pg mem_pg Background sample_order empty_session = (d, res)" by fastforce
  then show ?thesis using SaveOrder_pg_law [OF mem_pg_laws(1) empty_rep sample_savable r] mem_pg_laws(2)
    by (auto simp: uids_def id_def)
qed

theorem SaveOrder_pg_all_or_nothing_witness:
  "\<exists>d now. SaveOrder_pg mem_pg Background sample_order empty_session = (d, None) \<and>
    db_rep [(now, sample_order)] (se_committed d) \<and>
    snd (SaveOrder_pg mem_pg Background sample_order d) \<noteq> None"
proof -
  obtain d res where r: "SaveOrder_pg mem_pg Background sample_order empty_session = (d, res)" by fastforce
  obtain now where n: "res = None" "db_rep [(now, sample_order)] (se_committed (id d))"
    using SaveOrder_pg_all_or_nothing [OF mem_pg_laws(1) empty_rep sample_savable r] mem_pg_laws(2)
    by (auto simp: uids_def id_def)
  obtain d2 res2 where r2: "SaveOrder_pg mem_pg Background sample_order d = (d2, res2)" by fastforce
  have "res2 \<noteq> None"
    using SaveOrder_pg_all_or_nothing [OF mem_pg_laws(1) n(2) sample_savable r2] by (auto simp: uids_def)
  then show ?thesis using r n r2 by auto
qed

section \<open>Reading back\<close>

text \<open>Two orders that differ at most in the order of their items.\<close>

definition same_order :: "order \<Rightarrow> order \<Rightarrow> bool" where
  "same_order v v' \<longleftrightarrow> v\<lparr>ord_Items := []\<rparr> = v'\<lparr>ord_Items := []\<rparr> \<and> mset (ord_Items v) = mset (ord_Items v')"

text \<open>The saved order as it is read: with the time of its transaction, and its identifier in all its parts.\<close>

definition as_read :: "go_time \<Rightarrow> order \<Rightarrow> order" where
  "as_read now v = (loaded now v)\<lparr>ord_Items := owned_by (ord_OrderUID v) (ord_Items v)\<rparr>"

lemma same_order_as_read:
  "mset items = mset (ord_Items v) \<Longrightarrow> same_order ((loaded t v)\<lparr>ord_Items := owned_by (ord_OrderUID v) items\<rparr>) (as_read t v)"
  by (simp add: same_order_def as_read_def)

lemma GetOrderByID_found:
  assumes "postgres pg view ''order_service''" "reliable pg view ''order_service''" "db_rep saved (se_committed (view d))"
    "stored_at saved uid = Some (t, v)" "ord_Items v \<noteq> []" "uid \<noteq> []"
  shows "\<exists>v'. GetOrderByID pg items_first ctx uid d = (d, v', None) \<and> same_order v' (as_read t v)"
proof -
  have "ord_OrderUID v = uid" using assms(3,4) stored_at_iff [of saved uid "(t, v)"] by (simp add: db_rep_def)
  then show ?thesis
    using GetOrderByID_stored [OF assms(1-3), of items_first ctx uid] assms(4-6) same_order_as_read [of _ v t] by auto
qed

lemma GetOrderByID_missing:
  assumes "postgres pg view ''order_service''" "reliable pg view ''order_service''" "db_rep saved (se_committed (view d))"
    "case stored_at saved uid of None \<Rightarrow> True | Some (t, v) \<Rightarrow> ord_Items v = []"
  shows "\<exists>e. GetOrderByID pg items_first ctx uid d = (d, zero_order, Some e) \<and> errors_is e ErrOrderNotFound"
  using GetOrderByID_stored [OF assms(1-3), of items_first ctx uid] assms(4)
  by (auto split: option.splits prod.splits)

lemma stored_at_snoc:
  "stored_at (saved @ [(t, v)]) uid =
     (case stored_at saved uid of None \<Rightarrow> if uid = ord_OrderUID v then Some (t, v) else None | Some x \<Rightarrow> Some x)"
  by (simp add: stored_at_def map_add_def split: option.split)



section \<open>The latest orders\<close>

lemma scan_base_rows:
  "scan_rows scan_base err (map (\<lambda>x. base_row (fst x) (snd x)) xs) = Inr (map (\<lambda>x. loaded (fst x) (snd x)) xs)"
  by (induction xs) (simp_all add: base_row(2))

lemma getLastOrdersBase_stored:
  assumes "postgres pg view user" "reliable pg view user" "db_rep saved (se_committed (view d))" "0 \<le> sint limit"
  shows "\<exists>xs. mset xs = mset saved \<and> sorted_wrt (\<lambda>x y. fst y \<le> fst x) xs \<and>
    getLastOrdersBase pg ctx limit d = (d, Inr (map (\<lambda>x. loaded (fst x) (snd x)) (take (unat limit) xs)))"
proof -
  obtain sql args rows where q: "pg_ToSql pg (last_select limit) = Inr (sql, args)"
    "pg_Query pg ctx sql args d = (d, Inr (rows, None))" "answers user (se_committed (view d)) (last_select limit) rows"
    using reliable_query [OF assms(1,2) storage_statements(5) [OF assms(4)] last_answered [OF assms(3)], of ctx] by blast
  obtain xs where "mset xs = mset saved" "sorted_wrt (\<lambda>x y. fst y \<le> fst x) xs"
    "rows = map (\<lambda>x. base_row (fst x) (snd x)) (take (unat limit) xs)"
    using last_select_rows [OF assms(3) q(3)] by blast
  then show ?thesis using q(1,2) by (auto simp: getLastOrdersBase_def scan_base_rows)
qed

lemma GetLastOrders_law:
  assumes laws: "postgres pg view ''order_service''" "reliable pg view ''order_service''"
    and rep: "db_rep saved (se_committed (view d))" and sch: "0 \<le> sint limit" "set schedule = {..<min (length saved) (unat limit)}"
  shows "\<exists>xs vs. mset xs = mset saved \<and> sorted_wrt (\<lambda>x y. fst y \<le> fst x) xs \<and>
    GetLastOrders_pg pg schedule ctx limit d = (d, vs, None) \<and>
    list_all2 (\<lambda>x v'. same_order v' (as_read (fst x) (snd x))) (take (unat limit) xs) vs"
proof -
  obtain xs where xs: "mset xs = mset saved" "sorted_wrt (\<lambda>x y. fst y \<le> fst x) xs"
    and base: "getLastOrdersBase pg ctx limit d = (d, Inr (map (\<lambda>x. loaded (fst x) (snd x)) (take (unat limit) xs)))"
    using getLastOrdersBase_stored [OF laws rep sch(1)] by blast
  define f :: "order \<Rightarrow> order_item list" where "f v = projr (snd (getOrderItemsByID pg ctx (ord_OrderUID v) d))" for v
  have items: "\<exists>items. mset items = mset (ord_Items (snd x)) \<and>
      getOrderItemsByID pg ctx (ord_OrderUID (snd x)) d = (d, Inr (owned_by (ord_OrderUID (snd x)) items))" if "x \<in> set xs" for x
  proof -
    have "x \<in> set saved" using that xs(1) by (metis mset_eq_setD)
    then have "stored_at saved (ord_OrderUID (snd x)) = Some x"
      using rep stored_at_iff [of saved "ord_OrderUID (snd x)" x] by (simp add: db_rep_def)
    then show ?thesis
      using getOrderItemsByID_stored [OF laws rep, of "ord_OrderUID (snd x)" ctx] by (simp add: items_at_def case_prod_beta)
  qed
  let ?vs = "map (\<lambda>x. loaded (fst x) (snd x)) (take (unat limit) xs)"
  have uid: "ord_OrderUID (loaded t v) = ord_OrderUID v" for t v by (simp add: loaded_def)
  have len: "length xs = length saved" using xs(1) by (rule mset_eq_length)
  have ro: "reads_only pg" using laws(1) by (simp add: postgres_def)
  have f: "\<forall>v \<in> set ?vs. snd (getOrderItemsByID pg ctx (ord_OrderUID v) d) = Inr (f v)"
    using items by (fastforce simp: f_def uid dest: in_set_takeD)
  have "GetLastOrders_pg pg schedule ctx limit d = (d, map (\<lambda>v. v\<lparr>ord_Items := f v\<rparr>) ?vs, None)"
    using GetLastOrders_pg_any_schedule [OF ro base, of schedule] f sch(2) by (simp add: len min.commute)
  moreover have "list_all2 (\<lambda>x v'. same_order v' (as_read (fst x) (snd x))) (take (unat limit) xs)
      (map (\<lambda>v. v\<lparr>ord_Items := f v\<rparr>) ?vs)"
  proof (intro list_all2I ballI)
    fix p assume "p \<in> set (zip (take (unat limit) xs) (map (\<lambda>v. v\<lparr>ord_Items := f v\<rparr>) ?vs))"
    then obtain x where x: "x \<in> set xs" "p = (x, (loaded (fst x) (snd x))\<lparr>ord_Items := f (loaded (fst x) (snd x))\<rparr>)"
      by (auto simp: zip_map2 zip_same_conv_map dest: in_set_takeD)
    obtain its where "mset its = mset (ord_Items (snd x))"
      "f (loaded (fst x) (snd x)) = owned_by (ord_OrderUID (snd x)) its"
      using items [OF x(1)] by (auto simp: f_def uid)
    then show "case p of (x, v') \<Rightarrow> same_order v' (as_read (fst x) (snd x))"
      using x(2) same_order_as_read by simp
  qed simp
  ultimately show ?thesis using xs by blast
qed

text \<open>
  C8: \<open>GetLastOrders\<close> gives the latest orders: on a reliable database it returns, without an error, the saved
  orders in the order of their times, the latest first and at most as many as asked for, each
  as it was saved with its own items, under every schedule of the goroutines that fetch these.
  (For a limit that is not negative.)
\<close>

theorem GetLastOrders_gives_latest:
  assumes laws: "postgres pg view ''order_service''" "reliable pg view ''order_service''"
    and rep: "db_rep saved (se_committed (view d))" and sch: "0 \<le> sint limit" "set schedule = {..<min (length saved) (unat limit)}"
  shows "\<exists>xs vs. mset xs = mset saved \<and> sorted_wrt (\<lambda>x y. fst y \<le> fst x) xs \<and>
    GetLastOrders_pg pg schedule ctx limit d = (d, vs, None) \<and>
    list_all2 (\<lambda>x v'. same_order v' (as_read (fst x) (snd x))) (take (unat limit) xs) vs"
  by (rule GetLastOrders_law [OF assms])

theorem GetLastOrders_gives_latest_witness:
  "\<exists>d now v'. SaveOrder_pg mem_pg Background sample_order empty_session = (d, None) \<and>
    GetLastOrders_pg mem_pg [0] Background 5 d = (d, [v'], None) \<and> same_order v' (as_read now sample_order)"
proof -
  obtain d now where d: "SaveOrder_pg mem_pg Background sample_order empty_session = (d, None)"
    "db_rep [(now, sample_order)] (se_committed (id d))" using sample_saved by blast
  obtain xs vs where r: "mset xs = mset [(now, sample_order)]" "GetLastOrders_pg mem_pg [0] Background 5 d = (d, vs, None)"
    "list_all2 (\<lambda>x v'. same_order v' (as_read (fst x) (snd x))) (take (unat (5 :: 64 word)) xs) vs"
    using GetLastOrders_gives_latest [OF mem_pg_laws d(2), of 5 "[0]" Background] by (auto simp: lessThan_Suc)
  then have "xs = [(now, sample_order)]" by simp
  then show ?thesis using d(1) r(2,3) by (auto simp: list_all2_Cons1)
qed

section \<open>Quotes: an item for another order\<close>

definition injected_item :: order_item where
  "injected_item =
     \<lparr>itm_OrderID = [], itm_ChrtID = 1, itm_TrackNumber = ''t'', itm_Price = 0, itm_RID = ''r'', itm_Name = ''n'',
      itm_Sale = 0, itm_Size = ''0'', itm_TotalPrice = 0, itm_NmID = 7, itm_Brand = ''y'', itm_Status = 202\<rparr>"

definition crafted_order :: order where
  "crafted_order = sample_order\<lparr>ord_Items := [crafted_item]\<rparr>"

text \<open>What the statement of the crafted order's item inserts: an item of this order and one of another.\<close>

definition crafted_pairs :: "(string \<times> order_item) list" where
  "crafted_pairs = [(''b563'', crafted_item\<lparr>itm_Brand := ''x''\<rparr>), (''other'', injected_item)]"

lemma crafted_denotes:
  "items_denote (ord_OrderUID crafted_order) (ord_Items crafted_order) (map (\<lambda>(u, it). item_row u it) crafted_pairs)"
proof -
  have r: "injected_row = item_row ''other'' injected_item"
    by (simp add: injected_row_def item_row_def injected_item_def)
  have "list_all (row_fits order_items_table item_columns) (map (\<lambda>(u, it). item_row u it) crafted_pairs)"
    by (simp add: crafted_pairs_def item_row_fits texts_within_def int4_def injected_item_def crafted_item_def
        sample_item_def)
  then show ?thesis
    using items_text_injection by (simp add: items_denote_def crafted_order_def crafted_pairs_def r sample_order_def)
qed

lemma crafted_parts_fit: "parts_fit crafted_order"
  using storable_parts [of sample_order] sample_savable
  by (simp add: parts_fit_def crafted_order_def savable_def order_insert_def)

lemma item_db_row_any_time: "item_db_row t u it = item_db_row t' u it"
  by (simp add: item_db_row_def new_row_def fun_eq_iff order_items_table_def split: option.split)

text \<open>The saved orders with an item more for one of them.\<close>

definition with_item :: "string \<Rightarrow> order_item \<Rightarrow> saved \<Rightarrow> saved" where
  "with_item uid it = map (\<lambda>(t, v). (t, if ord_OrderUID v = uid then v\<lparr>ord_Items := ord_Items v @ [it]\<rparr> else v))"

lemma with_item_rows:
  "order_rows (with_item uid it saved) = order_rows saved" "payment_rows (with_item uid it saved) = payment_rows saved"
  "delivery_rows (with_item uid it saved) = delivery_rows saved" "uids (with_item uid it saved) = uids saved"
  by (auto simp: with_item_def order_rows_def payment_rows_def delivery_rows_def uids_def order_insert_def)

lemma with_item_other: "uid \<notin> set (uids saved) \<Longrightarrow> with_item uid it saved = saved"
  by (induction saved) (auto simp: with_item_def uids_def)

lemma with_item_item_rows:
  assumes "distinct (uids saved)" "uid \<in> set (uids saved)"
  shows "mset (item_rows (with_item uid it saved)) = add_mset (item_db_row now uid it) (mset (item_rows saved))"
  using assms
proof (induction saved)
  case (Cons x saved)
  obtain t v where x: "x = (t, v)" by fastforce
  show ?case
  proof (cases "ord_OrderUID v = uid")
    case True
    then have "with_item uid it saved = saved" using Cons.prems by (intro with_item_other) (simp add: x uids_def)
    then show ?thesis using True item_db_row_any_time [of t uid it now] by (simp add: x with_item_def item_rows_def)
  next
    case False
    then show ?thesis using Cons by (auto simp: x with_item_def item_rows_def uids_def)
  qed
qed (simp add: uids_def)

lemma stored_with_item:
  "stored_at saved uid = Some (t, v) \<Longrightarrow>
    stored_at (with_item uid it saved) uid = Some (t, v\<lparr>ord_Items := ord_Items v @ [it]\<rparr>)"
  by (induction saved) (auto simp: stored_at_def with_item_def split: if_splits)

lemma crafted_order_saved:
  assumes laws: "postgres pg view ''order_service''" "reliable pg view ''order_service''"
    and rep: "db_rep saved (se_committed (view d))"
    and other: "stored_at saved ''other'' = Some (t, v)" "7 \<notin> itm_NmID ` set (ord_Items v)"
    and fresh: "''b563'' \<notin> set (uids saved)"
  shows "\<exists>d' now v0. SaveOrder_pg pg ctx crafted_order d = (d', None) \<and>
    db_rep (with_item ''other'' injected_item saved @ [(now, v0)]) (se_committed (view d'))"
proof -
  let ?w = "se_committed (view d)" and ?v0 = "sample_order\<lparr>ord_Items := [crafted_item\<lparr>itm_Brand := ''x''\<rparr>]\<rparr>"
  let ?f = "\<lambda>now. with_rows ''order_service.order_items'' (map (\<lambda>(u, it). item_db_row now u it) crafted_pairs)
    (add_parts now crafted_order ?w)"
  have uid: "ord_OrderUID crafted_order = ''b563''" by (simp add: crafted_order_def sample_order_def)
  have dist: "distinct (uids saved)" and known: "''other'' \<in> set (uids saved)"
    using rep other(1) stored_at_None [of saved "''other''"] by (auto simp: db_rep_def)
  have rows: "set (?w ''order_service.order_items'') = set (item_rows saved)"
    using rep by (intro mset_eq_setD) (simp add: db_rep_def)
  have seven: "x = 7" if "sint x = 7" for x :: go_int
    using that by (intro signed_word_eqI) simp
  have keys: "r ''order_id'' \<noteq> Some (SqlStr ''b563'') \<and>
      (r ''order_id'' = Some (SqlStr ''other'') \<longrightarrow> r ''nm_id'' \<noteq> Some (int_value 7))" if "r \<in> set (item_rows saved)" for r
  proof -
    obtain t' v' it where r: "(t', v') \<in> set saved" "it \<in> set (ord_Items v')" "r = item_db_row t' (ord_OrderUID v') it"
      using \<open>r \<in> set (item_rows saved)\<close> by (auto simp: item_rows_def)
    moreover have "ord_OrderUID v' = ''other'' \<Longrightarrow> v' = v"
      using r(1) other(1) stored_at_iff [OF dist, of "''other''" "(t', v')"] by simp
    moreover have "ord_OrderUID v' \<noteq> ''b563''" using r(1) fresh by (force simp: uids_def)
    ultimately show ?thesis using other(2) by (auto dest!: seven)
  qed
  have items: "insert_rows ''order_service'' now order_items_table item_columns (map (\<lambda>(u, it). item_row u it) crafted_pairs)
      (add_parts now crafted_order ?w) = Some (?f now)" for now
    unfolding with_rows_def
  proof (rule insert_items_ok [of _ "saved @ [(now, crafted_order)]"])
    show "add_parts now crafted_order ?w ''order_service.orders'' = order_rows (saved @ [(now, crafted_order)])"
      by (rule add_parts_tables(1) [OF rep])
    show "\<forall>(u, it) \<in> set crafted_pairs. u \<in> set (uids (saved @ [(now, crafted_order)]))"
      using known by (simp add: crafted_pairs_def uid)
    show "\<forall>r \<in> set (add_parts now crafted_order ?w ''order_service.order_items''). \<forall>(u, it) \<in> set crafted_pairs.
        r ''order_id'' = Some (SqlStr u) \<longrightarrow> r ''nm_id'' \<noteq> Some (int_value (itm_NmID it))"
      using keys unfolding add_parts_tables(4) [OF rep] rows by (simp add: crafted_pairs_def injected_item_def)
  qed (simp_all add: crafted_pairs_def)
  have new_rep: "db_rep (with_item ''other'' injected_item saved @ [(now, ?v0)]) (?f now)" for now
  proof -
    have o: "inserted now orders_table (order_insert crafted_order) = inserted now orders_table (order_insert ?v0)"
      by (simp add: order_insert_def crafted_order_def)
    have "mset (item_rows (with_item ''other'' injected_item saved)) =
        add_mset (item_db_row now ''other'' injected_item) (mset (item_rows saved))"
      by (rule with_item_item_rows [OF dist known])
    then show ?thesis
      using rep fresh add_parts_tables [OF rep, of now crafted_order] o
      by (simp add: db_rep_def with_item_rows crafted_pairs_def crafted_order_def sample_order_def)
  qed
  obtain d' res where r: "SaveOrder_pg pg ctx crafted_order d = (d', res)" by fastforce
  have "res = None \<and> (\<exists>now. se_committed (view d') = ?f now)"
    using SaveOrder_pg_rows [OF laws(1) rep crafted_parts_fit crafted_denotes items r] laws(2) fresh
    by (simp only: uid simp_thms)
  then show ?thesis using r new_rep by (metis (no_types, lifting))
qed

text \<open>
  C27: A message can change an order of somebody else. The texts of the items are put into the statement
  without escaping: the crafted order passes the validation and is saved without an error, and the
  lookup of another order, which was saved before, then gives an item that this order never
  had. (On any reliable database that holds the other order and not the crafted one.)
\<close>

theorem crafted_order_changes_another:
  assumes "postgres pg view ''order_service''" "reliable pg view ''order_service''"
    "db_rep saved (se_committed (view d))"
    "stored_at saved ''other'' = Some (t, v)" "7 \<notin> itm_NmID ` set (ord_Items v)" "''b563'' \<notin> set (uids saved)"
  shows "ValidateOrder (\<lambda>_. None) 2000 crafted_order = None \<and>
    (\<exists>d'. SaveOrder_pg pg ctx crafted_order d = (d', None) \<and>
      (\<exists>v'. GetOrderByID pg items_first ctx' ''other'' d' = (d', v', None) \<and>
         same_order v' (as_read t (v\<lparr>ord_Items := ord_Items v @ [injected_item]\<rparr>))))"
proof -
  have "order_valid (\<lambda>_. None) 2000 crafted_order"
    using sample_order_valid items_text_injection by (simp add: order_valid_def crafted_order_def main_valid_def)
  then have valid: "ValidateOrder (\<lambda>_. None) 2000 crafted_order = None" by (simp add: order_valid_iff)
  obtain d' now v0 where d': "SaveOrder_pg pg ctx crafted_order d = (d', None)"
    "db_rep (with_item ''other'' injected_item saved @ [(now, v0)]) (se_committed (view d'))"
    using crafted_order_saved [OF assms] by blast
  have "stored_at (with_item ''other'' injected_item saved @ [(now, v0)]) ''other'' =
      Some (t, v\<lparr>ord_Items := ord_Items v @ [injected_item]\<rparr>)"
    using stored_with_item [OF assms(4)] by (simp add: stored_at_snoc)
  from GetOrderByID_found [OF assms(1,2) d'(2) this] show ?thesis using valid d'(1) by auto
qed

definition other_order :: order where
  "other_order = sample_order\<lparr>ord_OrderUID := ''other''\<rparr>"

lemma other_savable: "savable other_order"
proof -
  have "storable other_order" by code_simp
  then show ?thesis by (simp add: savable_def other_order_def sample_order_def sample_item_def no_quotes_def)
qed

theorem crafted_order_changes_another_witness:
  "\<exists>d now d' v'. SaveOrder_pg mem_pg Background other_order empty_session = (d, None) \<and>
    SaveOrder_pg mem_pg Background crafted_order d = (d', None) \<and>
    GetOrderByID mem_pg True Background ''other'' d' = (d', v', None) \<and>
    same_order v' (as_read now (other_order\<lparr>ord_Items := [sample_item, injected_item]\<rparr>))"
proof -
  obtain d res where r: "SaveOrder_pg mem_pg Background other_order empty_session = (d, res)" by fastforce
  obtain now where d: "res = None" "db_rep [(now, other_order)] (se_committed (id d))"
    using SaveOrder_pg_law [OF mem_pg_laws(1) empty_rep other_savable r] mem_pg_laws(2) by (auto simp: uids_def id_def)
  have "stored_at [(now, other_order)] ''other'' = Some (now, other_order)" "7 \<notin> itm_NmID ` set (ord_Items other_order)"
    "''b563'' \<notin> set (uids [(now, other_order)])" "ord_Items other_order = [sample_item]"
    by (simp_all add: stored_at_def other_order_def sample_order_def sample_item_def uids_def)
  then show ?thesis
    using crafted_order_changes_another [OF mem_pg_laws d(2), of now other_order Background True Background] r d(1) by auto
qed

end
