(* ===== verification/ServiceContract.thy ===== *)
theory ServiceContract
  imports StorageContract Startup
begin

text \<open>
  The order service over its storage and its cache together: the contract of a storage of orders
  (\<open>order_store\<close>), which the Postgres storage keeps over a reliable database, and what follows
  for the service that puts a cache before it. Whatever the cache holds, evicts or loses at a restart, the
  answers are those of a map from identifiers to the orders that were saved.
\<close>

section \<open>The contract of a storage\<close>

text \<open>
  What a client can tell of an order: its answer, in which the creation time of the row and the identifiers
  in the parts do not occur, up to the order of the items.
\<close>

definition looks_like :: "order \<Rightarrow> order \<Rightarrow> bool" where
  "looks_like v' v \<longleftrightarrow> (api_order_of v')\<lparr>ao_Items := None\<rparr> = (api_order_of v)\<lparr>ao_Items := None\<rparr> \<and>
     mset (map api_item_of (ord_Items v')) = mset (map api_item_of (ord_Items v))"

lemma looks_like_refl [simp]: "looks_like v v"
  by (simp add: looks_like_def)

lemma looks_like_uid: "looks_like v' v \<Longrightarrow> ord_OrderUID v' = ord_OrderUID v"
  by (simp add: looks_like_def api_order_of_def Let_def)

lemma same_order_looks_like:
  assumes "same_order v' (as_read t v)"
  shows "looks_like v' v"
proof -
  have items: "api_item_of (itm_OrderID_update f it) = api_item_of it" for f it by (simp add: api_item_of_def)
  have main: "(api_order_of u)\<lparr>ao_Items := None\<rparr> = (api_order_of (u\<lparr>ord_Items := []\<rparr>))\<lparr>ao_Items := None\<rparr>" for u
    by (simp add: api_order_of_def)
  have "(api_order_of (as_read t v))\<lparr>ao_Items := None\<rparr> = (api_order_of v)\<lparr>ao_Items := None\<rparr>"
    by (simp add: api_order_of_def as_read_def loaded_def Let_def)
  then have "(api_order_of v')\<lparr>ao_Items := None\<rparr> = (api_order_of v)\<lparr>ao_Items := None\<rparr>"
    using assms main [of v'] main [of "as_read t v"] by (simp add: same_order_def)
  moreover have "mset (map api_item_of (ord_Items v')) = mset (map api_item_of (ord_Items (as_read t v)))"
    using assms by (simp add: same_order_def)
  ultimately show ?thesis by (simp add: looks_like_def as_read_def o_def items)
qed

text \<open>An order that agrees with what is saved under its identifier.\<close>

definition agrees :: "(string \<rightharpoonup> order) \<Rightarrow> string \<Rightarrow> order \<Rightarrow> bool" where
  "agrees m uid v' \<longleftrightarrow> (\<exists>v. m uid = Some v \<and> looks_like v' v \<and> ord_OrderUID v' = uid)"

lemma agrees_more: "agrees m uid v' \<Longrightarrow> m \<subseteq>\<^sub>m m' \<Longrightarrow> agrees m' uid v'"
  by (force simp: agrees_def map_le_def dom_def)

text \<open>
  A storage (with the choice that \<open>GetOrderByID\<close> makes and the schedule of \<open>GetLastOrders\<close>) that
  holds a map of orders: a save adds an order under a new identifier and refuses one that it holds,
  a lookup gives what was saved, and the latest orders are among the saved ones.
\<close>

locale order_store =
  fixes storage :: "bool \<Rightarrow> nat list \<Rightarrow> 'st order_storage"
    and rep :: "'st \<Rightarrow> (string \<rightharpoonup> order) \<Rightarrow> bool"
    and takes :: "order \<Rightarrow> bool"
  assumes save_law: "rep st m \<Longrightarrow> takes v \<Longrightarrow>
      \<exists>st' res. sp_SaveOrder (storage first sch) ctx v st = (st', Returns res) \<and>
        (if ord_OrderUID v \<in> dom m then res \<noteq> None \<and> rep st' m
         else res = None \<and> rep st' (m(ord_OrderUID v \<mapsto> v)))"
    and get_law: "rep st m \<Longrightarrow>
      \<exists>v' res. sp_GetOrderByID (storage first sch) ctx uid st = (st, Returns (v', res)) \<and>
        (case m uid of None \<Rightarrow> \<exists>e. res = Some e \<and> errors_is e ErrOrderNotFound
         | Some v \<Rightarrow> res = None \<and> agrees m uid v')"
    and last_law: "rep st m \<Longrightarrow> 0 \<le> sint limit \<Longrightarrow> set sch = {..<min (card (dom m)) (unat limit)} \<Longrightarrow>
      \<exists>vs. sp_GetLastOrders (storage first sch) ctx limit st = (st, Returns (vs, None)) \<and>
        (\<forall>v' \<in> set vs. agrees m (ord_OrderUID v') v')"

section \<open>The calls of the service\<close>

text \<open>
  What happens to the service: a save, a request, the warm-up of the cache, a pending goroutine, and a
  restart with an empty cache, at which the pending goroutines are lost.
\<close>

datatype service_op =
    CallSave go_context order
  | CallGet go_context bool string
  | CallWarm go_context "nat list" "order list \<Rightarrow> order list" go_int
  | CallTask nat
  | CallRestart int

datatype service_result = ResErr "go_error option" | ResOrder order "go_error option" | ResNone

primrec run_op ::
  "(int \<Rightarrow> 'ca) \<Rightarrow> 'ca order_cache \<Rightarrow> (bool \<Rightarrow> nat list \<Rightarrow> 'st order_storage) \<Rightarrow> service_op \<Rightarrow>
   (('st, 'ca) world, service_result) run" where
  "run_op fresh cache storage (CallSave ctx v) =
     bind_run (SaveOrder (storage False []) ctx v) (\<lambda>e. ret (ResErr e))"
| "run_op fresh cache storage (CallGet ctx first uid) =
     bind_run (GetOrder cache (storage first []) ctx uid) (\<lambda>(v, e). ret (ResOrder v e))"
| "run_op fresh cache storage (CallWarm ctx sch tasks limit) =
     bind_run (CacheLastOrders cache (storage False sch) tasks ctx limit) (\<lambda>e. ret (ResErr e))"
| "run_op fresh cache storage (CallTask i) = (\<lambda>w.
     if i < length (wd_tasks w)
     then bind_run (run_task cache (wd_tasks w ! i)) (\<lambda>_. ret ResNone) (w\<lparr>wd_tasks := remove_nth i (wd_tasks w)\<rparr>)
     else (w, Returns ResNone))"
| "run_op fresh cache storage (CallRestart n) = (\<lambda>w. (w\<lparr>wd_cache := fresh n, wd_tasks := []\<rparr>, Returns ResNone))"

primrec run_ops ::
  "(int \<Rightarrow> 'ca) \<Rightarrow> 'ca order_cache \<Rightarrow> (bool \<Rightarrow> nat list \<Rightarrow> 'st order_storage) \<Rightarrow> service_op list \<Rightarrow>
   (('st, 'ca) world, service_result list) run" where
  "run_ops fresh cache storage [] = ret []"
| "run_ops fresh cache storage (c # cs) =
     bind_run (run_op fresh cache storage c) (\<lambda>r.
     bind_run (run_ops fresh cache storage cs) (\<lambda>rs. ret (r # rs)))"

text \<open>The specification: a map, which only a save of a new order changes, and the answers that fit it.\<close>

fun map_after :: "(string \<rightharpoonup> order) \<Rightarrow> service_op \<Rightarrow> (string \<rightharpoonup> order)" where
  "map_after m (CallSave ctx v) = (if ord_OrderUID v \<in> dom m then m else m(ord_OrderUID v \<mapsto> v))"
| "map_after m _ = m"

fun answer_fits :: "(string \<rightharpoonup> order) \<Rightarrow> service_op \<Rightarrow> service_result \<Rightarrow> bool" where
  "answer_fits m (CallSave ctx v) (ResErr e) \<longleftrightarrow> (e \<noteq> None \<longleftrightarrow> ord_OrderUID v \<in> dom m)"
| "answer_fits m (CallGet ctx first uid) (ResOrder v' e) \<longleftrightarrow>
     (case m uid of None \<Rightarrow> \<exists>err. e = Some err \<and> errors_is err ErrOrderNotFound
      | Some v \<Rightarrow> e = None \<and> looks_like v' v)"
| "answer_fits m (CallWarm ctx sch tasks limit) (ResErr e) \<longleftrightarrow> e = None"
| "answer_fits m (CallTask i) ResNone \<longleftrightarrow> True"
| "answer_fits m (CallRestart n) ResNone \<longleftrightarrow> True"
| "answer_fits m _ _ \<longleftrightarrow> False"

fun answers_fit :: "(string \<rightharpoonup> order) \<Rightarrow> service_op list \<Rightarrow> service_result list \<Rightarrow> bool" where
  "answers_fit m (c # cs) (r # rs) \<longleftrightarrow> answer_fits m c r \<and> answers_fit (map_after m c) cs rs"
| "answers_fit m [] [] \<longleftrightarrow> True"
| "answers_fit m _ _ \<longleftrightarrow> False"

text \<open>
  The calls that are meant: contexts with a logger, orders that the storage takes, and a warm-up with a limit that is not
  negative and in which every goroutine runs.
\<close>

primrec call_meant :: "(order \<Rightarrow> bool) \<Rightarrow> (string \<rightharpoonup> order) \<Rightarrow> service_op \<Rightarrow> bool" where
  "call_meant takes m (CallSave ctx v) \<longleftrightarrow> ctx_ok ctx \<and> takes v"
| "call_meant takes m (CallGet ctx first uid) \<longleftrightarrow> ctx_ok ctx"
| "call_meant takes m (CallWarm ctx sch tasks limit) \<longleftrightarrow>
     ctx_ok ctx \<and> (\<forall>xs. mset (tasks xs) = mset xs) \<and> 0 \<le> sint limit \<and>
     set sch = {..<min (card (dom m)) (unat limit)}"
| "call_meant takes m (CallTask i) \<longleftrightarrow> True"
| "call_meant takes m (CallRestart n) \<longleftrightarrow> True"

primrec calls_meant :: "(order \<Rightarrow> bool) \<Rightarrow> (string \<rightharpoonup> order) \<Rightarrow> service_op list \<Rightarrow> bool" where
  "calls_meant takes m [] \<longleftrightarrow> True"
| "calls_meant takes m (c # cs) \<longleftrightarrow> call_meant takes m c \<and> calls_meant takes (map_after m c) cs"

lemma map_after_le: "m \<subseteq>\<^sub>m map_after m c"
  by (cases c) (auto simp: map_le_def)

lemma maps_after_le: "m \<subseteq>\<^sub>m foldl map_after m cs"
proof (induction cs arbitrary: m)
  case (Cons c cs)
  then show ?case using map_le_trans [OF map_after_le [of m c]] by simp
qed simp

section \<open>A cache before a storage\<close>

locale cached_store =
  cache_contract ok contents zero_order port + order_store storage rep takes
  for ok :: "'ca \<Rightarrow> bool" and contents :: "'ca \<Rightarrow> string \<Rightarrow> order option" and port :: "'ca order_cache"
    and storage :: "bool \<Rightarrow> nat list \<Rightarrow> 'st order_storage" and rep takes +
  fixes fresh :: "int \<Rightarrow> 'ca"
  assumes fresh_law: "ok (fresh n)" "contents (fresh n) = Map.empty"
begin

definition coherent :: "(string \<rightharpoonup> order) \<Rightarrow> ('st, 'ca) world \<Rightarrow> bool" where
  "coherent m w \<longleftrightarrow> rep (wd_storage w) m \<and> ok (wd_cache w) \<and> all_entries (agrees m) (wd_cache w) \<and>
     (\<forall>t \<in> set (wd_tasks w). \<exists>ctx uid v. t = CacheTask ctx uid v None \<and> ctx_ok ctx \<and> agrees m uid v)"

lemma coherent_fresh: "rep st m \<Longrightarrow> coherent m \<lparr>wd_storage = st, wd_cache = fresh n, wd_logs = logs, wd_tasks = []\<rparr>"
  using fresh_law by (simp add: coherent_def all_entries_def)

lemma save_coherent:
  assumes "coherent m w" "ctx_ok ctx" "takes v"
  shows "\<exists>w' e. SaveOrder (storage first sch) ctx v w = (w', Returns e) \<and>
    (e \<noteq> None \<longleftrightarrow> ord_OrderUID v \<in> dom m) \<and> coherent (map_after m (CallSave ctx v)) w'"
proof -
  obtain st' e where s: "sp_SaveOrder (storage first sch) ctx v (wd_storage w) = (st', Returns e)"
    "if ord_OrderUID v \<in> dom m then e \<noteq> None \<and> rep st' m else e = None \<and> rep st' (m(ord_OrderUID v \<mapsto> v))"
    using save_law [of "wd_storage w" m v first sch ctx] assms by (auto simp: coherent_def)
  show ?thesis
  proof (cases "ord_OrderUID v \<in> dom m")
    case True
    then obtain err where "e = Some err" using s by auto
    then show ?thesis using True s assms
      by (auto simp: SaveOrder_def on_storage_def bind_run_def ret_def coherent_def)
  next
    case False
    let ?m = "m(ord_OrderUID v \<mapsto> v)"
    have le: "m \<subseteq>\<^sub>m ?m" using False by (auto simp: map_le_def)
    have new: "agrees ?m (ord_OrderUID v) v" by (simp add: agrees_def)
    have "all_entries (agrees ?m) (wd_cache w)"
      using assms(1) agrees_more [OF _ le] by (auto simp: coherent_def all_entries_def)
    moreover have "\<forall>t \<in> set (wd_tasks w). \<exists>ctx uid v. t = CacheTask ctx uid v None \<and> ctx_ok ctx \<and> agrees ?m uid v"
      using assms(1) agrees_more [OF _ le] unfolding coherent_def by blast
    ultimately show ?thesis using False s assms new
      by (auto simp: SaveOrder_def on_storage_def bind_run_def ret_def spawn_def coherent_def)
  qed
qed

lemma get_coherent:
  assumes "coherent m w" "ctx_ok ctx"
  shows "\<exists>w' v e. GetOrder port (storage first sch) ctx uid w = (w', Returns (v, e)) \<and> coherent m w' \<and>
    (case m uid of None \<Rightarrow> \<exists>err. e = Some err \<and> errors_is err ErrOrderNotFound
     | Some v0 \<Rightarrow> e = None \<and> looks_like v v0)"
proof -
  obtain c' v found where c: "cp_Get port ctx uid (wd_cache w) = (c', Returns (v, found, None))" "ok c'"
    "all_entries (agrees m) c'" "found \<longrightarrow> agrees m uid v"
    using get_all_entries [of "wd_cache w" ctx "agrees m" uid] assms by (auto simp: coherent_def)
  obtain v' e where s: "sp_GetOrderByID (storage first sch) ctx uid (wd_storage w) = (wd_storage w, Returns (v', e))"
    "case m uid of None \<Rightarrow> \<exists>err. e = Some err \<and> errors_is err ErrOrderNotFound | Some v \<Rightarrow> e = None \<and> agrees m uid v'"
    using get_law [of "wd_storage w" m first sch ctx uid] assms(1) by (auto simp: coherent_def)
  show ?thesis
  proof (cases found)
    case True
    then show ?thesis using c assms(1)
      by (auto simp: GetOrder_def on_cache_def bind_run_def ret_def coherent_def agrees_def)
  next
    case missed: False
    show ?thesis
    proof (cases "m uid")
      case None
      then obtain err where "e = Some err" "errors_is err ErrOrderNotFound" using s(2) by auto
      then show ?thesis using None missed c s(1) assms
        by (auto simp: GetOrder_def on_cache_def on_storage_def bind_run_def ret_def coherent_def)
    next
      case (Some v0)
      then have a: "e = None" "agrees m uid v'" using s(2) by auto
      then have "looks_like v' v0" "ord_OrderUID v' = uid" using Some by (auto simp: agrees_def)
      then show ?thesis using Some missed c s(1) a assms
        by (auto simp: GetOrder_def on_cache_def on_storage_def bind_run_def ret_def spawn_def coherent_def)
    qed
  qed
qed

lemma set_coherent:
  assumes "coherent m w" "ctx_ok ctx" "agrees m uid v"
  shows "\<exists>c'. cp_Set port ctx uid v (wd_cache w) = (c', Returns None) \<and> coherent m (w\<lparr>wd_cache := c'\<rparr>)"
  using set_all_entries [of "wd_cache w" ctx "agrees m" uid v] assms by (auto simp: coherent_def)

lemma task_coherent:
  assumes "coherent m w" "i < length (wd_tasks w)"
  shows "\<exists>w'. run_task port (wd_tasks w ! i) (w\<lparr>wd_tasks := remove_nth i (wd_tasks w)\<rparr>) = (w', Returns ()) \<and> coherent m w'"
proof -
  obtain ctx uid v where t: "wd_tasks w ! i = CacheTask ctx uid v None" "ctx_ok ctx" "agrees m uid v"
    using assms nth_mem [OF assms(2)] unfolding coherent_def by blast
  have "coherent m (w\<lparr>wd_tasks := remove_nth i (wd_tasks w)\<rparr>)"
    using assms(1) set_remove_nth [of i "wd_tasks w"] by (auto simp: coherent_def)
  from set_coherent [OF this t(2,3)] show ?thesis by (auto simp: t(1) bind_run_def ret_def)
qed

lemma group_coherent:
  assumes "coherent m w" "ctx_ok ctx" "\<forall>v \<in> set vs. agrees m (ord_OrderUID v) v"
  shows "\<exists>w'. cache_group port ctx None vs w = (w', Returns None) \<and> coherent m w'"
  using assms(1,3)
proof (induction vs arbitrary: w)
  case (Cons v vs)
  then obtain c' where c': "cp_Set port ctx (ord_OrderUID v) v (wd_cache w) = (c', Returns None)"
    "coherent m (w\<lparr>wd_cache := c'\<rparr>)"
    using set_coherent [OF Cons.prems(1) assms(2), of "ord_OrderUID v" v] by auto
  from Cons.IH [OF c'(2)] Cons.prems(2) c'(1) show ?case by auto
qed (simp add: ret_def)

lemma warm_coherent:
  assumes "coherent m w" "ctx_ok ctx" "\<forall>xs. mset (tasks xs) = mset xs"
    "0 \<le> sint limit" "set sch = {..<min (card (dom m)) (unat limit)}"
  shows "\<exists>w'. CacheLastOrders port (storage first sch) tasks ctx limit w = (w', Returns None) \<and> coherent m w'"
proof -
  obtain vs where s: "sp_GetLastOrders (storage first sch) ctx limit (wd_storage w) = (wd_storage w, Returns (vs, None))"
    "\<forall>v' \<in> set vs. agrees m (ord_OrderUID v') v'"
    using last_law [of "wd_storage w" m limit sch first ctx] assms by (auto simp: coherent_def)
  have "set (tasks vs) = set vs" using assms(3) by (metis set_mset_mset)
  then obtain w' where "cache_group port ctx None (tasks vs) w = (w', Returns None)" "coherent m w'"
    using group_coherent [OF assms(1,2)] s(2) by metis
  then show ?thesis using s(1) assms(2)
    by (auto simp: CacheLastOrders_def on_storage_def bind_run_def ret_def coherent_def)
qed

lemma call_refines:
  assumes "coherent m w" "call_meant takes m c"
  shows "\<exists>w' r. run_op fresh port storage c w = (w', Returns r) \<and> answer_fits m c r \<and> coherent (map_after m c) w'"
proof (cases c)
  case (CallSave ctx v)
  then obtain w' e where "SaveOrder (storage False []) ctx v w = (w', Returns e)"
    "e \<noteq> None \<longleftrightarrow> ord_OrderUID v \<in> dom m" "coherent (map_after m c) w'"
    using save_coherent [of m w ctx v False "[]"] assms by auto
  then show ?thesis using CallSave by (simp add: bind_run_def ret_def)
next
  case (CallGet ctx first uid)
  then show ?thesis using get_coherent [of m w ctx first "[]" uid] assms by (force simp: bind_run_def ret_def)
next
  case (CallWarm ctx sch tasks limit)
  then show ?thesis using warm_coherent [of m w ctx tasks limit sch False] assms by (auto simp: bind_run_def ret_def)
next
  case (CallTask i)
  then show ?thesis using task_coherent [of m w i] assms by (auto simp: bind_run_def ret_def)
next
  case (CallRestart n)
  then show ?thesis using assms(1) fresh_law by (auto simp: coherent_def all_entries_def)
qed

lemma calls_refine:
  assumes "coherent m w" "calls_meant takes m cs"
  shows "\<exists>w' rs. run_ops fresh port storage cs w = (w', Returns rs) \<and> answers_fit m cs rs \<and>
    coherent (foldl map_after m cs) w'"
  using assms
proof (induction cs arbitrary: m w)
  case (Cons c cs)
  obtain w1 r where c: "run_op fresh port storage c w = (w1, Returns r)" "answer_fits m c r"
    "coherent (map_after m c) w1"
    using call_refines [of m w c] Cons.prems by auto
  obtain w2 rs where "run_ops fresh port storage cs w1 = (w2, Returns rs)"
    "answers_fit (map_after m c) cs rs" "coherent (foldl map_after (map_after m c) cs) w2"
    using Cons.IH [OF c(3)] Cons.prems(2) by auto
  then show ?case using c by (auto simp: bind_run_def ret_def)
qed (simp add: ret_def)

end

section \<open>The Postgres storage keeps the contract\<close>

text \<open>
  The orders that \<open>holds\<close> speaks of have an identifier and items, as the validation asks for, fit the tables, and
  have no quotes where the items statement would need them escaped.
\<close>

definition lasting :: "order \<Rightarrow> bool" where
  "lasting v \<longleftrightarrow> savable v \<and> ord_OrderUID v \<noteq> [] \<and> ord_Items v \<noteq> []"

definition holds :: "('db \<Rightarrow> session) \<Rightarrow> 'db \<Rightarrow> (string \<rightharpoonup> order) \<Rightarrow> bool" where
  "holds view d m \<longleftrightarrow> (\<exists>saved. db_rep saved (se_committed (view d)) \<and>
     (\<forall>x \<in> set saved. ord_OrderUID (snd x) \<noteq> [] \<and> ord_Items (snd x) \<noteq> []) \<and>
     m = (\<lambda>uid. map_option snd (stored_at saved uid)))"

lemma stored_map_dom: "dom (\<lambda>uid. map_option snd (stored_at saved uid)) = set (uids saved)"
proof -
  have "x \<in> dom (\<lambda>uid. map_option snd (stored_at saved uid)) \<longleftrightarrow> x \<in> set (uids saved)" for x
    using stored_at_None [of saved x] by (cases "stored_at saved x") (auto simp: dom_def)
  then show ?thesis by blast
qed

lemma stored_map_snoc:
  "ord_OrderUID v \<notin> set (uids saved) \<Longrightarrow>
    (\<lambda>uid. map_option snd (stored_at (saved @ [(t, v)]) uid)) =
    (\<lambda>uid. map_option snd (stored_at saved uid))(ord_OrderUID v \<mapsto> v)"
  by (auto simp: stored_at_snoc fun_eq_iff stored_at_None [symmetric] split: option.split)

lemma stored_map_agrees:
  assumes "db_rep saved w" "(t, v) \<in> set saved" "same_order v' (as_read t v)"
  shows "agrees (\<lambda>uid. map_option snd (stored_at saved uid)) (ord_OrderUID v) v'"
proof -
  have "stored_at saved (ord_OrderUID v) = Some (t, v)"
    using assms(1,2) stored_at_iff [of saved "ord_OrderUID v" "(t, v)"] by (simp add: db_rep_def)
  then show ?thesis using same_order_looks_like [OF assms(3)] by (simp add: agrees_def looks_like_uid)
qed

lemma postgres_store:
  assumes laws: "postgres pg view ''order_service''" "reliable pg view ''order_service''"
  shows "order_store (NewOrdersStoragePostgres pg) (holds view) lasting"
proof unfold_locales
  fix d m v first sch ctx
  assume "holds view d m" and v: "lasting v"
  then obtain saved where saved: "db_rep saved (se_committed (view d))"
    "\<forall>x \<in> set saved. ord_OrderUID (snd x) \<noteq> [] \<and> ord_Items (snd x) \<noteq> []"
    "m = (\<lambda>uid. map_option snd (stored_at saved uid))" by (auto simp: holds_def)
  obtain d' res where r: "SaveOrder_pg pg ctx v d = (d', res)" by fastforce
  have sv: "savable v" using v by (simp add: lasting_def)
  note law = SaveOrder_pg_law [OF laws(1) saved(1) sv r]
  have dom: "dom m = set (uids saved)" using saved(3) by (simp only: stored_map_dom)
  have "if ord_OrderUID v \<in> dom m then res \<noteq> None \<and> holds view d' m
    else res = None \<and> holds view d' (m(ord_OrderUID v \<mapsto> v))"
  proof (cases "ord_OrderUID v \<in> set (uids saved)")
    case True
    then have "se_committed (view d') = se_committed (view d)" "res \<noteq> None" using law by auto
    then show ?thesis using True \<open>holds view d m\<close> dom by (simp add: holds_def)
  next
    case False
    then obtain now where "res = None" "db_rep (saved @ [(now, v)]) (se_committed (view d'))"
      using law laws(2) by blast
    moreover have "m(ord_OrderUID v \<mapsto> v) = (\<lambda>uid. map_option snd (stored_at (saved @ [(now, v)]) uid))"
      using saved(3) stored_map_snoc [OF False] by simp
    ultimately show ?thesis using False dom saved(2) v
      by (auto simp: holds_def lasting_def intro!: exI [of _ "saved @ [(now, v)]"])
  qed
  then show "\<exists>d' res. sp_SaveOrder (NewOrdersStoragePostgres pg first sch) ctx v d = (d', Returns res) \<and>
      (if ord_OrderUID v \<in> dom m then res \<noteq> None \<and> holds view d' m
       else res = None \<and> holds view d' (m(ord_OrderUID v \<mapsto> v)))"
    using r by (simp add: NewOrdersStoragePostgres_def)
next
  fix d m first sch ctx uid
  assume "holds view d m"
  then obtain saved where saved: "db_rep saved (se_committed (view d))"
    "\<forall>x \<in> set saved. ord_OrderUID (snd x) \<noteq> [] \<and> ord_Items (snd x) \<noteq> []"
    "m = (\<lambda>uid. map_option snd (stored_at saved uid))" by (auto simp: holds_def)
  have "\<exists>v' res. GetOrderByID pg first ctx uid d = (d, v', res) \<and>
      (case m uid of None \<Rightarrow> \<exists>e. res = Some e \<and> errors_is e ErrOrderNotFound | Some v \<Rightarrow> res = None \<and> agrees m uid v')"
  proof (cases "stored_at saved uid")
    case None
    then show ?thesis using GetOrderByID_missing [OF laws saved(1), of uid first ctx] saved(3) by auto
  next
    case (Some x)
    obtain t v where x: "x = (t, v)" by fastforce
    have in_saved: "(t, v) \<in> set saved" "ord_OrderUID v = uid"
      using Some x saved(1) stored_at_iff [of saved uid "(t, v)"] by (auto simp: db_rep_def)
    have ne: "ord_Items v \<noteq> []" "uid \<noteq> []" using saved(2) in_saved by auto
    obtain v' where "GetOrderByID pg first ctx uid d = (d, v', None)" "same_order v' (as_read t v)"
      using GetOrderByID_found [OF laws saved(1) Some [unfolded x] ne, of first ctx] by blast
    then show ?thesis using stored_map_agrees [OF saved(1) in_saved(1), of v'] Some x saved(3) in_saved(2) by auto
  qed
  then show "\<exists>v' res. sp_GetOrderByID (NewOrdersStoragePostgres pg first sch) ctx uid d = (d, Returns (v', res)) \<and>
      (case m uid of None \<Rightarrow> \<exists>e. res = Some e \<and> errors_is e ErrOrderNotFound | Some v \<Rightarrow> res = None \<and> agrees m uid v')"
    by (auto simp: NewOrdersStoragePostgres_def)
next
  fix d m first ctx and sch :: "nat list" and limit :: go_int
  assume "holds view d m" and sch: "0 \<le> sint limit" "set sch = {..<min (card (dom m)) (unat limit)}"
  then obtain saved where saved: "db_rep saved (se_committed (view d))" "m = (\<lambda>uid. map_option snd (stored_at saved uid))"
    by (auto simp: holds_def)
  have "dom m = set (uids saved)" using saved(2) by (simp only: stored_map_dom)
  then have "card (dom m) = length saved" using saved(1) distinct_card [of "uids saved"] by (simp add: db_rep_def uids_key)
  then obtain xs vs where xs: "mset xs = mset saved" "GetLastOrders_pg pg sch ctx limit d = (d, vs, None)"
    "list_all2 (\<lambda>x v'. same_order v' (as_read (fst x) (snd x))) (take (unat limit) xs) vs"
    using GetLastOrders_law [OF laws saved(1), of limit sch ctx] sch by auto
  have "agrees m (ord_OrderUID v') v'" if "v' \<in> set vs" for v'
  proof -
    obtain i where i: "i < length vs" "v' = vs ! i" using \<open>v' \<in> set vs\<close> by (auto simp: in_set_conv_nth)
    let ?x = "take (unat limit) xs ! i"
    have "?x \<in> set (take (unat limit) xs)" by (rule nth_mem) (simp only: i(1) list_all2_lengthD [OF xs(3)])
    from in_set_takeD [OF this] have x: "(fst ?x, snd ?x) \<in> set saved"
      by (simp only: mset_eq_setD [OF xs(1)] prod.collapse)
    have s: "same_order v' (as_read (fst ?x) (snd ?x))" using list_all2_nthD2 [OF xs(3) i(1)] i(2) by simp
    have "ord_OrderUID v' = ord_OrderUID (snd ?x)" by (rule looks_like_uid [OF same_order_looks_like [OF s]])
    then show ?thesis using stored_map_agrees [OF saved(1) x s] by (simp only: saved(2))
  qed
  then show "\<exists>vs. sp_GetLastOrders (NewOrdersStoragePostgres pg first sch) ctx limit d = (d, Returns (vs, None)) \<and>
      (\<forall>v' \<in> set vs. agrees m (ord_OrderUID v') v')"
    using xs(2) by (auto simp: NewOrdersStoragePostgres_def)
qed

lemma postgres_service:
  assumes "postgres pg view ''order_service''" "reliable pg view ''order_service''"
  shows "cached_store lru_ok lru_data (lru_order_port z) (NewOrdersStoragePostgres pg) (holds view) lasting
    NewOrderCacheAdapterInMemoryLRU"
proof (rule cached_store.intro)
  show "cache_contract lru_ok lru_data zero_order (lru_order_port z)" by (rule lru_orders.cache_contract_axioms)
  show "order_store (NewOrdersStoragePostgres pg) (holds view) lasting" by (rule postgres_store [OF assms])
  show "cached_store_axioms lru_ok lru_data NewOrderCacheAdapterInMemoryLRU"
    using NewOrderCache_ok lru_rep_contents [OF NewCache_rep]
    by unfold_locales (simp_all add: NewOrderCacheAdapterInMemoryLRU_def)
qed

interpretation memory_service: cached_store lru_ok lru_data "lru_order_port z" "NewOrdersStoragePostgres mem_pg"
  "holds id" lasting NewOrderCacheAdapterInMemoryLRU for z
  by (rule postgres_service [OF mem_pg_laws])

section \<open>The service is a map of orders\<close>


text \<open>What a request for a saved order finds, in any state that the calls of the service reach.\<close>

abbreviation service_state :: "('db \<Rightarrow> session) \<Rightarrow> (string \<rightharpoonup> order) \<Rightarrow> ('db, (string, order) lru) world \<Rightarrow> bool" where
  "service_state view \<equiv> cached_store.coherent lru_ok lru_data (holds view)"

lemma saved_order_found:
  assumes laws: "postgres pg view ''order_service''" "reliable pg view ''order_service''"
    and state: "service_state view m w" "m uid = Some v"
  shows "\<exists>s v'. lru_rep (wd_cache w) s \<and> looks_like v' v \<and>
    lookup_answer s (NewOrdersStoragePostgres pg first sch) ctx uid (wd_storage w) = Returns (v', None)"
proof -
  have c: "holds view (wd_storage w) m" "lru_ok (wd_cache w)"
    "\<And>k u. lru_data (wd_cache w) k = Some u \<Longrightarrow> agrees m k u"
    using state(1) unfolding cached_store.coherent_def [OF postgres_service [OF laws]]
      cache_contract.all_entries_def [OF lru_orders.cache_contract_axioms] by auto
  obtain s where s: "lru_rep (wd_cache w) s" using c(2) by (auto simp: lru_ok_def)
  show ?thesis
  proof (cases "map_of s uid")
    case None
    then show ?thesis
      using order_store.get_law [OF postgres_store [OF laws] c(1), of first sch ctx uid] state(2) s
      by (auto simp: lookup_answer_def agrees_def)
  next
    case (Some u)
    then have "agrees m uid u" using c(3) [of uid u] lru_rep_contents [OF s] by simp
    then show ?thesis using Some s state(2) by (auto simp: lookup_answer_def agrees_def)
  qed
qed

lemma sample_lasting: "lasting sample_order"
  using sample_savable by (simp add: lasting_def) (simp add: sample_order_def)

lemma empty_holds: "holds id empty_session Map.empty"
  using empty_rep by (force simp: holds_def stored_at_def)

definition empty_world :: "(session, (string, order) lru) world" where
  "empty_world = \<lparr>wd_storage = empty_session, wd_cache = NewOrderCacheAdapterInMemoryLRU 2, wd_logs = [], wd_tasks = []\<rparr>"


end
