(* ===== verification/Spec2Isabelle.thy ===== *)
theory Spec2Isabelle
  imports LruConcurrency ApiConformance ApiMarshal ApiTelemetryProps ApiConfig Shutdown EndToEnd ServiceContract
begin

text \<open>
  A model of the order service (\<open>order_service/\<close>) and of the simulator service
  (\<open>simulator_service/\<close>) with the theorems that make them correct. Paths are relative
  to \<open>order_service/\<close>.

  \<^bold>\<open>The program.\<close> Orders arrive as JSON messages on a Kafka topic. The receiver
  (\<open>pkg/pkgports/adapters/receiver\<close>) hands them to the receiving loop
  (\<open>internal/service/order_receiver_service.go\<close>), which validates each
  (\<open>internal/validators\<close>) and starts a goroutine that calls the order service
  (\<open>internal/service/order_service.go\<close>) and finishes the message: \<open>OnSuccess\<close>
  commits it, \<open>OnFail\<close> puts it into the retry channel or gives it up. The order service
  writes to Postgres (\<open>internal/ports/adapters/storage\<close>) and fills an LRU cache
  (\<open>pkg/pkgports/adapters/cache/lru\<close>, on the linked list of \<open>pkg/linkedlist\<close>) in
  goroutines. A GET request passes the generated router, the logging middleware and the handler
  (\<open>internal/api\<close>, \<open>internal/handlers\<close>), which asks the order service: the cache
  first, then the storage. \<open>cmd/main.go\<close> builds all of it. The simulator puts the body
  of a request on the topic.

  \<^bold>\<open>Conventions.\<close> A Go interface, and every package that is not in the repository
  (zap, kafka-go, pgx, squirrel, golang-migrate, ogen, jx, net/http, net/mail, the clock), is a
  record of functions or a parameter over an abstract state, so the theorems hold for every
  implementation that meets the hypotheses they name. A method with effects has type
  \<open>'s run\<close>: it maps the state to a new state and an \<open>outcome\<close>, either
  \<open>Returns\<close> a value or \<open>Panics\<close> in the state reached; a call that may block for
  ever gives an option. Go's \<open>error\<close> is \<open>go_error option\<close>, with sentinels,
  wrapping (\<open>errors_is\<close>) and texts. Go's \<open>int\<close> is a 64-bit word where values come
  from outside or may wrap, and \<open>int\<close> for the lengths of lists in memory. Strings are
  byte strings. A goroutine is a task in the state of its component that may run at any later
  point, or a schedule (a list of indices or events) over which theorems quantify.

  \<^bold>\<open>The theories.\<close>
  \<^item> \<open>Prelude\<close>: integers, time, errors, \<open>run\<close>, lists by index, the shared collections
    of facts.
  \<^item> \<open>LinkedList\<close> (\<open>pkg/linkedlist/list.go\<close>): the list as nodes in a store with head, tail
    and length. \<open>ll_rep\<close> relates it to a sequence; every operation refines its counterpart
    on HOL lists and never follows a nil pointer. The locale \<open>key_sequence\<close> is the part of
    this contract that the cache uses.
  \<^item> \<open>Logger\<close> (\<open>pkg/logger/logger.go\<close>): contexts, the logger in them, and the calls that
    panic without one.
  \<^item> \<open>LruCache\<close>, \<open>LruConcurrency\<close> (\<open>pkg/pkgports/adapters/cache/lru/in_memory.go\<close>): the
    cache as map, list and capacity, refined to a recency list (\<open>lru_rep\<close>); the panic of
    \<open>Set\<close> without a logger; readers that interleave under the read lock, what they keep
    (keys and map) and what they break.
  \<^item> \<open>Models\<close>, \<open>Validators\<close> (\<open>internal/models\<close>, \<open>internal/validators\<close>): the entities;
    the validation check by check, equivalent to the rules of \<open>docs/validation.md\<close>
    (\<open>order_valid\<close>).
  \<^item> \<open>Ports\<close> (\<open>internal/ports\<close>, \<open>pkg/pkgports/ports.go\<close>): the interfaces; the locales
    \<open>cache_contract\<close>, \<open>bounded_cache\<close> and \<open>receiver_contract\<close>, the first two
    interpreted for the LRU cache here, the third for the Kafka receiver in \<open>KafkaReceiver\<close>.
  \<^item> \<open>OrderService\<close>: the cache-aside service and its goroutines over any cache that keeps
    the contract (\<open>order_cache_client\<close>).
  \<^item> \<open>KafkaReceiver\<close>: tries, backoff, the bounded retry channel; no message is lost or
    duplicated, a failing one is given up after \<open>maxRetries + 1\<close> attempts, and the blocking
    put-back.
  \<^item> \<open>OrderReceiver\<close>: the loop, the goroutine of a message, the stop handshake
    (\<open>order_receiver_client\<close> over any receiver that keeps the contract).
  \<^item> \<open>Storage\<close>, \<open>StorageProps\<close> (\<open>postgres.go\<close>): statements, scans, the transaction with its
    deferred function, and the parallel reading of items; columns and scans fit, the text of
    the items statement denotes the items exactly when nothing has to be quoted.
  \<^item> \<open>DbSchema\<close> (\<open>db/migrations/000001_init.up.sql\<close>): the tables, the values that their
    columns hold, and which validated orders can be stored.
  \<^item> \<open>Database\<close>, \<open>MemoryDatabase\<close>: what Postgres does with the statements of the storage,
    stated as laws on the driver over the tables of \<open>DbSchema\<close> (\<open>postgres\<close>: transactions one
    after the other, inserts with primary and foreign keys, the joins of the selects, names found through the
    user's schema), and which calls succeed on a database that is up (\<open>reliable\<close>); a database in
    memory keeps all of them.
  \<^item> \<open>DatabaseProps\<close>, \<open>DatabaseReads\<close>, \<open>StorageContract\<close>: the storage over these laws.
    \<open>db_rep\<close> relates the tables to the list of the orders that were saved; saving is all or nothing,
    reading gives back what was saved, the latest orders come first, and a quote in a text changes the orders of
    others.
  \<^item> \<open>ServiceContract\<close>: a store of orders as a map (\<open>order_store\<close>, kept by the Postgres
    storage) with a cache before it (\<open>cached_store\<close>): the service answers as the map does, through
    evictions, late goroutines and restarts.
  \<^item> \<open>ApiSchemas\<close>, \<open>ApiJson\<close>, \<open>ApiJsonProps\<close>, \<open>ApiServer\<close>, \<open>ApiClient\<close> (\<open>internal/api\<close>):
    types, JSON codec on document trees with its required-field bit sets (\<open>object_decoder\<close>,
    interpreted for the four composite types), router, parameters, validators, responses,
    server, options and client.
  \<^item> \<open>ApiSchemaTypes\<close>, \<open>ApiConformance\<close>: the schemas of \<open>api/order_service/openapi.yml\<close>
    as types of documents. Every decoder accepts exactly the documents of its type
    (\<open>typed_decoder\<close>), and the client takes a 200 answer exactly when its body conforms.
  \<^item> \<open>ApiMarshal\<close>: \<open>MarshalJSON\<close> and \<open>UnmarshalJSON\<close> over a text format that comes from
    outside (\<open>json_codec\<close>, interpreted for all eight types).
  \<^item> \<open>ApiTelemetry\<close>, \<open>ApiTelemetryProps\<close>, \<open>ApiConfig\<close>: what handler and client report to
    OpenTelemetry, as events in the order of the calls; without the events they are the handler and
    the client of \<open>ApiServer\<close> and \<open>ApiClient\<close>. The configuration, its options and the
    constructors with their instruments.
  \<^item> \<open>HttpHandler\<close> (\<open>internal/handlers/httphandlers\<close>): handler and middleware, and whole
    requests from the URL to the bytes the client decodes.
  \<^item> \<open>KafkaAdmin\<close>, \<open>Simulator\<close>, \<open>Startup\<close>: creating the topic, the simulator with its own
    \<open>main\<close>, and the service's \<open>main\<close> with configuration, database and reader; \<open>main_startup\<close> ends in the state from
    which the loop and the server run.
  \<^item> \<open>Shutdown\<close> (\<open>cmd/main.go\<close> from \<open>ctx.Done()\<close> on): the running process as a step
    relation (\<open>main_step\<close>) of the loop, the goroutines of the messages and the three goroutines of
    the shutdown; what holds when \<open>main\<close> returns, and when it cannot return any more.
  \<^item> \<open>EndToEnd\<close> (\<open>integration_tests/e2e_test/main.go\<close>): the end-to-end test, whose generated
    orders the validation accepts and the tables hold, whose sender fits the simulator, and whose report counts what
    was answered.
  \<^item> This theory: theorems that span the components, from the topic to the client.

  \<^bold>\<open>Termination and bounds.\<close> Operations of the list recurse over a number that the code
  bounds (the index or the length), and \<open>ll_rep\<close> shows that no step of the walk is stuck.
  \<open>retry_loop\<close> recurses over the number of retries. The receiving loop runs for ever by
  design: \<open>StartReceivingOrders\<close> takes the list of choices that its \<open>select\<close> makes,
  one for each iteration, so the length of the list is the number of iterations observed, and
  \<open>rx_reach\<close> is the set of the states of all runs. Lengths of lists are below
  \<open>2^63\<close>, so index arithmetic does not wrap; the products that can wrap are words
  (\<open>seconds\<close>, \<open>milliseconds\<close>).

  \<^bold>\<open>Not modelled.\<close> The text of JSON documents, which belongs to \<open>jx\<close>. OpenTelemetry
  itself: tracers, meters and instruments are opaque, and the durations that are recorded are those
  given, before their conversion to a float of milliseconds. Of the database: transactions that run at the same
  time, values beyond what the tables hold as given (nulls, trailing blanks, fractions of a microsecond),
  statements other than those of the storage, limits below zero, the indexes, the trigger and the down
  migration. The parts before \<open>Database\<close> hold for any database; only the theories after it use its
  laws. What a closed pool, a stopped server and a cancelled context do to requests in flight, which is the behaviour of pgx and
  net/http. Data races below the granularity of \<open>LruConcurrency\<close>. The floating-point
  efficiency of the end-to-end test's report. Unit tests, deployment files and documentation.
\<close>

section \<open>From the topic to the client\<close>

text \<open>The parts as \<open>main\<close> connects them: the receiver's process function is the service's \<open>SaveOrder\<close>.\<close>

lemma processed_order:
  assumes "ctx_ok ctx" "SaveOrder storage ctx v (rx_process w) = (p, Returns None)"
  shows "\<exists>w1. process_task (kafka_port lib zero_order) (SaveOrder storage) ctx v (Some msg) w = (w1, Returns ()) \<and>
    rx_process w1 = p \<and>
    kr_reader (rx_receiver w1) = fst (kl_CommitMessages lib ctx (km_Message msg) (kr_reader (rx_receiver w)))"
proof -
  obtain rd e where c: "kl_CommitMessages lib ctx (km_Message msg) (kr_reader (rx_receiver w)) = (rd, e)" by fastforce
  have r: "rp_OnSuccess (kafka_port lib zero_order) ctx (Some msg) (rx_receiver w) =
      ((rx_receiver w)\<lparr>kr_reader := rd\<rparr>, Returns e)"
    using c by (simp add: kafka_port_def OnSuccess_def)
  obtain logs where "process_task (kafka_port lib zero_order) (SaveOrder storage) ctx v (Some msg) w =
      (w\<lparr>rx_process := p, rx_receiver := (rx_receiver w)\<lparr>kr_reader := rd\<rparr>, rx_logs := logs\<rparr>, Returns ())"
    using process_task_branches [OF assms(1), of "kafka_port lib zero_order" "SaveOrder storage" v "Some msg" w] assms(2) r
    by auto
  then show ?thesis using c by auto
qed

text \<open>
  C1: A valid order that was received and that the storage takes is acknowledged and served:
  its goroutine saves it and commits its message, and once the caching goroutine has run, a
  request for its id is answered with status 200 and the order, mapped field by field, from the
  cache. (For a cache of positive capacity with no other caching goroutine pending.)
\<close>

theorem received_order_is_served:
  assumes ctx: "ctx_ok ctx" and cache: "lru_rep (wd_cache (rx_process w)) s" "0 < lru_cap (wd_cache (rx_process w))"
    and idle: "wd_tasks (rx_process w) = []"
    and save: "sp_SaveOrder storage ctx v (wd_storage (rx_process w)) = (st, Returns None)"
    and url: "good_url og (sv_Prefix cfg) (ord_OrderUID v) u"
    and server: "sv_Middleware cfg = Some (LoggingMiddleware None z)" "m KeyForRequestID = None" "parses_own_type og"
  shows "\<exists>w1 t p2 p3 r.
    process_task (kafka_port lib zero_order) (SaveOrder storage) ctx v (Some msg) w = (w1, Returns ()) \<and>
    kr_reader (rx_receiver w1) = fst (kl_CommitMessages lib ctx (km_Message msg) (kr_reader (rx_receiver w))) \<and>
    wd_tasks (rx_process w1) = [t] \<and>
    run_task (lru_order_port zc) t ((rx_process w1)\<lparr>wd_tasks := []\<rparr>) = (p2, Returns ()) \<and>
    serve og jx None cfg (NewOrderServiceHTTPHandler z (lru_order_port zc) storage) (Some m) ''GET'' u p2 = (p3, Returns r) \<and>
    rs_status r = Some 200 \<and>
    (res_ok og jx (OrderResponse (api_order_of v)) \<longrightarrow>
       decodeOrderIDGetResponse og jx r = Inr (OrderResponse (api_order_of v)))"
proof -
  obtain p1 t p2 s' where p: "SaveOrder storage ctx v (rx_process w) = (p1, Returns None)" "wd_tasks p1 = [t]"
    "run_task (lru_order_port zc) t (p1\<lparr>wd_tasks := []\<rparr>) = (p2, Returns ())"
    "lru_rep (wd_cache p2) s'" "map_of s' (ord_OrderUID v) = Some v"
    using saved_is_cached [OF cache ctx idle save, of zc] by blast
  have a: "lookup_answer s' storage (with_logger m) (ord_OrderUID v) (wd_storage p2) = Returns (v, None)"
    using p(5) by (simp add: lookup_answer_def)
  obtain p3 r where "serve og jx None cfg (NewOrderServiceHTTPHandler z (lru_order_port zc) storage) (Some m) ''GET'' u p2 =
      (p3, Returns r)" "rs_status r = Some (res_status (order_answer (v, None)))"
    "res_ok og jx (order_answer (v, None)) \<longrightarrow> decodeOrderIDGetResponse og jx r = Inr (order_answer (v, None))"
    using serve_order [OF url server(1,2) p(4) a server(3), of jx zc] by blast
  then show ?thesis
    using processed_order [OF ctx p(1), of lib msg] p(2,3) by (fastforce simp: order_answer_def)
qed

text \<open>The receiving side with the sample world of the service.\<close>

definition sample_receiving :: "(order, string, unit) kafka_receiver \<Rightarrow>
    ((order, string, unit) kafka_receiver, (order list, (string, order) lru) world, (order, string) kafka_message option) rx_world" where
  "sample_receiving r = \<lparr>rx_receiver = r, rx_process = sample_world, rx_logs = [], rx_tasks = []\<rparr>"

theorem received_order_is_served_witness:
  "\<exists>r0 w1 t p2 p3 r. NewKafkaReceiver () 2 1 5 100 = Returns r0 \<and>
    process_task (kafka_port order_lib zero_order) (SaveOrder list_storage) logged_ctx sample_order
      (Some (NewFreshMessage ''payload'' sample_order)) (sample_receiving r0) = (w1, Returns ()) \<and>
    wd_tasks (rx_process w1) = [t] \<and>
    run_task (lru_order_port None) t ((rx_process w1)\<lparr>wd_tasks := []\<rparr>) = (p2, Returns ()) \<and>
    serve plain_ogen plain_jx None sample_config (NewOrderServiceHTTPHandler None (lru_order_port None) list_storage)
      (Some (\<lambda>_. None)) ''GET'' (order_url ''b563'') p2 = (p3, Returns r) \<and> rs_status r = Some 200"
proof -
  obtain r0 :: "(order, string, unit) kafka_receiver" where r0: "NewKafkaReceiver () 2 1 5 100 = Returns r0"
    by (simp add: NewKafkaReceiver_def)
  have w: "rx_process (sample_receiving r0) = sample_world" by (simp add: sample_receiving_def)
  have uid: "ord_OrderUID sample_order = ''b563''" by (simp add: sample_order_def)
  have cap: "0 < lru_cap (wd_cache sample_world)" "wd_tasks sample_world = []"
    by (simp_all add: sample_world_def NewOrderCacheAdapterInMemoryLRU_def NewCacheLRUInMemory_def)
  have save: "sp_SaveOrder list_storage logged_ctx sample_order (wd_storage sample_world) =
      ([sample_order, sample_order], Returns None)"
    by (simp add: sample_world_def list_storage_def)
  have url: "good_url plain_ogen (sv_Prefix sample_config) (ord_OrderUID sample_order) (order_url ''b563'')"
    using order_url_good [of "''b563''"] uid by simp
  show ?thesis
    using received_order_is_served [where w = "sample_receiving r0" and lib = order_lib and zc = None and jx = plain_jx
        and msg = "NewFreshMessage ''payload'' sample_order" and m = "\<lambda>_. None", unfolded w,
        OF logged_ctx_ok sample_world_rep cap save url sample_config_fields(2) refl plain_ogen_type] r0 by blast
qed

text \<open>
  C26: A lost transaction is acknowledged. When every statement of the transaction works and
  only \<open>Commit\<close> fails, the whole chain takes the order for saved: the goroutine of the
  received message commits the message to Kafka, so it will not be delivered again, and starts
  the goroutine that caches the order, so the service serves an order that the database does not
  have.
\<close>

theorem lost_commit_is_acknowledged:
  assumes "ctx_ok ctx" "pg_Begin pg ctx (wd_storage (rx_process w)) = (db0, None)"
    "save_steps pg ctx v db0 = (db1, None, None)" "pg_Commit pg ctx db1 = (db2, Some e)"
  shows "\<exists>w1. process_task (kafka_port lib zero_order) (SaveOrder (NewOrdersStoragePostgres pg first schedule)) ctx v
        (Some msg) w = (w1, Returns ()) \<and>
    kr_reader (rx_receiver w1) = fst (kl_CommitMessages lib ctx (km_Message msg) (kr_reader (rx_receiver w))) \<and>
    wd_storage (rx_process w1) = db2 \<and>
    wd_tasks (rx_process w1) = wd_tasks (rx_process w) @ [CacheTask ctx (ord_OrderUID v) v None]"
proof -
  have "SaveOrder_pg pg ctx v (wd_storage (rx_process w)) = (db2, None)"
    using assms(2-4) by (simp add: SaveOrder_pg_eq deferred_state)
  then have "SaveOrder (NewOrdersStoragePostgres pg first schedule) ctx v (rx_process w) =
      ((rx_process w)\<lparr>wd_storage := db2, wd_tasks := wd_tasks (rx_process w) @ [CacheTask ctx (ord_OrderUID v) v None],
         wd_logs := wd_logs (rx_process w) @ [log_rec InfoLevel ctx ''saved order'' [(''id'', ord_OrderUID v)]]\<rparr>,
       Returns None)"
    using assms(1) by (simp add: SaveOrder_def NewOrdersStoragePostgres_def on_storage_def spawn_def bind_run_def ret_def)
  from processed_order [OF assms(1) this, of lib msg] show ?thesis by fastforce
qed

theorem lost_commit_is_acknowledged_witness:
  "\<exists>r0 w1. NewKafkaReceiver () 2 1 5 100 = Returns r0 \<and>
    process_task (kafka_port order_lib zero_order)
      (SaveOrder (NewOrdersStoragePostgres (trace_pg (\<lambda>s. s = ''commit'')) False [])) logged_ctx zero_order
      (Some (NewFreshMessage ''payload'' zero_order))
      \<lparr>rx_receiver = r0, rx_process = \<lparr>wd_storage = [], wd_cache = NewOrderCacheAdapterInMemoryLRU 2, wd_logs = [],
         wd_tasks = []\<rparr>, rx_logs = [], rx_tasks = []\<rparr> = (w1, Returns ()) \<and>
    wd_tasks (rx_process w1) = [CacheTask logged_ctx [] zero_order None]"
proof -
  obtain r0 :: "(order, string, unit) kafka_receiver" where r0: "NewKafkaReceiver () 2 1 5 100 = Returns r0"
    by (simp add: NewKafkaReceiver_def)
  let ?p = "\<lparr>wd_storage = [], wd_cache = NewOrderCacheAdapterInMemoryLRU 2, wd_logs = [], wd_tasks = []\<rparr>"
  let ?w = "\<lparr>rx_receiver = r0, rx_process = ?p, rx_logs = [], rx_tasks = []\<rparr>"
  let ?pg = "trace_pg (\<lambda>s. s = ''commit'')"
  obtain db1 where "save_steps ?pg logged_ctx zero_order [''begin''] = (db1, None, None)"
    by (simp add: trace_pg_def Let_def save_steps_def saveOrder_def savePayment_def saveDelivery_def saveItems_def
        exec_insert_def order_insert_def payment_insert_def delivery_insert_def zero_order_def)
  then show ?thesis
    using lost_commit_is_acknowledged [where w = ?w and pg = ?pg and ctx = logged_ctx and v = zero_order and lib = order_lib
        and first = False and schedule = "[]" and msg = "NewFreshMessage ''payload'' zero_order"
        and ?db0.0 = "[''begin'']" and ?db1.0 = db1 and ?db2.0 = "db1 @ [''commit'']" and e = "Ext ''commit''"] r0
    by (auto simp: trace_pg_def zero_order_def)
qed

section \<open>From the topic to the database and back\<close>

text \<open>
  C2: An order that is acknowledged is kept. Over a reliable database, after any history of the service: the
  goroutine of a message with a new order saves the order and commits the message, and from then on, whatever
  else is saved, requested, evicted from the cache or cached late, and also after restarts that lose the cache,
  a request for its id is answered with status 200 and the order that was sent, up to the order of its
  items. (For orders that the tables hold and that have no quotes to escape.)
\<close>

theorem acknowledged_order_is_kept:
  assumes laws: "postgres pg view ''order_service''" "reliable pg view ''order_service''" and ctx: "ctx_ok ctx"
    and start: "holds view (wd_storage p0) m0" "wd_cache p0 = NewOrderCacheAdapterInMemoryLRU n" "wd_tasks p0 = []"
    and history: "calls_meant lasting m0 cs"
      "run_ops NewOrderCacheAdapterInMemoryLRU (lru_order_port zc) (NewOrdersStoragePostgres pg) cs p0 =
         (rx_process w, Returns rs)"
    and new: "lasting v" "ord_OrderUID v \<notin> dom (foldl map_after m0 cs)"
    and url: "good_url og (sv_Prefix cfg) (ord_OrderUID v) u"
    and server: "sv_Middleware cfg = Some (LoggingMiddleware None z)" "vals KeyForRequestID = None" "parses_own_type og"
  shows "\<exists>w1. process_task (kafka_port lib zero_order) (SaveOrder (NewOrdersStoragePostgres pg first sch)) ctx v (Some msg) w =
      (w1, Returns ()) \<and>
    kr_reader (rx_receiver w1) = fst (kl_CommitMessages lib ctx (km_Message msg) (kr_reader (rx_receiver w))) \<and>
    (\<forall>cs'. calls_meant lasting ((foldl map_after m0 cs)(ord_OrderUID v \<mapsto> v)) cs' \<longrightarrow>
      (\<exists>p2 rs' p3 r v'.
        run_ops NewOrderCacheAdapterInMemoryLRU (lru_order_port zc) (NewOrdersStoragePostgres pg) cs' (rx_process w1) =
          (p2, Returns rs') \<and>
        serve og jx None cfg (NewOrderServiceHTTPHandler z (lru_order_port zc) (NewOrdersStoragePostgres pg first sch))
          (Some vals) ''GET'' u p2 = (p3, Returns r) \<and>
        rs_status r = Some 200 \<and> looks_like v' v \<and>
        (res_ok og jx (OrderResponse (api_order_of v')) \<longrightarrow>
           decodeOrderIDGetResponse og jx r = Inr (OrderResponse (api_order_of v')))))"
proof -
  note service = postgres_service [OF laws, of zc]
  let ?m = "foldl map_after m0 cs"
  have "p0 = \<lparr>wd_storage = wd_storage p0, wd_cache = NewOrderCacheAdapterInMemoryLRU n, wd_logs = wd_logs p0, wd_tasks = []\<rparr>"
    using start by simp
  then have "service_state view m0 p0"
    using cached_store.coherent_fresh [OF service start(1), of n "wd_logs p0"] by simp
  from cached_store.calls_refine [OF service this history(1)] history(2)
  have before: "service_state view ?m (rx_process w)" by simp
  obtain p1 where p1: "SaveOrder (NewOrdersStoragePostgres pg first sch) ctx v (rx_process w) = (p1, Returns None)"
    "service_state view (?m(ord_OrderUID v \<mapsto> v)) p1"
    using cached_store.save_coherent [OF service before ctx new(1), of first sch] new(2) by auto
  obtain w1 where w1: "process_task (kafka_port lib zero_order) (SaveOrder (NewOrdersStoragePostgres pg first sch)) ctx v (Some msg) w =
      (w1, Returns ())" "rx_process w1 = p1"
    "kr_reader (rx_receiver w1) = fst (kl_CommitMessages lib ctx (km_Message msg) (kr_reader (rx_receiver w)))"
    using processed_order [OF ctx p1(1), of lib msg] by blast
  have "\<exists>p2 rs' p3 r v'.
      run_ops NewOrderCacheAdapterInMemoryLRU (lru_order_port zc) (NewOrdersStoragePostgres pg) cs' p1 = (p2, Returns rs') \<and>
      serve og jx None cfg (NewOrderServiceHTTPHandler z (lru_order_port zc) (NewOrdersStoragePostgres pg first sch))
        (Some vals) ''GET'' u p2 = (p3, Returns r) \<and>
      rs_status r = Some 200 \<and> looks_like v' v \<and>
      (res_ok og jx (OrderResponse (api_order_of v')) \<longrightarrow>
         decodeOrderIDGetResponse og jx r = Inr (OrderResponse (api_order_of v')))"
    if later: "calls_meant lasting (?m(ord_OrderUID v \<mapsto> v)) cs'" for cs'
  proof -
    obtain p2 rs' where p2: "run_ops NewOrderCacheAdapterInMemoryLRU (lru_order_port zc) (NewOrdersStoragePostgres pg) cs' p1 =
        (p2, Returns rs')" "service_state view (foldl map_after (?m(ord_OrderUID v \<mapsto> v)) cs') p2"
      using cached_store.calls_refine [OF service p1(2) later] by blast
    have "foldl map_after (?m(ord_OrderUID v \<mapsto> v)) cs' (ord_OrderUID v) = Some v"
      using maps_after_le [of "?m(ord_OrderUID v \<mapsto> v)" cs'] by (force simp: map_le_def)
    from saved_order_found [OF laws p2(2) this, of first sch "with_logger vals"]
    obtain s v' where s: "lru_rep (wd_cache p2) s" "looks_like v' v"
      "lookup_answer s (NewOrdersStoragePostgres pg first sch) (with_logger vals) (ord_OrderUID v) (wd_storage p2) =
        Returns (v', None)" by blast
    from serve_order [OF url server(1,2) s(1,3) server(3), of jx zc] p2(1) s(2)
    show ?thesis by (fastforce simp: order_answer_def)
  qed
  then show ?thesis using w1 by blast
qed

theorem acknowledged_order_is_kept_witness:
  "\<exists>r0 w1 p2 rs' p3 r. NewKafkaReceiver () 2 1 5 100 = Returns r0 \<and>
    process_task (kafka_port order_lib zero_order) (SaveOrder (NewOrdersStoragePostgres mem_pg True [])) logged_ctx sample_order
      (Some (NewFreshMessage ''payload'' sample_order))
      \<lparr>rx_receiver = r0, rx_process = empty_world, rx_logs = [], rx_tasks = []\<rparr> = (w1, Returns ()) \<and>
    run_ops NewOrderCacheAdapterInMemoryLRU (lru_order_port None) (NewOrdersStoragePostgres mem_pg) [CallRestart 2]
      (rx_process w1) = (p2, Returns rs') \<and>
    serve plain_ogen plain_jx None sample_config
      (NewOrderServiceHTTPHandler None (lru_order_port None) (NewOrdersStoragePostgres mem_pg True []))
      (Some (\<lambda>_. None)) ''GET'' (order_url ''b563'') p2 = (p3, Returns r) \<and> rs_status r = Some 200"
proof -
  obtain r0 :: "(order, string, unit) kafka_receiver" where r0: "NewKafkaReceiver () 2 1 5 100 = Returns r0"
    by (simp add: NewKafkaReceiver_def)
  let ?w = "\<lparr>rx_receiver = r0, rx_process = empty_world, rx_logs = [], rx_tasks = []\<rparr>"
  have uid: "ord_OrderUID sample_order = ''b563''" by (simp add: sample_order_def)
  have url: "good_url plain_ogen (sv_Prefix sample_config) (ord_OrderUID sample_order) (order_url ''b563'')"
    using order_url_good [of "''b563''"] uid by simp
  have h: "holds id (wd_storage empty_world) Map.empty" "wd_cache empty_world = NewOrderCacheAdapterInMemoryLRU 2"
    "wd_tasks empty_world = []" using empty_holds by (simp_all add: empty_world_def)
  have r: "run_ops NewOrderCacheAdapterInMemoryLRU (lru_order_port None) (NewOrdersStoragePostgres mem_pg) [] empty_world =
      (rx_process ?w, Returns [])" by (simp add: ret_def)
  show ?thesis
    using acknowledged_order_is_kept [where vals = "\<lambda>_. None" and lib = order_lib and jx = plain_jx and first = True
        and sch = "[]" and msg = "NewFreshMessage ''payload'' sample_order",
        OF mem_pg_laws logged_ctx_ok h _ r sample_lasting _ url sample_config_fields(2) refl plain_ogen_type] r0
    by (auto dest!: spec [of _ "[CallRestart 2]"])
qed

text \<open>The started process keeps what the receiver's contract asks for.\<close>

lemma process_step_safe:
  assumes "main_step (kafka_port lib zero_order) parse_address process other ctx s s'"
    "kafka_orders.rx_inv (mn_rx s)" "mn_pc s \<noteq> Crashed" "ctx_ok ctx"
    and process: "\<And>x p. snd (process ctx x p) \<noteq> Panics"
  shows "kafka_orders.rx_inv (mn_rx s') \<and> mn_pc s' \<noteq> Crashed"
  using assms(1-4)
proof (induction rule: main_step.induct)
  case (iterate s now res)
  then show ?case
    using kafka_orders.receive_one_safe [of "mn_rx s" ctx lib parse_address now] by auto
next
  case (task s i v msg)
  let ?w = "(mn_rx s)\<lparr>rx_tasks := remove_nth i (rx_tasks (mn_rx s))\<rparr>"
  have g: "given_message msg" "kr_ok (rx_receiver ?w)"
    using task nth_mem [OF task.hyps(2)] by (auto simp: kafka_orders.rx_inv_def)
  obtain w' where "process_task (kafka_port lib zero_order) process ctx v msg ?w = (w', Returns ())"
    "kr_ok (rx_receiver w')" "rx_tasks w' = rx_tasks ?w"
    using kafka_orders.process_task_safe [OF g(2) task.prems(3) g(1), of process lib v] process by blast
  then show ?case using task.prems set_remove_nth [of i "rx_tasks (mn_rx s)"] by (auto simp: kafka_orders.rx_inv_def)
qed (auto simp: kafka_orders.rx_inv_def closers_quiet start_shutdown_def)

lemma process_steps_safe:
  assumes "(main_step (kafka_port lib zero_order) parse_address process other ctx)\<^sup>*\<^sup>* (main_init w) s"
    "kafka_orders.rx_inv w" "ctx_ok ctx" and process: "\<And>x p. snd (process ctx x p) \<noteq> Panics"
  shows "kafka_orders.rx_inv (mn_rx s) \<and> mn_pc s \<noteq> Crashed"
  using assms(1)
proof (induction rule: rtranclp_induct)
  case base
  then show ?case using assms(2) by (simp add: main_init_def)
next
  case (step t u)
  then show ?case using process_step_safe [OF step.hyps(2) _ _ assms(3) process] by blast
qed



end
